(* ===== verification/Ctw_Base.thy ===== *)
theory Ctw_Base
  imports
    Complex_Main
    "HOL-Library.Char_ord"
    "HOL-Library.List_Lexorder"
    "HOL-Library.Sublist"
    "HOL-Library.AList"
    "HOL-Library.Multiset"
begin

text \<open>
  Shared vocabulary of the ctwpy development: the exceptions the command line
  tool can raise (as one \<^theory_text>\<open>datatype\<close>, so that every Python \<open>raise\<close>
  becomes an \<open>Inl\<close> branch of a result of type \<open>error + 'a\<close>), the lines the
  tool prints, the collection of simplification rules the file-system proofs
  share, and generic lemmas on association lists, filters and results.
\<close>

section \<open>Exceptions\<close>

text \<open>
  The Python exceptions that reach the user.  The operating-system errors
  (\<open>FileNotFoundError\<close>, \<open>FileExistsError\<close>, \<open>NotADirectoryError\<close>,
  \<open>IsADirectoryError\<close>) carry the path string that was passed to the call;
  the others are the taxonomy of the specification (section 7).  A missing
  observation column is a pandas \<open>KeyError\<close>, reported here as
  \<open>ConfigurationError\<close> with the missing column names.
\<close>

datatype error =
    FileNotFoundError string
  | FileExistsError string
  | NotADirectoryError string
  | IsADirectoryError string
  | DirectoryExistsError string
  | ConfigurationError "string list"
  | MissingEmbeddingError string
  | H5adReadError string
  | JSONDecodeError string
  | UploadError string
  | AttributeError string

text \<open>What the tool prints on standard output, one constructor per \<open>print\<close> shape.\<close>

datatype out_line =
    Line string
  | MappingPreview "(string \<times> string) list"

section \<open>Shared rule collections\<close>

named_theorems fs_simps \<open>evaluation rules of the file-system operations\<close>
named_theorems wf_intros \<open>well-formedness preservation rules\<close>

section \<open>Results\<close>

text \<open>
  Sequencing of fallible pure computations: the first \<open>Inl\<close> aborts, as a
  raised exception aborts the rest of a Python function body.
\<close>

definition bind_err :: "error + 'a \<Rightarrow> ('a \<Rightarrow> error + 'b) \<Rightarrow> error + 'b" where
  "bind_err r f = (case r of Inl e \<Rightarrow> Inl e | Inr a \<Rightarrow> f a)"

lemma bind_err_simps [simp]:
  "bind_err (Inl e) f = Inl e"
  "bind_err (Inr a) f = f a"
  by (simp_all add: bind_err_def)

section \<open>Association lists and filters\<close>

lemma map_of_filter_key:
  "map_of (filter (\<lambda>(k, v). P k) xs) k = (if P k then map_of xs k else None)"
  by (induction xs) auto

lemma distinct_map_fst_filter:
  "distinct (map fst xs) \<Longrightarrow> distinct (map fst (filter P xs))"
  by (induction xs) (auto simp: image_iff)

lemma map_of_SomeD_set:
  "map_of xs k = Some v \<Longrightarrow> k \<in> fst ` set xs"
  by (auto dest: map_of_SomeD intro: rev_image_eqI)

lemma map_filter_Pair_total:
  "(\<forall>x\<in>set xs. g x \<noteq> None) \<Longrightarrow>
   List.map_filter (\<lambda>x. map_option (Pair x) (g x)) xs = map (\<lambda>x. (x, the (g x))) xs"
  by (induction xs) (auto simp: List.map_filter_simps)

section \<open>Searching lists\<close>

lemma find_Cons_skip: "\<not> P x \<Longrightarrow> find P (x # xs) = find P xs"
  by simp

lemma map_of_under:
  "map_of (map (\<lambda>(b, c). (D @ [b], c)) T) k =
     (if \<exists>b. k = D @ [b] then map_of T (last k) else None)"
  by (induction T) auto

end
