(* ===== verification/Paths.thy ===== *)
theory Paths
  imports Ctw_Base
begin

text \<open>
  Path strings as the program passes them around (\<open>worksheet_name\<close>,
  \<open>scanpy_path\<close>, the archive name \<open>"%s.ctw.tgz" % worksheet_name\<close>) and
  their resolution by the kernel into component lists.  \<open>split_slash\<close> is
  Python's \<open>str.split('/')\<close>, \<open>basename\<close> is \<open>os.path.basename\<close>
  (posixpath: the text after the last slash), and \<open>path_of_str\<close> drops the
  empty and \<open>.\<close> components, as the kernel does for \<open>a//b\<close>, \<open>a/./b\<close> and a
  trailing slash.  The model runs the tool with the working directory at the
  root of the modelled file system, so a leading slash changes nothing, and
  \<open>..\<close> components are not resolved.
\<close>

type_synonym path = "string list"

fun split_slash :: "string \<Rightarrow> string list" where
  "split_slash [] = [[]]"
| "split_slash (c # cs) =
     (if c = CHR ''/'' then [] # split_slash cs
      else (case split_slash cs of [] \<Rightarrow> [[c]] | w # ws \<Rightarrow> (c # w) # ws))"

definition component_ok :: "string \<Rightarrow> bool" where
  "component_ok c \<longleftrightarrow> c \<noteq> [] \<and> c \<noteq> ''.''"

definition path_of_str :: "string \<Rightarrow> path" where
  "path_of_str s = filter component_ok (split_slash s)"

definition basename :: "string \<Rightarrow> string" where
  "basename s = rev (takeWhile (\<lambda>c. c \<noteq> CHR ''/'') (rev s))"

text \<open>The archive name built by \<open>from_scanpy\<close> (\<open>cli.py\<close>, line 46).\<close>

definition ctw_filename :: "string \<Rightarrow> string" where
  "ctw_filename worksheet_name = worksheet_name @ ''.ctw.tgz''"

text \<open>\<open>os.path.join(a, b)\<close> for a relative \<open>b\<close>.\<close>

definition path_join :: "string \<Rightarrow> string \<Rightarrow> string" where
  "path_join a b = (if a = [] \<or> last a = CHR ''/'' then a @ b else a @ ''/'' @ b)"

section \<open>Splitting\<close>

lemma split_slash_not_Nil [simp]: "split_slash s \<noteq> []"
  by (induction s) (auto split: list.split)

lemma split_slash_Cons_char:
  "c \<noteq> CHR ''/'' \<Longrightarrow>
   split_slash (c # cs) = (c # hd (split_slash cs)) # tl (split_slash cs)"
  by (cases "split_slash cs") simp_all

text \<open>Appending text without a slash extends the last segment only.\<close>

lemma split_slash_append_no_slash:
  "CHR ''/'' \<notin> set t \<Longrightarrow>
   split_slash (s @ t) = butlast (split_slash s) @ [last (split_slash s) @ t]"
proof (induction s)
  case Nil
  then show ?case
    by (induction t) (auto simp: split_slash_Cons_char)
next
  case (Cons c cs)
  then show ?case
    by (cases "split_slash cs") (auto simp: split_slash_Cons_char)
qed

lemma length_split_slash:
  "length (split_slash s) = Suc (length (filter (\<lambda>c. c = CHR ''/'') s))"
  by (induction s) (auto split: list.split)

lemma basename_Cons:
  "basename (c # cs) = (if CHR ''/'' \<in> set cs then basename cs
                        else if c = CHR ''/'' then cs else c # cs)"
proof -
  have tw: "takeWhile P (xs @ ys) = (if \<forall>x\<in>set xs. P x then xs @ takeWhile P ys
                                      else takeWhile P xs)" for P and xs ys :: "char list"
    by (induction xs) auto
  show ?thesis
    unfolding basename_def by (auto simp: tw)
qed

lemma split_slash_no_slash_char: "CHR ''/'' \<notin> set cs \<Longrightarrow> split_slash cs = [cs]"
  by (induction cs) (auto simp: split_slash_Cons_char)

lemma split_slash_two:
  assumes "CHR ''/'' \<in> set cs"
  obtains w v ws where "split_slash cs = w # v # ws"
proof -
  from assms have "filter (\<lambda>c. c = CHR ''/'') cs \<noteq> []"
    by (auto simp: filter_empty_conv)
  then have "length (split_slash cs) \<ge> 2"
    by (cases "filter (\<lambda>c. c = CHR ''/'') cs") (simp_all add: length_split_slash)
  then show ?thesis
    using that by (cases "split_slash cs" rule: remdups_adj.cases) auto
qed

text \<open>\<open>os.path.basename\<close> is the last segment of \<open>str.split('/')\<close>.\<close>

lemma basename_eq_last_split: "basename s = last (split_slash s)"
proof (induction s)
  case Nil
  then show ?case by (simp add: basename_def)
next
  case (Cons c cs)
  show ?case
  proof (cases "CHR ''/'' \<in> set cs")
    case True
    then obtain w v ws where sp: "split_slash cs = w # v # ws"
      by (rule split_slash_two)
    with Cons.IH True show ?thesis
      by (simp add: basename_Cons split_slash_Cons_char)
  next
    case False
    then show ?thesis
      by (simp add: basename_Cons split_slash_no_slash_char split_slash_Cons_char)
  qed
qed

lemma basename_no_slash: "CHR ''/'' \<notin> set (basename s)"
  unfolding basename_def by (auto dest: set_takeWhileD)

lemma path_of_str_single:
  "component_ok c \<Longrightarrow> CHR ''/'' \<notin> set c \<Longrightarrow> path_of_str c = [c]"
  by (simp add: path_of_str_def split_slash_no_slash_char)

lemma not_component_ok_cases: "\<not> component_ok c \<Longrightarrow> c = [] \<or> c = ''.''"
  by (simp add: component_ok_def)

section \<open>Resolution of the archive name\<close>

lemma path_of_str_split_last:
  "path_of_str s = filter component_ok (butlast (split_slash s))
                   @ (if component_ok (basename s) then [basename s] else [])"
proof -
  have sp: "split_slash s = butlast (split_slash s) @ [last (split_slash s)]"
    by (rule append_butlast_last_id [symmetric]) simp
  have "path_of_str s = filter component_ok (butlast (split_slash s))
                        @ filter component_ok [last (split_slash s)]"
    unfolding path_of_str_def by (subst sp) (simp only: filter_append)
  then show ?thesis
    by (simp add: basename_eq_last_split)
qed

lemma component_ok_ctw [simp]: "component_ok (w @ ''.ctw.tgz'')"
  by (simp add: component_ok_def)

lemma path_of_str_ctw_filename:
  "path_of_str (ctw_filename s) =
     filter component_ok (butlast (split_slash s)) @ [basename s @ ''.ctw.tgz'']"
  unfolding ctw_filename_def path_of_str_def basename_eq_last_split
  by (simp add: split_slash_append_no_slash component_ok_def)

text \<open>
  Where the archive lands relative to the staging directory: beside it when
  the worksheet name ends in a proper component, inside it when the name ends
  in a slash or in \<open>.\<close>.
\<close>

lemma ctw_filename_sibling:
  "component_ok (basename s) \<Longrightarrow>
   path_of_str s = butlast (path_of_str s) @ [basename s] \<and>
   path_of_str (ctw_filename s) = butlast (path_of_str s) @ [basename s @ ''.ctw.tgz'']"
  using path_of_str_split_last [of s] path_of_str_ctw_filename [of s] by simp

lemma ctw_filename_inside:
  "\<not> component_ok (basename s) \<Longrightarrow>
   path_of_str (ctw_filename s) = path_of_str s @ [basename s @ ''.ctw.tgz'']"
  using path_of_str_split_last [of s] path_of_str_ctw_filename [of s] by simp

section \<open>Joining\<close>

lemma split_slash_append_slash:
  "split_slash (a @ CHR ''/'' # b) = split_slash a @ split_slash b"
proof (induction a)
  case Nil
  then show ?case by simp
next
  case (Cons c cs)
  then show ?case
    by (cases "split_slash cs") (auto simp: split_slash_Cons_char)
qed

lemma path_of_str_join:
  assumes "component_ok b" and "CHR ''/'' \<notin> set b"
  shows "path_of_str (path_join a b) = path_of_str a @ [b]"
proof (cases "a = []")
  case True
  then show ?thesis
    using assms by (simp add: path_join_def path_of_str_def split_slash_no_slash_char component_ok_def)
next
  case False
  show ?thesis
  proof (cases "last a = CHR ''/''")
    case True
    then obtain a' where a: "a = a' @ [CHR ''/'']"
      using False by (metis append_butlast_last_id)
    have "path_join a b = a' @ CHR ''/'' # b"
      using True False a by (simp add: path_join_def)
    moreover have "path_of_str a = filter component_ok (split_slash a')"
      using a split_slash_append_slash [of a' "[]"] by (simp add: path_of_str_def component_ok_def)
    ultimately show ?thesis
      using assms by (simp add: path_of_str_def split_slash_append_slash split_slash_no_slash_char)
  next
    case nl: False
    then have "path_join a b = a @ CHR ''/'' # b"
      using False by (simp add: path_join_def)
    then show ?thesis
      using assms by (simp add: path_of_str_def split_slash_append_slash split_slash_no_slash_char)
  qed
qed

lemma ctw_filename_ne: "path_of_str (ctw_filename n) \<noteq> path_of_str n"
proof (cases "component_ok (basename n)")
  case True
  note sib = ctw_filename_sibling [OF True]
  show ?thesis
  proof
    assume "path_of_str (ctw_filename n) = path_of_str n"
    then have "butlast (path_of_str n) @ [basename n @ ''.ctw.tgz''] = butlast (path_of_str n) @ [basename n]"
      using sib by simp
    then show False by simp
  qed
next
  case False
  then show ?thesis
    using ctw_filename_inside [OF False] by simp
qed

end
