(* ===== verification/Dataset.thy ===== *)
theory Dataset
  imports Ctw_Base
begin

text \<open>
  The Dataset Accessor: the in-memory AnnData object that \<open>from_scanpy\<close>
  reads (\<open>ad = ad_obj.readh5ad(scanpy_path)\<close>, \<open>cli.py\<close> line 28) and the
  accessors of \<open>ctwpy.scanpyapi\<close> the command calls on it (lines 30--40):
  \<open>celltype_mapping\<close>, \<open>has_raw\<close>, \<open>get_xys\<close>, \<open>get_obs\<close>,
  \<open>get_expression\<close>, and \<open>obs_keys\<close> (line 69).  The module is not part of
  the sources, so these definitions follow the specification (section 4.1):
  a missing observation column is a \<open>ConfigurationError\<close> naming it, a
  missing embedding a \<open>MissingEmbeddingError\<close>, and the cell-type mapping
  takes, for each cluster in pandas' sorted group order, the most frequent
  annotation among its cells, ties going to the annotation met first.
\<close>

section \<open>The AnnData object\<close>

text \<open>
  Cells are rows: \<open>obs_names\<close> are the cell identifiers, \<open>obs\<close> the
  observation columns in column order, \<open>X\<close> the normalised expression (one
  row per cell, one entry per gene of \<open>var_names\<close>), \<open>raw\<close> the optional
  unnormalised slot with its own gene list, \<open>obsm\<close> the named
  two-dimensional embeddings (\<open>X_umap\<close>).  Expression values are rationals.
\<close>

record anndata =
  obs_names :: "string list"
  obs :: "(string \<times> string list) list"
  var_names :: "string list"
  X :: "rat list list"
  raw :: "(string list \<times> rat list list) option"
  obsm :: "(string \<times> (rat \<times> rat) list) list"

text \<open>The shape invariant every AnnData object satisfies.\<close>

definition matrix_shape :: "nat \<Rightarrow> nat \<Rightarrow> rat list list \<Rightarrow> bool" where
  "matrix_shape n k m \<longleftrightarrow> length m = n \<and> (\<forall>row \<in> set m. length row = k)"

definition wf_anndata :: "anndata \<Rightarrow> bool" where
  "wf_anndata ad \<longleftrightarrow>
     (let n = length (obs_names ad) in
        distinct (map fst (obs ad))
      \<and> (\<forall>col \<in> snd ` set (obs ad). length col = n)
      \<and> matrix_shape n (length (var_names ad)) (X ad)
      \<and> (\<forall>genes m. raw ad = Some (genes, m) \<longrightarrow> matrix_shape n (length genes) m)
      \<and> (\<forall>xy \<in> snd ` set (obsm ad). length xy = n))"

type_synonym clustering = "(string \<times> string) list"
type_synonym celltype_map = "(string \<times> string) list"
type_synonym xys = "(string \<times> rat \<times> rat) list"

text \<open>An expression table: cell identifiers, gene names, one row per cell.\<close>

type_synonym expression = "string list \<times> string list \<times> rat list list"

section \<open>Accessors\<close>

definition obs_keys :: "anndata \<Rightarrow> string list" where
  "obs_keys ad = map fst (obs ad)"

definition obs_column :: "anndata \<Rightarrow> string \<Rightarrow> error + string list" where
  "obs_column ad key =
     (case map_of (obs ad) key of
        None \<Rightarrow> Inl (ConfigurationError [key])
      | Some col \<Rightarrow> Inr col)"

definition get_obs :: "anndata \<Rightarrow> string \<Rightarrow> error + clustering" where
  "get_obs ad key = bind_err (obs_column ad key) (\<lambda>col. Inr (zip (obs_names ad) col))"

definition has_raw :: "anndata \<Rightarrow> bool" where
  "has_raw ad \<longleftrightarrow> raw ad \<noteq> None"

definition get_xys :: "anndata \<Rightarrow> string \<Rightarrow> error + xys" where
  "get_xys ad key =
     (case map_of (obsm ad) key of
        None \<Rightarrow> Inl (MissingEmbeddingError key)
      | Some xy \<Rightarrow> Inr (zip (obs_names ad) xy))"

text \<open>
  \<open>get_expression(ad, use_raw)\<close> reads \<open>ad.raw.X\<close> when asked to; on an
  object without a raw slot that attribute access fails.
\<close>

definition get_expression :: "anndata \<Rightarrow> bool \<Rightarrow> error + expression" where
  "get_expression ad use_raw =
     (if use_raw then
        (case raw ad of
           None \<Rightarrow> Inl (AttributeError ''raw'')
         | Some (genes, m) \<Rightarrow> Inr (obs_names ad, genes, m))
      else Inr (obs_names ad, var_names ad, X ad))"

text \<open>The table that \<open>get_expression(ad, has_raw(ad))\<close> returns.\<close>

definition expression_of :: "anndata \<Rightarrow> expression" where
  "expression_of ad =
     (case raw ad of
        Some (genes, m) \<Rightarrow> (obs_names ad, genes, m)
      | None \<Rightarrow> (obs_names ad, var_names ad, X ad))"

section \<open>Cell-type mapping\<close>

text \<open>Cluster labels in pandas' \<open>groupby\<close> order (sorted, distinct).\<close>

definition clusters_of :: "string list \<Rightarrow> string list" where
  "clusters_of labels = sort (remdups labels)"

text \<open>
  The annotations of the cells of cluster \<open>c\<close>, in cell order, and the
  majority vote: one pass that replaces the current best only on a strictly
  larger count, so that a tie keeps the annotation met first.
\<close>

definition members :: "string list \<Rightarrow> string list \<Rightarrow> string \<Rightarrow> string list" where
  "members labels types c = map snd (filter (\<lambda>(l, t). l = c) (zip labels types))"

definition vote_step :: "'a list \<Rightarrow> 'a \<Rightarrow> 'a \<Rightarrow> 'a" where
  "vote_step xs best y = (if count_list xs best < count_list xs y then y else best)"

fun most_frequent :: "'a list \<Rightarrow> 'a option" where
  "most_frequent [] = None"
| "most_frequent (x # xs) = Some (foldl (vote_step (x # xs)) x xs)"

definition celltype_mapping ::
  "anndata \<Rightarrow> string \<Rightarrow> string \<Rightarrow> error + celltype_map" where
  "celltype_mapping ad cluster_key celltype_key =
     (case (map_of (obs ad) cluster_key, map_of (obs ad) celltype_key) of
        (Some labels, Some types) \<Rightarrow>
          Inr (List.map_filter
                 (\<lambda>c. map_option (Pair c) (most_frequent (members labels types c)))
                 (clusters_of labels))
      | _ \<Rightarrow> Inl (ConfigurationError
                 (filter (\<lambda>k. map_of (obs ad) k = None) [cluster_key, celltype_key])))"

section \<open>An example dataset\<close>

text \<open>
  Four cells in two Louvain clusters with a \<open>scorect\<close> annotation and a
  UMAP embedding; cluster \<open>0\<close> has a tie between two annotations.
\<close>

definition example_anndata :: anndata where
  "example_anndata =
     \<lparr>obs_names = [''c1'', ''c2'', ''c3'', ''c4''],
      obs = [(''louvain'', [''0'', ''1'', ''0'', ''1'']),
             (''scorect'', [''T cell'', ''B cell'', ''NK cell'', ''B cell''])],
      var_names = [''CD3E'', ''MS4A1''],
      X = [[2, 0], [0, 3], [1, 0], [0, 1]],
      raw = None,
      obsm = [(''X_umap'', [(0, 0), (1, 0), (0, 1), (1, 1)])]\<rparr>"

section \<open>The majority vote\<close>

text \<open>
  The one-pass vote agrees with the reference definition ``the first element
  whose count is maximal'': a generalisation over the current best and the
  remaining suffix, by induction on the suffix.
\<close>

lemma find_vote_step:
  "find (\<lambda>w. \<forall>z\<in>set (b # L). count_list xs z \<le> count_list xs w) (b # L)
   = Some (foldl (vote_step xs) b L)"
proof (induction L arbitrary: b)
  case Nil
  then show ?case by simp
next
  case (Cons y L)
  let ?g = "count_list xs"
  let ?Q = "\<lambda>w. \<forall>z\<in>set (b # y # L). ?g z \<le> ?g w"
  show ?case
  proof (cases "?g b < ?g y")
    case True
    let ?Q' = "\<lambda>w. \<forall>z\<in>set (y # L). ?g z \<le> ?g w"
    have P: "?Q = ?Q'"
      using True by auto
    have nQ: "\<not> ?Q' b"
      using True by auto
    have "find ?Q (b # y # L) = find ?Q' (b # y # L)"
      by (simp only: P)
    also have "\<dots> = find ?Q' (y # L)"
      using nQ by (rule find_Cons_skip)
    also have "\<dots> = Some (foldl (vote_step xs) y L)"
      by (rule Cons.IH)
    also have "\<dots> = Some (foldl (vote_step xs) b (y # L))"
      using True by (simp add: vote_step_def)
    finally show ?thesis .
  next
    case False
    let ?Q' = "\<lambda>w. \<forall>z\<in>set (b # L). ?g z \<le> ?g w"
    have P: "?Q = ?Q'"
      using False by fastforce
    have skip: "find ?Q' (b # y # L) = find ?Q' (b # L)"
    proof (cases "?Q' b")
      case True
      then show ?thesis by simp
    next
      case nb: False
      have ny: "\<not> ?Q' y"
        using nb False by fastforce
      have "find ?Q' (b # y # L) = find ?Q' (y # L)"
        using nb by (rule find_Cons_skip)
      also have "\<dots> = find ?Q' L"
        using ny by (rule find_Cons_skip)
      finally have "find ?Q' (b # y # L) = find ?Q' L" .
      moreover have "find ?Q' (b # L) = find ?Q' L"
        using nb by (rule find_Cons_skip)
      ultimately show ?thesis by (rule trans [OF _ sym])
    qed
    have "find ?Q (b # y # L) = find ?Q' (b # y # L)"
      by (simp only: P)
    also have "\<dots> = Some (foldl (vote_step xs) b L)"
      using skip Cons.IH [of b] by simp
    also have "\<dots> = Some (foldl (vote_step xs) b (y # L))"
      using False by (simp add: vote_step_def)
    finally show ?thesis .
  qed
qed

text \<open>
  The single pass of \<open>most_frequent\<close> computes
  the reference majority: the first annotation, in cell order, whose count is
  maximal.
\<close>

lemma most_frequent_find:
  "most_frequent xs = find (\<lambda>w. \<forall>z\<in>set xs. count_list xs z \<le> count_list xs w) xs"
  by (cases xs) (simp, simp only: most_frequent.simps find_vote_step)

lemma most_frequent_Some: "xs \<noteq> [] \<Longrightarrow> \<exists>m. most_frequent xs = Some m"
  by (cases xs) auto

section \<open>Accessor contracts\<close>

lemma wf_anndata_obs_length:
  "wf_anndata ad \<Longrightarrow> map_of (obs ad) k = Some col \<Longrightarrow> length col = length (obs_names ad)"
  unfolding wf_anndata_def Let_def by (force dest: map_of_SomeD)

lemma members_not_Nil:
  "length labels = length types \<Longrightarrow> c \<in> set labels \<Longrightarrow> members labels types c \<noteq> []"
  by (induction labels types rule: list_induct2) (auto simp: members_def)

lemma wf_example_anndata: "wf_anndata example_anndata"
  by (simp add: wf_anndata_def example_anndata_def matrix_shape_def)

lemma celltype_mapping_explicit:
  assumes wf: "wf_anndata ad"
    and lab: "map_of (obs ad) ck = Some labels"
    and tys: "map_of (obs ad) tk = Some types"
  shows "celltype_mapping ad ck tk =
           Inr (map (\<lambda>c. (c, the (most_frequent (members labels types c)))) (clusters_of labels))
         \<and> (\<forall>c \<in> set (clusters_of labels). most_frequent (members labels types c) \<noteq> None)"
proof -
  have len: "length labels = length types"
    using wf_anndata_obs_length [OF wf lab] wf_anndata_obs_length [OF wf tys] by simp
  let ?g = "\<lambda>c. most_frequent (members labels types c)"
  have some: "\<forall>c\<in>set (clusters_of labels). ?g c \<noteq> None"
  proof
    fix c
    assume "c \<in> set (clusters_of labels)"
    then have "members labels types c \<noteq> []"
      using len by (simp add: clusters_of_def members_not_Nil)
    then show "?g c \<noteq> None"
      using most_frequent_Some by fastforce
  qed
  then show ?thesis
    using lab tys by (simp add: celltype_mapping_def map_filter_Pair_total)
qed

text \<open>
  When both columns exist, the cell-type
  mapping has one entry per cluster, in pandas' sorted group order, and maps
  each cluster to the majority annotation of its cells.
\<close>

lemma celltype_mapping_majority:
  assumes wf: "wf_anndata ad"
    and lab: "map_of (obs ad) ck = Some labels"
    and tys: "map_of (obs ad) tk = Some types"
  shows "\<exists>mp. celltype_mapping ad ck tk = Inr mp \<and> map fst mp = clusters_of labels
           \<and> (\<forall>(c, t) \<in> set mp. most_frequent (members labels types c) = Some t)"
  using celltype_mapping_explicit [OF wf lab tys] by (auto simp: comp_def)

text \<open>
  When the cluster or the cell-type
  column is absent, the mapping fails with a \<open>ConfigurationError\<close> that
  lists exactly the missing columns (the policy this model documents for the
  specification's open question).
\<close>

lemma celltype_mapping_missing_column:
  assumes "map_of (obs ad) ck = None \<or> map_of (obs ad) tk = None"
  shows "celltype_mapping ad ck tk =
           Inl (ConfigurationError (filter (\<lambda>k. map_of (obs ad) k = None) [ck, tk]))"
  using assms by (auto simp: celltype_mapping_def split: option.split)

section \<open>Examples\<close>

lemma example_anndata_columns:
  "map_of (obs example_anndata) ''louvain'' = Some [''0'', ''1'', ''0'', ''1'']"
  "map_of (obs example_anndata) ''scorect'' = Some [''T cell'', ''B cell'', ''NK cell'', ''B cell'']"
  "map_of (obsm example_anndata) ''X_umap'' = Some [(0, 0), (1, 0), (0, 1), (1, 1)]"
  by (simp_all add: example_anndata_def)

end
