(* ===== verification/Markers.thy ===== *)
theory Markers
  imports Dataset
begin

text \<open>
  The Marker Pipeline, \<open>markers_df = run_pipe(ad, cluster_name)\<close>
  (\<open>cli.py\<close> line 36).  \<open>ctwpy.marker_table\<close> is not part of the sources;
  the definitions follow the specification (section 4.2): for each cluster,
  in the order of \<open>clusters_of\<close>, every gene is scored by the difference of
  its mean expression inside and outside the cluster, and the genes are
  listed by decreasing score, ties in gene order (a stable sort, no
  randomness).  The expression matrix is the one \<open>get_expression\<close> returns
  under the raw-if-present policy.  A cluster that holds every cell has an
  empty outside group, whose mean is taken as \<open>0\<close>: the edge case yields a
  ranking, not a failure.
\<close>

type_synonym marker_row = "string \<times> string \<times> rat"

definition mean :: "rat list \<Rightarrow> rat" where
  "mean xs = (if xs = [] then 0 else sum_list xs / of_nat (length xs))"

definition in_group :: "string list \<Rightarrow> string \<Rightarrow> rat list \<Rightarrow> rat list" where
  "in_group labels c col = map snd (filter (\<lambda>(l, v). l = c) (zip labels col))"

definition out_group :: "string list \<Rightarrow> string \<Rightarrow> rat list \<Rightarrow> rat list" where
  "out_group labels c col = map snd (filter (\<lambda>(l, v). l \<noteq> c) (zip labels col))"

definition gene_score :: "string list \<Rightarrow> string \<Rightarrow> rat list \<Rightarrow> rat" where
  "gene_score labels c col = mean (in_group labels c col) - mean (out_group labels c col)"

text \<open>The row group of cluster \<open>c\<close>; \<open>cols\<close> holds one expression column per gene.\<close>

definition rank_genes ::
  "string list \<Rightarrow> rat list list \<Rightarrow> string list \<Rightarrow> string \<Rightarrow> marker_row list" where
  "rank_genes genes cols labels c =
     map (\<lambda>(g, s). (g, c, s))
       (sort_key (\<lambda>(g, s). - s) (zip genes (map (gene_score labels c) cols)))"

definition marker_table :: "string list \<Rightarrow> rat list list \<Rightarrow> string list \<Rightarrow> marker_row list" where
  "marker_table genes m labels =
     concat (map (rank_genes genes (transpose m) labels) (clusters_of labels))"

definition run_pipe :: "anndata \<Rightarrow> string \<Rightarrow> error + marker_row list" where
  "run_pipe ad cluster_name =
     bind_err (obs_column ad cluster_name) (\<lambda>labels.
     bind_err (get_expression ad (has_raw ad)) (\<lambda>(cells, genes, m).
     Inr (marker_table genes m labels)))"

end
