(* ===== verification/File_System.thy ===== *)
theory File_System
  imports Paths Dataset
begin

text \<open>
  The environment the command line tool acts on: a file system, standard
  output and the remote catalog, gathered in the record \<open>world\<close>.  The file
  system is a flat association list from component paths to nodes (the root
  \<open>[]\<close> is an implicit directory).  A file holds typed content: plain text, a
  tab-separated table, an AnnData object (an \<open>.h5ad\<close> file), a JSON object,
  or a gzip-compressed tar archive given by its member list.  The operations
  are the semantics of the library calls the program makes: \<open>os.mkdir\<close>,
  \<open>open(path, 'w')\<close> followed by a write, \<open>shutil.rmtree\<close>, and the readers
  \<open>readh5ad\<close> and \<open>read_json\<close>, with the errors the calls raise as
  \<open>Inl\<close> values.  The invariant \<open>wf_fs\<close> says that keys are distinct and
  proper, and that the parent of every entry is a directory.
\<close>

section \<open>Nodes and file contents\<close>

text \<open>A cell of a tab-separated worksheet table: text or a number.\<close>

datatype cell = S string | R rat

datatype node = Dir | File content
and content =
    Text string
  | Tsv "cell list list"
  | H5ad anndata
  | Json "(string \<times> string) list"
  | Tgz "(path \<times> node) list"

type_synonym fs = "(path \<times> node) list"

record world =
  fs :: fs
  stdout :: "out_line list"
  catalog :: "content list"
  accepted_creds :: "(string \<times> string) list list"

section \<open>Lookup and update\<close>

definition fs_get :: "fs \<Rightarrow> path \<Rightarrow> node option" where
  "fs_get t p = (if p = [] then Some Dir else map_of t p)"

definition fs_put :: "path \<Rightarrow> node \<Rightarrow> fs \<Rightarrow> fs" where
  "fs_put p n t = AList.update p n t"

definition fs_remove_tree :: "path \<Rightarrow> fs \<Rightarrow> fs" where
  "fs_remove_tree p t = filter (\<lambda>(q, _). \<not> prefix p q) t"

text \<open>\<open>sorted(os.listdir(d))\<close>: the names of the entries directly below \<open>d\<close>.\<close>

definition children :: "fs \<Rightarrow> path \<Rightarrow> string list" where
  "children t d = sort (remdups (map last (filter (\<lambda>p. p \<noteq> [] \<and> butlast p = d) (map fst t))))"

definition max_depth :: "fs \<Rightarrow> nat" where
  "max_depth t = Max (set (0 # map (\<lambda>(p, _). length p) t))"

definition wf_fs :: "fs \<Rightarrow> bool" where
  "wf_fs t \<longleftrightarrow> distinct (map fst t)
              \<and> (\<forall>(p, n) \<in> set t. p \<noteq> [] \<and> fs_get t (butlast p) = Some Dir)"

section \<open>Library calls\<close>

text \<open>\<open>os.mkdir(s)\<close>.  The path is resolved by \<open>path_of_str\<close>, so a name whose last
  component is \<open>.\<close> (\<open>ws/.\<close>) creates \<open>ws\<close> here, while the kernel refuses it
  (\<open>FileNotFoundError\<close> or \<open>FileExistsError\<close>).  Properties whose hypotheses
  admit such a name describe this model there, not the kernel.\<close>

definition os_mkdir :: "string \<Rightarrow> fs \<Rightarrow> error + fs" where
  "os_mkdir s t =
     (let p = path_of_str s in
      if fs_get t p \<noteq> None then Inl (FileExistsError s)
      else (case fs_get t (butlast p) of
              None \<Rightarrow> Inl (FileNotFoundError s)
            | Some (File _) \<Rightarrow> Inl (NotADirectoryError s)
            | Some Dir \<Rightarrow> Inr (fs_put p Dir t)))"

text \<open>\<open>with open(s, 'w') as f: f.write(...)\<close>: create or truncate, then write.\<close>

definition os_write :: "string \<Rightarrow> content \<Rightarrow> fs \<Rightarrow> error + fs" where
  "os_write s c t =
     (let p = path_of_str s in
      if fs_get t p = Some Dir then Inl (IsADirectoryError s)
      else (case fs_get t (butlast p) of
              None \<Rightarrow> Inl (FileNotFoundError s)
            | Some (File _) \<Rightarrow> Inl (NotADirectoryError s)
            | Some Dir \<Rightarrow> Inr (fs_put p (File c) t)))"

text \<open>\<open>shutil.rmtree(s)\<close>: removes the directory and everything below it.  For a
  last component \<open>.\<close> the library empties the directory and then fails with
  \<open>EINVAL\<close>; the model removes the directory (see \<open>os_mkdir\<close>).\<close>

definition rmtree :: "string \<Rightarrow> fs \<Rightarrow> error + fs" where
  "rmtree s t =
     (let p = path_of_str s in
      case fs_get t p of
        None \<Rightarrow> Inl (FileNotFoundError s)
      | Some (File _) \<Rightarrow> Inl (NotADirectoryError s)
      | Some Dir \<Rightarrow> Inr (fs_remove_tree p t))"

text \<open>
  \<open>scanpyapi.readh5ad(path)\<close> and \<open>io.read_json(path)\<close>: read a file and
  decode it; a file of another kind fails to decode.
\<close>

definition readh5ad :: "string \<Rightarrow> fs \<Rightarrow> error + anndata" where
  "readh5ad s t =
     (case fs_get t (path_of_str s) of
        None \<Rightarrow> Inl (FileNotFoundError s)
      | Some Dir \<Rightarrow> Inl (IsADirectoryError s)
      | Some (File (H5ad ad)) \<Rightarrow> Inr ad
      | Some (File _) \<Rightarrow> Inl (H5adReadError s))"

definition read_json :: "string \<Rightarrow> fs \<Rightarrow> error + (string \<times> string) list" where
  "read_json s t =
     (case fs_get t (path_of_str s) of
        None \<Rightarrow> Inl (FileNotFoundError s)
      | Some Dir \<Rightarrow> Inl (IsADirectoryError s)
      | Some (File (Json obj)) \<Rightarrow> Inr obj
      | Some (File _) \<Rightarrow> Inl (JSONDecodeError s))"

section \<open>Lookup lemmas\<close>

lemma fs_get_Nil [simp, fs_simps]: "fs_get t [] = Some Dir"
  by (simp add: fs_get_def)

lemma fs_get_put [fs_simps]:
  "p \<noteq> [] \<Longrightarrow> fs_get (fs_put p n t) q = (if q = p then Some n else fs_get t q)"
  by (simp add: fs_get_def fs_put_def update_conv')

lemma fs_get_remove_tree [fs_simps]:
  "fs_get (fs_remove_tree p t) q = (if q \<noteq> [] \<and> prefix p q then None else fs_get t q)"
  by (auto simp: fs_get_def fs_remove_tree_def map_of_filter_key)

lemma keys_fs_put: "fst ` set (fs_put p n t) = insert p (fst ` set t)"
  by (simp add: fs_put_def dom_update)

lemma fs_get_Some_key:
  "p \<noteq> [] \<Longrightarrow> fs_get t p = Some n \<Longrightarrow> (p, n) \<in> set t"
  by (simp add: fs_get_def map_of_SomeD)

lemma wf_fs_parent:
  "wf_fs t \<Longrightarrow> p \<noteq> [] \<Longrightarrow> fs_get t p = Some n \<Longrightarrow> fs_get t (butlast p) = Some Dir"
  unfolding wf_fs_def by (auto dest: fs_get_Some_key)

text \<open>Every proper prefix of an existing path is a directory.\<close>

lemma wf_fs_prefix_dir:
  assumes "wf_fs t" and "fs_get t p = Some n" and "strict_prefix q p"
  shows "fs_get t q = Some Dir"
  using assms(2,3)
proof (induction p arbitrary: n rule: rev_induct)
  case Nil
  then show ?case by simp
next
  case (snoc x p)
  have dir: "fs_get t p = Some Dir"
    using wf_fs_parent [OF assms(1) _ snoc.prems(1)] by simp
  from snoc.prems(2) have "q = p \<or> strict_prefix q p"
    by (metis prefix_order.dual_order.strict_iff_not prefix_snoc strict_prefix_def)
  then show ?case
    using dir snoc.IH by blast
qed

section \<open>Well-formedness is preserved\<close>

lemma wf_fs_put [wf_intros]:
  assumes "wf_fs t" and "p \<noteq> []" and "fs_get t (butlast p) = Some Dir"
    and "fs_get t p = None \<or> (n \<noteq> Dir \<and> fs_get t p \<noteq> Some Dir)"
  shows "wf_fs (fs_put p n t)"
proof -
  have keys: "distinct (map fst (fs_put p n t))"
    using assms(1) by (simp add: wf_fs_def fs_put_def distinct_update)
  have "\<forall>(q, m) \<in> set (fs_put p n t). q \<noteq> [] \<and> fs_get (fs_put p n t) (butlast q) = Some Dir"
  proof (clarify)
    fix q m
    assume qm: "(q, m) \<in> set (fs_put p n t)"
    then have "q \<in> fst ` set (fs_put p n t)"
      by force
    then have q_key: "q = p \<or> q \<in> fst ` set t"
      by (simp add: keys_fs_put)
    then have q_ne: "q \<noteq> []"
      using assms(1,2) by (auto simp: wf_fs_def)
    have "fs_get t (butlast q) = Some Dir"
    proof (cases "q = p")
      case True
      then show ?thesis using assms(3) by simp
    next
      case False
      then obtain m' where "(q, m') \<in> set t"
        using q_key by auto
      then show ?thesis
        using assms(1) by (auto simp: wf_fs_def)
    qed
    moreover have "butlast q \<noteq> p \<or> n = Dir \<or> fs_get t p = Some Dir"
      using assms(4) calculation by auto
    ultimately show "q \<noteq> [] \<and> fs_get (fs_put p n t) (butlast q) = Some Dir"
      using q_ne assms(2,4) by (auto simp: fs_get_put)
  qed
  with keys show ?thesis
    by (simp add: wf_fs_def)
qed

lemma prefix_butlast_imp: "prefix p (butlast q) \<Longrightarrow> prefix p q"
  by (metis prefix_order.trans prefixeq_butlast)

lemma wf_fs_remove_tree [wf_intros]:
  assumes "wf_fs t"
  shows "wf_fs (fs_remove_tree p t)"
proof -
  have "distinct (map fst (fs_remove_tree p t))"
    using assms by (simp add: wf_fs_def fs_remove_tree_def distinct_map_fst_filter)
  moreover have "\<forall>(q, m) \<in> set (fs_remove_tree p t).
                   q \<noteq> [] \<and> fs_get (fs_remove_tree p t) (butlast q) = Some Dir"
  proof (clarify)
    fix q m
    assume "(q, m) \<in> set (fs_remove_tree p t)"
    then have qm: "(q, m) \<in> set t" and np: "\<not> prefix p q"
      by (auto simp: fs_remove_tree_def)
    then have "q \<noteq> [] \<and> fs_get t (butlast q) = Some Dir"
      using assms by (auto simp: wf_fs_def)
    moreover have "\<not> prefix p (butlast q)"
      using np prefix_butlast_imp by blast
    ultimately show "q \<noteq> [] \<and> fs_get (fs_remove_tree p t) (butlast q) = Some Dir"
      by (simp add: fs_get_remove_tree)
  qed
  ultimately show ?thesis
    by (simp add: wf_fs_def)
qed

section \<open>The library calls: results and invariant\<close>

lemma os_mkdir_Inr:
  "os_mkdir s t = Inr t' \<longleftrightarrow>
     path_of_str s \<noteq> [] \<and> fs_get t (path_of_str s) = None
     \<and> fs_get t (butlast (path_of_str s)) = Some Dir \<and> t' = fs_put (path_of_str s) Dir t"
  by (cases "fs_get t (butlast (path_of_str s))")
     (auto simp: os_mkdir_def Let_def split: node.split)

lemma os_write_Inr:
  "os_write s c t = Inr t' \<longleftrightarrow>
     path_of_str s \<noteq> [] \<and> fs_get t (path_of_str s) \<noteq> Some Dir
     \<and> fs_get t (butlast (path_of_str s)) = Some Dir \<and> t' = fs_put (path_of_str s) (File c) t"
  by (cases "fs_get t (butlast (path_of_str s))")
     (auto simp: os_write_def Let_def split: node.split)

lemma rmtree_Inr:
  "rmtree s t = Inr t' \<longleftrightarrow>
     fs_get t (path_of_str s) = Some Dir \<and> t' = fs_remove_tree (path_of_str s) t"
  by (auto simp: rmtree_def Let_def split: option.split node.split)

lemma os_mkdir_wf [wf_intros]: "wf_fs t \<Longrightarrow> os_mkdir s t = Inr t' \<Longrightarrow> wf_fs t'"
  by (auto simp: os_mkdir_Inr intro: wf_fs_put)

lemma os_write_wf [wf_intros]: "wf_fs t \<Longrightarrow> os_write s c t = Inr t' \<Longrightarrow> wf_fs t'"
  by (auto simp: os_write_Inr intro: wf_fs_put)

lemma rmtree_wf [wf_intros]: "wf_fs t \<Longrightarrow> rmtree s t = Inr t' \<Longrightarrow> wf_fs t'"
  by (auto simp: rmtree_Inr intro: wf_fs_remove_tree)

section \<open>Directory listing\<close>

lemma children_iff: "f \<in> set (children t d) \<longleftrightarrow> d @ [f] \<in> fst ` set t"
proof
  assume "f \<in> set (children t d)"
  then obtain p where "p \<in> fst ` set t" "p \<noteq> []" "butlast p = d" "last p = f"
    by (auto simp: children_def)
  then show "d @ [f] \<in> fst ` set t"
    by (metis append_butlast_last_id)
next
  assume "d @ [f] \<in> fst ` set t"
  then show "f \<in> set (children t d)"
    by (force simp: children_def)
qed

lemma length_le_max_depth: "p \<in> fst ` set t \<Longrightarrow> length p \<le> max_depth t"
  by (auto simp: max_depth_def intro!: Max_ge)

lemma os_write_frame:
  "os_write s c t = Inr t' \<Longrightarrow> q \<noteq> path_of_str s \<Longrightarrow> fs_get t' q = fs_get t q"
  by (auto simp: os_write_Inr fs_get_put)

end
