(* ===== verification/Archive.thy ===== *)
theory Archive
  imports File_System
begin

text \<open>
  The Archiver, \<open>make_tarfile(output_filename, source_dir)\<close> (\<open>cli.py\<close>
  lines 60--62): \<open>tarfile.open(output_filename, "w:gz")\<close> creates (or
  truncates) the archive file at once, then \<open>tar.add(source_dir,
  arcname=os.path.basename(source_dir))\<close> walks the source tree: a missing
  source raises \<open>FileNotFoundError\<close>; the archive file itself is skipped
  (tarfile compares each path with its own name); a directory contributes its
  own member and then its entries in \<open>sorted(os.listdir(...))\<close> order.
  Members are named by component lists below the arcname.  When \<open>tar.add\<close>
  fails, the \<open>with\<close> block closes the file without writing the archive, so
  the truncated file stays behind.  \<open>extract_all\<close> is the reader's
  \<open>tar.extractall(dest)\<close>, used to state the round trip.
\<close>

section \<open>The recursive walk of tarfile.add\<close>

function tar_walk :: "fs \<Rightarrow> path \<Rightarrow> path \<Rightarrow> path \<Rightarrow> (path \<times> node) list" where
  "tar_walk t out name arc =
     (if name = out then []
      else (case fs_get t name of
              None \<Rightarrow> []
            | Some (File c) \<Rightarrow> [(arc, File c)]
            | Some Dir \<Rightarrow>
                (arc, Dir) # concat (map (\<lambda>f. tar_walk t out (name @ [f]) (arc @ [f]))
                                         (children t name))))"
  by pat_completeness auto

termination tar_walk
proof (relation "measure (\<lambda>(t, out, name, arc). Suc (max_depth t) - length name)")
  show "wf (measure (\<lambda>(t, out, name, arc). Suc (max_depth t) - length name))"
    by simp
next
  fix t out name arc x f
  assume "f \<in> set (children t name)"
  then have "name @ [f] \<in> fst ` set t"
    by (simp add: children_iff)
  then have "length (name @ [f]) \<le> max_depth t"
    by (rule length_le_max_depth)
  then show "((t, out, name @ [f], arc @ [f]), t, out, name, arc)
               \<in> measure (\<lambda>(t, out, name, arc). Suc (max_depth t) - length name)"
    by simp
qed

section \<open>Extraction\<close>

text \<open>
  \<open>tar.extractall(dest)\<close> as the reader of the bundle would run it: each
  member is created below \<open>dest\<close> in archive order.
\<close>

definition extract_member :: "path \<Rightarrow> fs \<Rightarrow> path \<times> node \<Rightarrow> fs" where
  "extract_member dest u m = (case m of (a, n) \<Rightarrow> fs_put (dest @ a) n u)"

definition extract_all :: "(path \<times> node) list \<Rightarrow> path \<Rightarrow> fs \<Rightarrow> fs" where
  "extract_all ms dest u = foldl (extract_member dest) u ms"

section \<open>Creating the archive\<close>

definition tar_add :: "fs \<Rightarrow> path \<Rightarrow> string \<Rightarrow> path \<Rightarrow> error + (path \<times> node) list" where
  "tar_add t out source_dir arc =
     (let p = path_of_str source_dir in
      if p \<noteq> out \<and> fs_get t p = None then Inl (FileNotFoundError source_dir)
      else Inr (tar_walk t out p arc))"

definition make_tarfile :: "string \<Rightarrow> string \<Rightarrow> fs \<Rightarrow> (error + unit) \<times> fs" where
  "make_tarfile output_filename source_dir t =
     (case os_write output_filename (Text '''') t of
        Inl e \<Rightarrow> (Inl e, t)
      | Inr t1 \<Rightarrow>
          (case tar_add t1 (path_of_str output_filename) source_dir
                  (path_of_str (basename source_dir)) of
             Inl e \<Rightarrow> (Inl e, t1)
           | Inr ms \<Rightarrow> (Inr (), fs_put (path_of_str output_filename) (File (Tgz ms)) t1)))"

definition example_fs :: fs where
  "example_fs = [([''ws''], Dir), ([''ws'', ''xys.tab''], File (Text ''c1''))]"

section \<open>Members of the walk\<close>

declare tar_walk.simps [simp del]

lemma wf_fs_get_prefix:
  assumes "wf_fs t" and "fs_get t (p @ q) \<noteq> None"
  shows "fs_get t p \<noteq> None"
proof (cases "q = []")
  case True
  with assms(2) show ?thesis by simp
next
  case False
  then have "strict_prefix p (p @ q)"
    by (simp add: strict_prefix_def)
  with assms show ?thesis
    using wf_fs_prefix_dir by blast
qed

lemma fs_get_key: "p \<noteq> [] \<Longrightarrow> fs_get t p \<noteq> None \<Longrightarrow> p \<in> fst ` set t"
  by (auto simp: fs_get_def dest: map_of_SomeD_set)

lemma fresh_below:
  assumes "wf_fs t" and "fs_get t p = None"
  shows "fs_get t (p @ q) = None"
  using wf_fs_get_prefix [OF assms(1), of p q] assms(2) by fastforce

lemma file_no_below:
  assumes "wf_fs t" and "fs_get t p = Some (File c)" and "fs_get t (p @ q) = Some n"
  shows "q = []"
proof (rule ccontr)
  assume "q \<noteq> []"
  then have "strict_prefix p (p @ q)"
    by (simp add: strict_prefix_def)
  then have "fs_get t p = Some Dir"
    using assms(1,3) wf_fs_prefix_dir by blast
  with assms(2) show False by simp
qed

text \<open>The members below a directory, split by the first component.\<close>

lemma members_dir_split:
  assumes wf: "wf_fs t" and dir: "fs_get t name = Some Dir" and nout: "name \<noteq> out"
  shows "(\<exists>q. a = arc @ q \<and> fs_get t (name @ q) = Some n \<and> (\<forall>r. prefix r q \<longrightarrow> name @ r \<noteq> out))
         \<longleftrightarrow> (a, n) = (arc, Dir)
             \<or> (\<exists>f \<in> set (children t name). \<exists>q. a = (arc @ [f]) @ q
                   \<and> fs_get t ((name @ [f]) @ q) = Some n
                   \<and> (\<forall>r. prefix r q \<longrightarrow> (name @ [f]) @ r \<noteq> out))"
  (is "?A \<longleftrightarrow> ?B")
proof
  assume ?A
  then obtain q where a: "a = arc @ q" and g: "fs_get t (name @ q) = Some n"
    and np: "\<forall>r. prefix r q \<longrightarrow> name @ r \<noteq> out" by blast
  show ?B
  proof (cases q)
    case Nil
    with a g dir show ?thesis by simp
  next
    case (Cons f q')
    have "fs_get t ((name @ [f]) @ q') \<noteq> None"
      using g Cons by simp
    then have "fs_get t (name @ [f]) \<noteq> None"
      by (rule wf_fs_get_prefix [OF wf])
    then have "f \<in> set (children t name)"
      by (simp add: children_iff fs_get_key)
    moreover have "\<forall>r. prefix r q' \<longrightarrow> (name @ [f]) @ r \<noteq> out"
      using np Cons by (metis Cons_prefix_Cons append_Cons append_assoc self_append_conv2)
    ultimately show ?thesis
      using a g Cons by auto
  qed
next
  assume ?B
  then show ?A
  proof
    assume "(a, n) = (arc, Dir)"
    then show ?A
      using dir nout by (intro exI [of _ "[]"]) auto
  next
    assume "\<exists>f \<in> set (children t name). \<exists>q. a = (arc @ [f]) @ q
                   \<and> fs_get t ((name @ [f]) @ q) = Some n
                   \<and> (\<forall>r. prefix r q \<longrightarrow> (name @ [f]) @ r \<noteq> out)"
    then obtain f q where a: "a = arc @ f # q" and g: "fs_get t (name @ f # q) = Some n"
      and np: "\<forall>r. prefix r q \<longrightarrow> name @ f # r \<noteq> out" by auto
    have "\<forall>r. prefix r (f # q) \<longrightarrow> name @ r \<noteq> out"
      using np nout by (auto simp: prefix_Cons)
    with a g show ?A by blast
  qed
qed

theorem tar_walk_members:
  assumes wf: "wf_fs t"
  shows "(a, n) \<in> set (tar_walk t out name arc) \<longleftrightarrow>
         (\<exists>q. a = arc @ q \<and> fs_get t (name @ q) = Some n \<and> (\<forall>r. prefix r q \<longrightarrow> name @ r \<noteq> out))"
  using wf
proof (induction t out name arc arbitrary: a n rule: tar_walk.induct)
  case (1 t out name arc)
  note wf = "1.prems"
  show ?case
  proof (cases "name = out")
    case True
    then show ?thesis
      by (auto simp: tar_walk.simps)
  next
    case nout: False
    consider (absent) "fs_get t name = None" | (plain) c where "fs_get t name = Some (File c)"
      | (directory) "fs_get t name = Some Dir"
      by (metis node.exhaust option.exhaust)
    then show ?thesis
    proof cases
      case absent
      have "fs_get t (name @ q) = None" for q
        using wf_fs_get_prefix [OF wf, of name q] absent by fastforce
      with absent nout show ?thesis
        by (simp add: tar_walk.simps)
    next
      case plain
      have "fs_get t (name @ q) = Some m \<longleftrightarrow> q = [] \<and> m = File c" for q m
        using file_no_below [OF wf plain, of q m] plain by auto
      with plain nout show ?thesis
        by (auto simp: tar_walk.simps)
    next
      case directory
      have "(a, n) \<in> set (tar_walk t out name arc) \<longleftrightarrow>
            (a, n) = (arc, Dir) \<or> (\<exists>f \<in> set (children t name).
               (a, n) \<in> set (tar_walk t out (name @ [f]) (arc @ [f])))"
        using directory nout by (auto simp: tar_walk.simps [of t out name arc])
      also have "\<dots> \<longleftrightarrow> (a, n) = (arc, Dir) \<or> (\<exists>f \<in> set (children t name).
               \<exists>q. a = (arc @ [f]) @ q \<and> fs_get t ((name @ [f]) @ q) = Some n
                   \<and> (\<forall>r. prefix r q \<longrightarrow> (name @ [f]) @ r \<noteq> out))"
        using "1.IH" [OF nout directory refl _ wf] by blast
      also have "\<dots> \<longleftrightarrow> (\<exists>q. a = arc @ q \<and> fs_get t (name @ q) = Some n
                                \<and> (\<forall>r. prefix r q \<longrightarrow> name @ r \<noteq> out))"
        using members_dir_split [OF wf directory nout] by blast
      finally show ?thesis .
    qed
  qed
qed

section \<open>Extracting members\<close>

lemma extract_all_snoc:
  "extract_all (ms @ [(a, n)]) dest u = fs_put (dest @ a) n (extract_all ms dest u)"
  by (simp add: extract_all_def extract_member_def)

lemma extract_all_member:
  assumes "dest \<noteq> []" and "(a, n) \<in> set ms"
    and func: "\<forall>n'. (a, n') \<in> set ms \<longrightarrow> n' = n"
  shows "fs_get (extract_all ms dest u) (dest @ a) = Some n"
  using assms(2,3)
proof (induction ms rule: rev_induct)
  case Nil
  then show ?case by simp
next
  case (snoc x ms)
  obtain a' n' where x: "x = (a', n')" by fastforce
  have ne: "dest @ a' \<noteq> []"
    using assms(1) by simp
  have ne': "dest @ a \<noteq> []"
    using assms(1) by simp
  show ?case
  proof (cases "a' = a")
    case True
    then have "(a, n') \<in> set (ms @ [x])"
      using x by simp
    with snoc.prems(2) have "n' = n"
      by blast
    with True x have x': "x = (a, n)"
      by simp
    have "fs_get (extract_all (ms @ [x]) dest u) (dest @ a)
          = fs_get (fs_put (dest @ a) n (extract_all ms dest u)) (dest @ a)"
      by (simp only: x' extract_all_snoc)
    also have "\<dots> = Some n"
      by (simp add: fs_get_put [OF ne'])
    finally show ?thesis .
  next
    case False
    then have "(a, n) \<in> set ms"
      using snoc.prems(1) x by auto
    moreover have "\<forall>n'. (a, n') \<in> set ms \<longrightarrow> n' = n"
      using snoc.prems(2) by simp
    ultimately have "fs_get (extract_all ms dest u) (dest @ a) = Some n"
      by (rule snoc.IH)
    then show ?thesis
      using False x ne by (simp add: extract_all_snoc fs_get_put)
  qed
qed

lemma extract_all_other:
  assumes "dest \<noteq> []" and "\<forall>n. (a, n) \<notin> set ms"
  shows "fs_get (extract_all ms dest u) (dest @ a) = fs_get u (dest @ a)"
  using assms(2)
proof (induction ms rule: rev_induct)
  case Nil
  then show ?case by (simp add: extract_all_def)
next
  case (snoc x ms)
  obtain a' n' where x: "x = (a', n')" by fastforce
  with snoc assms(1) show ?case
    by (auto simp: extract_all_snoc fs_get_put)
qed

theorem tar_walk_roundtrip:
  assumes wf: "wf_fs t" and dest: "dest \<noteq> []"
  shows "fs_get (extract_all (tar_walk t out name arc) dest u) (dest @ arc @ q) =
           (if fs_get t (name @ q) \<noteq> None \<and> (\<forall>r. prefix r q \<longrightarrow> name @ r \<noteq> out)
            then fs_get t (name @ q) else fs_get u (dest @ arc @ q))"
proof -
  let ?ms = "tar_walk t out name arc"
  have mem: "(arc @ q, n) \<in> set ?ms \<longleftrightarrow>
               fs_get t (name @ q) = Some n \<and> (\<forall>r. prefix r q \<longrightarrow> name @ r \<noteq> out)" for n
    using tar_walk_members [OF wf, of "arc @ q" n out name arc] by auto
  show ?thesis
  proof (cases "fs_get t (name @ q) \<noteq> None \<and> (\<forall>r. prefix r q \<longrightarrow> name @ r \<noteq> out)")
    case True
    then obtain n where n: "fs_get t (name @ q) = Some n" by blast
    have "(arc @ q, n) \<in> set ?ms"
      using mem n True by blast
    moreover have "\<forall>n'. (arc @ q, n') \<in> set ?ms \<longrightarrow> n' = n"
      using mem n by simp
    ultimately have "fs_get (extract_all ?ms dest u) (dest @ arc @ q) = Some n"
      by (rule extract_all_member [OF dest])
    with True n show ?thesis by simp
  next
    case False
    have "\<forall>n. (arc @ q, n) \<notin> set ?ms"
      using mem False by auto
    then have "fs_get (extract_all ?ms dest u) (dest @ arc @ q) = fs_get u (dest @ arc @ q)"
      by (rule extract_all_other [OF dest])
    with False show ?thesis
      by (simp only: if_False)
  qed
qed

section \<open>The archive command\<close>

lemma make_tarfile_Inr:
  assumes "make_tarfile out src t = (Inr (), t')"
  shows "path_of_str out \<noteq> [] \<and> fs_get t (path_of_str out) \<noteq> Some Dir
         \<and> fs_get t (butlast (path_of_str out)) = Some Dir
         \<and> t' = fs_put (path_of_str out)
                  (File (Tgz (tar_walk (fs_put (path_of_str out) (File (Text '''')) t)
                                (path_of_str out) (path_of_str src) (path_of_str (basename src)))))
                  (fs_put (path_of_str out) (File (Text '''')) t)"
  using assms
  by (auto simp: make_tarfile_def tar_add_def Let_def os_write_Inr
           split: sum.splits if_splits)

lemma make_tarfile_wf:
  assumes "wf_fs t" and "make_tarfile out src t = (r, t')"
  shows "wf_fs t'"
proof -
  consider (w_fail) e where "os_write out (Text '''') t = Inl e"
    | (w_ok) t1 where "os_write out (Text '''') t = Inr t1"
    by (cases "os_write out (Text '''') t") auto
  then show ?thesis
  proof cases
    case w_fail
    then show ?thesis using assms by (simp add: make_tarfile_def)
  next
    case w_ok
    from assms(1) w_ok have wf1: "wf_fs t1" by (rule os_write_wf)
    from w_ok have o: "path_of_str out \<noteq> [] \<and> fs_get t (butlast (path_of_str out)) = Some Dir
                     \<and> fs_get t (path_of_str out) \<noteq> Some Dir
                     \<and> t1 = fs_put (path_of_str out) (File (Text '''')) t"
      by (simp add: os_write_Inr)
    then have "fs_get t1 (butlast (path_of_str out)) = Some Dir \<and> fs_get t1 (path_of_str out) \<noteq> Some Dir"
      by (auto simp: fs_get_put)
    then have "wf_fs (fs_put (path_of_str out) (File c) t1)" for c
      using wf1 o by (intro wf_fs_put) auto
    with w_ok wf1 assms(2) show ?thesis
      by (auto simp: make_tarfile_def split: sum.splits)
  qed
qed

lemma strict_prefix_append_cases:
  "prefix r q \<Longrightarrow> r \<noteq> q \<Longrightarrow> strict_prefix (s @ r) (s @ q)"
  by (simp add: strict_prefix_def)

lemma make_tarfile_extract:
  assumes wf: "wf_fs t" and ok: "make_tarfile out src t = (Inr (), t')" and dest: "dest \<noteq> []"
  shows "\<exists>ms. fs_get t' (path_of_str out) = Some (File (Tgz ms))
           \<and> (\<forall>q. fs_get (extract_all ms dest u) (dest @ path_of_str (basename src) @ q) =
                  (if path_of_str src @ q \<noteq> path_of_str out \<and> fs_get t (path_of_str src @ q) \<noteq> None
                   then fs_get t (path_of_str src @ q)
                   else fs_get u (dest @ path_of_str (basename src) @ q)))"
proof -
  let ?O = "path_of_str out" and ?S = "path_of_str src" and ?A = "path_of_str (basename src)"
  let ?t1 = "fs_put ?O (File (Text '''')) t"
  let ?ms = "tar_walk ?t1 ?O ?S ?A"
  from make_tarfile_Inr [OF ok]
  have O: "?O \<noteq> []" and nd: "fs_get t ?O \<noteq> Some Dir"
    and par: "fs_get t (butlast ?O) = Some Dir" and t': "t' = fs_put ?O (File (Tgz ?ms)) ?t1"
    by auto
  have wf1: "wf_fs ?t1"
    using wf O par nd by (intro wf_fs_put) auto
  have get1: "fs_get ?t1 p = (if p = ?O then Some (File (Text '''')) else fs_get t p)" for p
    using O by (simp add: fs_get_put)
  have cond: "(fs_get ?t1 (?S @ q) \<noteq> None \<and> (\<forall>r. prefix r q \<longrightarrow> ?S @ r \<noteq> ?O))
              \<longleftrightarrow> (?S @ q \<noteq> ?O \<and> fs_get t (?S @ q) \<noteq> None)" for q
  proof
    assume "fs_get ?t1 (?S @ q) \<noteq> None \<and> (\<forall>r. prefix r q \<longrightarrow> ?S @ r \<noteq> ?O)"
    then show "?S @ q \<noteq> ?O \<and> fs_get t (?S @ q) \<noteq> None"
      by (auto simp: get1)
  next
    assume a: "?S @ q \<noteq> ?O \<and> fs_get t (?S @ q) \<noteq> None"
    have "?S @ r \<noteq> ?O" if "prefix r q" for r
    proof
      assume eq: "?S @ r = ?O"
      with a that have "strict_prefix ?O (?S @ q)"
        by (metis strict_prefix_append_cases)
      then have "fs_get t ?O = Some Dir"
        using wf a wf_fs_prefix_dir by blast
      with nd show False by simp
    qed
    with a show "fs_get ?t1 (?S @ q) \<noteq> None \<and> (\<forall>r. prefix r q \<longrightarrow> ?S @ r \<noteq> ?O)"
      by (simp add: get1)
  qed
  have "\<forall>q. fs_get (extract_all ?ms dest u) (dest @ ?A @ q) =
              (if ?S @ q \<noteq> ?O \<and> fs_get t (?S @ q) \<noteq> None
               then fs_get t (?S @ q) else fs_get u (dest @ ?A @ q))"
  proof
    fix q
    show "fs_get (extract_all ?ms dest u) (dest @ ?A @ q) =
              (if ?S @ q \<noteq> ?O \<and> fs_get t (?S @ q) \<noteq> None
               then fs_get t (?S @ q) else fs_get u (dest @ ?A @ q))"
      using tar_walk_roundtrip [OF wf1 dest, of ?O ?S ?A u q] cond [of q]
      by (simp add: get1)
  qed
  moreover have "fs_get t' ?O = Some (File (Tgz ?ms))"
    using O by (simp add: t' fs_get_put)
  ultimately show ?thesis by blast
qed

lemma make_tarfile_ok:
  assumes "path_of_str out \<noteq> []" and "fs_get t (butlast (path_of_str out)) = Some Dir"
    and "fs_get t (path_of_str out) \<noteq> Some Dir"
    and "path_of_str src \<noteq> path_of_str out" and "fs_get t (path_of_str src) \<noteq> None"
  shows "make_tarfile out src t =
           (Inr (), fs_put (path_of_str out)
              (File (Tgz (tar_walk (fs_put (path_of_str out) (File (Text '''')) t)
                            (path_of_str out) (path_of_str src) (path_of_str (basename src)))))
              (fs_put (path_of_str out) (File (Text '''')) t))"
  using assms by (simp add: make_tarfile_def os_write_def tar_add_def Let_def fs_get_put)

text \<open>
  C4: when \<open>make_tarfile\<close> succeeds, the
  archive file holds members whose extraction into a fresh directory
  reproduces, under the arcname, every path of the source tree with its
  content (the archive file itself excepted, which tarfile skips), and nothing
  else.
\<close>

theorem make_tarfile_roundtrip:
  assumes wf: "wf_fs t" and ok: "make_tarfile out src t = (Inr (), t')" and dest: "dest \<noteq> []"
    and fresh: "\<forall>q. fs_get u (dest @ path_of_str (basename src) @ q) = None"
  shows "\<exists>ms. fs_get t' (path_of_str out) = Some (File (Tgz ms))
           \<and> (\<forall>q. fs_get (extract_all ms dest u) (dest @ path_of_str (basename src) @ q) =
                  (if path_of_str src @ q = path_of_str out then None
                   else fs_get t (path_of_str src @ q)))"
proof -
  obtain ms where arch: "fs_get t' (path_of_str out) = Some (File (Tgz ms))"
    and ex: "\<forall>q. fs_get (extract_all ms dest u) (dest @ path_of_str (basename src) @ q) =
                  (if path_of_str src @ q \<noteq> path_of_str out \<and> fs_get t (path_of_str src @ q) \<noteq> None
                   then fs_get t (path_of_str src @ q)
                   else fs_get u (dest @ path_of_str (basename src) @ q))"
    using make_tarfile_extract [OF wf ok dest] by blast
  have "\<forall>q. fs_get (extract_all ms dest u) (dest @ path_of_str (basename src) @ q) =
                  (if path_of_str src @ q = path_of_str out then None
                   else fs_get t (path_of_str src @ q))"
    using ex fresh by auto
  with arch show ?thesis by blast
qed

theorem make_tarfile_roundtrip_witness:
  "wf_fs example_fs
   \<and> make_tarfile ''ws.ctw.tgz'' ''ws'' example_fs
       = (Inr (), snd (make_tarfile ''ws.ctw.tgz'' ''ws'' example_fs))
   \<and> (\<exists>ms. fs_get (snd (make_tarfile ''ws.ctw.tgz'' ''ws'' example_fs)) [''ws.ctw.tgz'']
            = Some (File (Tgz ms))
          \<and> fs_get (extract_all ms [''restore''] []) [''restore'', ''ws'', ''xys.tab'']
            = Some (File (Text ''c1'')))"
proof -
  have h1: "wf_fs example_fs"
    by (simp add: wf_fs_def example_fs_def fs_get_def)
  have h2: "make_tarfile ''ws.ctw.tgz'' ''ws'' example_fs
              = (Inr (), snd (make_tarfile ''ws.ctw.tgz'' ''ws'' example_fs))"
    by (simp add: make_tarfile_def os_write_def tar_add_def example_fs_def fs_get_def
                  path_of_str_def component_ok_def basename_def fs_put_def Let_def)
  have h3: "[''restore''] \<noteq> []" by simp
  have h4: "\<forall>q. fs_get [] ([''restore''] @ path_of_str (basename ''ws'') @ q) = None"
    by (simp add: fs_get_def)
  have p: "path_of_str ''ws.ctw.tgz'' = [''ws.ctw.tgz'']" "path_of_str ''ws'' = [''ws'']"
    "path_of_str (basename ''ws'') = [''ws'']"
    by (simp_all add: path_of_str_def component_ok_def basename_def)
  have "fs_get example_fs [''ws'', ''xys.tab''] = Some (File (Text ''c1''))"
    by (simp add: example_fs_def fs_get_def)
  then show ?thesis
    using make_tarfile_roundtrip [OF h1 h2 h3 h4] h1 h2 p by force
qed

lemma make_tarfile_frame:
  assumes "make_tarfile out src t = (r, t')" and q: "q \<noteq> path_of_str out"
  shows "fs_get t' q = fs_get t q"
proof (cases "os_write out (Text []) t")
  case (Inl e)
  then show ?thesis using assms(1) by (simp add: make_tarfile_def)
next
  case (Inr t1)
  then have po: "path_of_str out \<noteq> []" and t1: "fs_get t1 q = fs_get t q"
    using os_write_frame [OF Inr q] by (simp_all add: os_write_Inr)
  show ?thesis
  proof (cases "tar_add t1 (path_of_str out) src (path_of_str (basename src))")
    case (Inl e)
    then show ?thesis using assms(1) Inr t1 by (simp add: make_tarfile_def)
  next
    case (Inr ms)
    then have "t' = fs_put (path_of_str out) (File (Tgz ms)) t1"
      using assms(1) \<open>os_write out (Text []) t = Inr t1\<close> by (simp add: make_tarfile_def)
    then show ?thesis using t1 po q by (simp add: fs_get_put)
  qed
qed

section \<open>Walk order and determinism\<close>

lemma children_keys:
  assumes k: "fst ` set t = fst ` set t'"
  shows "children t d = children t' d"
proof -
  let ?f = "\<lambda>ks. map last (filter (\<lambda>p. p \<noteq> [] \<and> butlast p = d) ks)"
  have "set (?f (map fst t)) = set (?f (map fst t'))"
    using k by auto
  then have "sorted_list_of_set (set (?f (map fst t))) = sorted_list_of_set (set (?f (map fst t')))"
    by (rule arg_cong)
  then show ?thesis
    by (simp only: children_def sorted_list_of_set_sort_remdups)
qed

lemma wf_fs_keys: "wf_fs t \<Longrightarrow> fst ` set t = {p. p \<noteq> [] \<and> fs_get t p \<noteq> None}"
proof
  assume wf: "wf_fs t"
  show "fst ` set t \<subseteq> {p. p \<noteq> [] \<and> fs_get t p \<noteq> None}"
  proof
    fix p
    assume p: "p \<in> fst ` set t"
    then have "p \<noteq> []"
      using wf by (auto simp: wf_fs_def)
    moreover have "map_of t p \<noteq> None"
      using p by (simp add: map_of_eq_None_iff)
    ultimately show "p \<in> {p. p \<noteq> [] \<and> fs_get t p \<noteq> None}"
      by (simp add: fs_get_def)
  qed
  show "{p. p \<noteq> [] \<and> fs_get t p \<noteq> None} \<subseteq> fst ` set t"
    using fs_get_key by blast
qed

lemma tar_walk_same_tree:
  "fs_get t = fs_get t' \<Longrightarrow> fst ` set t = fst ` set t' \<Longrightarrow>
   tar_walk t out name arc = tar_walk t' out name arc"
proof (induction t out name arc rule: tar_walk.induct)
  case (1 t out name arc)
  have ch: "children t name = children t' name"
    using "1.prems"(2) by (rule children_keys)
  show ?case
  proof (cases "name = out")
    case True
    then show ?thesis by (simp add: tar_walk.simps)
  next
    case False
    show ?thesis
    proof (cases "fs_get t name")
      case None
      then show ?thesis
        using False "1.prems"(1) by (simp add: tar_walk.simps [of t] tar_walk.simps [of t'])
    next
      case (Some nd)
      show ?thesis
      proof (cases nd)
        case (File c)
        then show ?thesis
          using False Some "1.prems"(1) by (simp add: tar_walk.simps [of t] tar_walk.simps [of t'])
      next
        case Dir
        have "map (\<lambda>f. tar_walk t out (name @ [f]) (arc @ [f])) (children t name) =
              map (\<lambda>f. tar_walk t' out (name @ [f]) (arc @ [f])) (children t' name)"
          unfolding ch [symmetric]
          using "1.IH" [OF False, of Dir] Some Dir "1.prems" by (simp add: ch)
        then show ?thesis
          using False Some Dir "1.prems"(1) by (simp add: tar_walk.simps [of t] tar_walk.simps [of t'])
      qed
    qed
  qed
qed


lemma tar_walk_arc_prefix:
  "x \<in> set (tar_walk t out name arc) \<Longrightarrow> prefix arc (fst x)"
proof (induction t out name arc arbitrary: x rule: tar_walk.induct)
  case (1 t out name arc)
  show ?case
  proof (cases "name \<noteq> out \<and> fs_get t name = Some Dir")
    case True
    then have "x = (arc, Dir) \<or> (\<exists>f \<in> set (children t name). x \<in> set (tar_walk t out (name @ [f]) (arc @ [f])))"
      using "1.prems" by (auto simp: tar_walk.simps [of t out name arc])
    then show ?thesis
    proof
      assume "\<exists>f \<in> set (children t name). x \<in> set (tar_walk t out (name @ [f]) (arc @ [f]))"
      then obtain f where f: "f \<in> set (children t name)" and x: "x \<in> set (tar_walk t out (name @ [f]) (arc @ [f]))"
        by blast
      then have "prefix (arc @ [f]) (fst x)"
        using "1.IH" [of Dir f x] True by blast
      then show ?thesis
        by (metis prefix_order.trans prefixI)
    qed simp
  next
    case False
    have "fst x = arc"
    proof (cases "fs_get t name")
      case (Some nd)
      with False "1.prems" show ?thesis
        by (cases nd) (auto simp: tar_walk.simps [of t out _ arc] split: if_splits)
    qed (use "1.prems" in \<open>simp add: tar_walk.simps [of t out name arc] split: if_splits\<close>)
    then show ?thesis
      by simp
  qed
qed

lemma lexord_fork:
  "f < g \<Longrightarrow> arc @ f # u < arc @ g # v"
  for f g :: "'a::linorder"
  unfolding list_less_def by (rule lexord_append_leftI) simp

lemma sorted_concat_blocks:
  fixes ns :: "'a::linorder list"
  assumes "sorted_wrt (<) ns"
    and "\<forall>f \<in> set ns. sorted_wrt (<) (map fst (B f)) \<and> (\<forall>x \<in> set (B f). prefix (arc @ [f]) (fst x))"
  shows "sorted_wrt (<) (map fst (concat (map B ns)))"
  using assms
proof (induction ns)
  case Nil
  then show ?case by simp
next
  case (Cons f ns)
  have later: "a < b" if a: "a \<in> fst ` set (B f)" and b: "b \<in> fst ` set (concat (map B ns))" for a b
  proof -
    obtain g where g: "g \<in> set ns" and bg: "b \<in> fst ` set (B g)"
      using b by auto
    have "f < g"
      using Cons.prems(1) g by simp
    moreover have "prefix (arc @ [f]) a"
      using a Cons.prems(2) by auto
    then obtain u where "a = arc @ [f] @ u"
      by (auto simp: prefix_def)
    moreover have "prefix (arc @ [g]) b"
      using bg g Cons.prems(2) by auto
    then obtain v where "b = arc @ [g] @ v"
      by (auto simp: prefix_def)
    ultimately show ?thesis
      by (simp add: lexord_fork)
  qed
  show ?case
    using Cons later by (auto simp: sorted_wrt_append)
qed
lemma children_strict_sorted: "sorted_wrt (<) (children t d)"
  by (simp add: children_def strict_sorted_iff)

lemma lexord_extend: "arc < arc @ f # u"
  for arc :: "'a::linorder list"
  unfolding list_less_def by (rule lexord_append_rightI) simp

lemma tar_walk_sorted:
  "sorted_wrt (<) (map fst (tar_walk t out name arc))"
proof (induction t out name arc rule: tar_walk.induct)
  case (1 t out name arc)
  show ?case
  proof (cases "name \<noteq> out \<and> fs_get t name = Some Dir")
    case True
    let ?B = "\<lambda>f. tar_walk t out (name @ [f]) (arc @ [f])"
    have blocks: "\<forall>f \<in> set (children t name). sorted_wrt (<) (map fst (?B f))
                    \<and> (\<forall>x \<in> set (?B f). prefix (arc @ [f]) (fst x))"
      using "1.IH" [of Dir] True tar_walk_arc_prefix by blast
    have rest: "sorted_wrt (<) (map fst (concat (map ?B (children t name))))"
      using children_strict_sorted blocks by (rule sorted_concat_blocks)
    have "arc < a" if a: "a \<in> fst ` set (concat (map ?B (children t name)))" for a
    proof -
      obtain f where "f \<in> set (children t name)" and "a \<in> fst ` set (?B f)"
        using a by auto
      then obtain u where "a = arc @ f # u"
        using blocks by (auto simp: prefix_def)
      then show ?thesis
        by (simp add: lexord_extend)
    qed
    then show ?thesis
      using True rest by (simp add: tar_walk.simps [of t out name arc])
  next
    case False
    have "length (tar_walk t out name arc) \<le> 1"
    proof (cases "fs_get t name")
      case (Some nd)
      with False show ?thesis
        by (cases nd) (auto simp: tar_walk.simps [of t out _ arc])
    qed (simp add: tar_walk.simps [of t out name arc])
    then show ?thesis
      by (cases "tar_walk t out name arc") auto
  qed
qed
lemma tar_walk_length:
  assumes wf: "wf_fs t"
  shows "length (tar_walk t out name arc) \<le> Suc (length t)"
proof -
  let ?ms = "tar_walk t out name arc"
  let ?M = "set (map fst ?ms)"
  let ?g = "\<lambda>a. name @ drop (length arc) a"
  have dist: "distinct (map fst ?ms)"
    using tar_walk_sorted [of t out name arc] by (simp add: strict_sorted_iff)
  have arc: "a = arc @ drop (length arc) a" if "a \<in> ?M" for a
    using that tar_walk_arc_prefix by (fastforce simp: prefix_def)
  have "inj_on ?g ?M"
  proof (rule inj_onI)
    fix a b
    assume a: "a \<in> ?M" and b: "b \<in> ?M" and eq: "?g a = ?g b"
    from eq have "drop (length arc) a = drop (length arc) b"
      by simp
    then show "a = b"
      using arc [OF a] arc [OF b] by metis
  qed
  moreover have "?g ` ?M \<subseteq> insert [] (fst ` set t)"
  proof
    fix p
    assume "p \<in> ?g ` ?M"
    then obtain a nd where a: "(a, nd) \<in> set ?ms" and p: "p = ?g a"
      by auto
    then obtain q where "a = arc @ q" and get: "fs_get t (name @ q) = Some nd"
      using tar_walk_members [OF wf] by blast
    then have "fs_get t p \<noteq> None"
      using p by simp
    then show "p \<in> insert [] (fst ` set t)"
      using fs_get_key by blast
  qed
  ultimately have "card ?M \<le> card (insert [] (fst ` set t))"
    by (metis card_image card_mono finite_insert finite_imageI finite_set)
  also have "\<dots> \<le> Suc (card (fst ` set t))"
    by (simp add: card_insert_if)
  also have "\<dots> \<le> Suc (length t)"
    using card_image_le [of "set t" fst] card_length [of t] by simp
  finally show ?thesis
    using distinct_card [OF dist] by simp
qed
section \<open>Layout of the archive\<close>

text \<open>
  C11: the members \<open>tar.add\<close> writes depend only
  on the directory tree, not on how it is stored: two well-formed file systems
  with the same entries give the same member list (the specification's
  deterministic content layout).
\<close>

theorem tar_walk_deterministic:
  assumes wf: "wf_fs t" and wf': "wf_fs t'" and same: "\<forall>p. fs_get t p = fs_get t' p"
  shows "tar_walk t out name arc = tar_walk t' out name arc"
proof (rule tar_walk_same_tree)
  show "fs_get t = fs_get t'"
    using same by blast
  then show "fst ` set t = fst ` set t'"
    using wf_fs_keys [OF wf] wf_fs_keys [OF wf'] by simp
qed

theorem tar_walk_deterministic_witness:
  "tar_walk example_fs [''ws.ctw.tgz''] [''ws''] [''ws''] =
   tar_walk (rev example_fs) [''ws.ctw.tgz''] [''ws''] [''ws'']"
proof (rule tar_walk_deterministic)
  show "wf_fs example_fs" "wf_fs (rev example_fs)"
    by (simp_all add: wf_fs_def example_fs_def fs_get_def)
  show "\<forall>p. fs_get example_fs p = fs_get (rev example_fs) p"
    by (simp add: fs_get_def example_fs_def)
qed

text \<open>
  C12: the members of the walk are listed in strictly
  increasing path order (a directory before its contents, siblings in sorted
  order), so each path occurs once, and there is at most one member per entry
  of the file system, plus one for the root.
\<close>

theorem tar_walk_layout:
  assumes "wf_fs t"
  shows "sorted_wrt (<) (map fst (tar_walk t out name arc)) \<and> length (tar_walk t out name arc) \<le> Suc (length t)"
  using tar_walk_sorted tar_walk_length [OF assms] by blast

theorem tar_walk_layout_witness:
  "sorted_wrt (<) (map fst (tar_walk example_fs [''ws.ctw.tgz''] [''ws''] [''ws'']))
   \<and> length (tar_walk example_fs [''ws.ctw.tgz''] [''ws''] [''ws'']) \<le> Suc (length example_fs)"
proof -
  have "wf_fs example_fs"
    by (simp add: wf_fs_def example_fs_def fs_get_def)
  then show ?thesis
    by (rule tar_walk_layout)
qed

lemma make_tarfile_Inr_slot:
  "make_tarfile out src t = (Inr (), t') \<Longrightarrow> fs_get t (path_of_str out) \<noteq> Some Dir"
  by (auto simp: make_tarfile_def os_write_Inr split: sum.splits)

end
