(* ===== verification/Worksheet.thy ===== *)
theory Worksheet
  imports File_System Markers
begin

text \<open>
  The Worksheet Writer of \<open>ctwpy.io\<close>: \<open>make_dir_or_complain\<close>,
  \<open>write_all_worksheet\<close> and \<open>delete_dir\<close>, called by \<open>from_scanpy\<close>
  (\<open>cli.py\<close> lines 43, 44 and 48).  The module is not part of the sources;
  the definitions follow the specification (section 4.3): the staging
  directory must not exist yet (\<open>DirectoryExistsError\<close>), and one
  tab-separated file is written per data product, in the keyword order of the
  call, each through \<open>open(os.path.join(dirname, name), 'w')\<close>.  A failed write
  aborts the rest and leaves the files already written.  The table layouts
  (a header row, then one row per record) are this model's documented schema.
\<close>

section \<open>Table layouts\<close>

definition xys_table :: "xys \<Rightarrow> cell list list" where
  "xys_table xy = [S '''', S ''x'', S ''y''] # map (\<lambda>(c, x, y). [S c, R x, R y]) xy"

definition exp_table :: "expression \<Rightarrow> cell list list" where
  "exp_table e = (case e of (cells, genes, m) \<Rightarrow>
     (S '''' # map S genes) # map (\<lambda>(c, row). S c # map R row) (zip cells m))"

definition clustering_table :: "clustering \<Rightarrow> cell list list" where
  "clustering_table cl = [S '''', S ''cluster''] # map (\<lambda>(c, l). [S c, S l]) cl"

definition markers_table :: "marker_row list \<Rightarrow> cell list list" where
  "markers_table ms = [S ''gene'', S ''cluster'', S ''score''] # map (\<lambda>(g, c, s). [S g, S c, R s]) ms"

definition celltype_table :: "celltype_map \<Rightarrow> cell list list" where
  "celltype_table mp = [S ''cluster'', S ''celltype''] # map (\<lambda>(c, t). [S c, S t]) mp"

text \<open>The five products with their file names, in the order they are written.\<close>

definition worksheet_tables ::
  "xys \<Rightarrow> expression \<Rightarrow> clustering \<Rightarrow> marker_row list \<Rightarrow> celltype_map \<Rightarrow> (string \<times> content) list" where
  "worksheet_tables xy e cl ms mp =
     [(''xys.tab'', Tsv (xys_table xy)),
      (''exp.tab'', Tsv (exp_table e)),
      (''clustering.tab'', Tsv (clustering_table cl)),
      (''markers.tab'', Tsv (markers_table ms)),
      (''celltype.tab'', Tsv (celltype_table mp))]"

section \<open>The writer\<close>

fun write_files :: "(string \<times> content) list \<Rightarrow> fs \<Rightarrow> (error + unit) \<times> fs" where
  "write_files [] t = (Inr (), t)"
| "write_files ((name, c) # rest) t =
     (case os_write name c t of
        Inl e \<Rightarrow> (Inl e, t)
      | Inr t' \<Rightarrow> write_files rest t')"

definition make_dir_or_complain :: "string \<Rightarrow> fs \<Rightarrow> error + fs" where
  "make_dir_or_complain dirname t =
     (if fs_get t (path_of_str dirname) \<noteq> None then Inl (DirectoryExistsError dirname)
      else os_mkdir dirname t)"

definition write_all_worksheet ::
  "string \<Rightarrow> xys \<Rightarrow> expression \<Rightarrow> clustering \<Rightarrow> marker_row list \<Rightarrow> celltype_map
   \<Rightarrow> fs \<Rightarrow> (error + unit) \<times> fs" where
  "write_all_worksheet dirname xy e cl ms mp t =
     write_files (map (\<lambda>(b, c). (path_join dirname b, c)) (worksheet_tables xy e cl ms mp)) t"

definition delete_dir :: "string \<Rightarrow> fs \<Rightarrow> error + fs" where
  "delete_dir dirname t = rmtree dirname t"

section \<open>Writing files side by side\<close>

definition put_files :: "(path \<times> content) list \<Rightarrow> fs \<Rightarrow> fs" where
  "put_files L t = foldl (\<lambda>u (p, c). fs_put p (File c) u) t L"

lemma fs_get_put_files:
  assumes "\<forall>(p, c) \<in> set L. p \<noteq> []" and "distinct (map fst L)"
  shows "fs_get (put_files L t) k = (case map_of L k of Some c \<Rightarrow> Some (File c) | None \<Rightarrow> fs_get t k)"
  using assms
proof (induction L arbitrary: t rule: rev_induct)
  case Nil
  then show ?case by (simp add: put_files_def)
next
  case (snoc x L)
  obtain p c where x: "x = (p, c)" by fastforce
  have "p \<notin> fst ` set L"
    using snoc.prems(2) x by auto
  then have "map_of L p = None"
    by (simp add: map_of_eq_None_iff)
  with snoc x show ?case
    by (auto simp: put_files_def fs_get_put map_add_def split: option.split)
qed

lemma write_files_siblings:
  assumes "wf_fs t" and "fs_get t D = Some Dir"
    and "\<forall>(n, c) \<in> set L. \<exists>b. path_of_str n = D @ [b] \<and> fs_get t (D @ [b]) \<noteq> Some Dir"
  shows "write_files L t = (Inr (), put_files (map (\<lambda>(n, c). (path_of_str n, c)) L) t)
         \<and> wf_fs (put_files (map (\<lambda>(n, c). (path_of_str n, c)) L) t)"
  using assms
proof (induction L arbitrary: t)
  case Nil
  then show ?case by (simp add: put_files_def)
next
  case (Cons x L)
  obtain n c where x: "x = (n, c)" by fastforce
  from Cons.prems(3) x obtain b where nb: "path_of_str n = D @ [b]"
    and nd: "fs_get t (D @ [b]) \<noteq> Some Dir" by auto
  have w: "os_write n c t = Inr (fs_put (D @ [b]) (File c) t)"
    using Cons.prems(2) nb nd by (simp add: os_write_Inr)
  let ?t' = "fs_put (D @ [b]) (File c) t"
  have wf': "wf_fs ?t'"
    using Cons.prems(1) w by (rule os_write_wf)
  have D': "fs_get ?t' D = Some Dir"
    using Cons.prems(2) by (simp add: fs_get_put)
  have rest: "\<forall>(n, c) \<in> set L. \<exists>b. path_of_str n = D @ [b] \<and> fs_get ?t' (D @ [b]) \<noteq> Some Dir"
    using Cons.prems(3) by (auto simp: fs_get_put)
  show ?case
    using Cons.IH [OF wf' D' rest] w x nb by (simp add: put_files_def)
qed

lemma worksheet_names:
  "map fst (worksheet_tables xy e cl ms mp) =
     [''xys.tab'', ''exp.tab'', ''clustering.tab'', ''markers.tab'', ''celltype.tab'']"
  by (simp add: worksheet_tables_def)

lemma worksheet_tables_lookup:
  "(b, c) \<in> set (worksheet_tables xy e cl ms mp) \<Longrightarrow> map_of (worksheet_tables xy e cl ms mp) b = Some c"
  by (rule map_of_is_SomeI) (simp_all add: worksheet_names)

lemma path_of_str_worksheet_file:
  "b \<in> fst ` set (worksheet_tables xy e cl ms mp) \<Longrightarrow>
   path_of_str (path_join d b) = path_of_str d @ [b]"
  by (auto simp: worksheet_tables_def component_ok_def intro!: path_of_str_join)

lemma write_all_worksheet_put:
  assumes wf: "wf_fs t" and dir: "fs_get t (path_of_str d) = Some Dir"
    and free: "\<forall>b \<in> fst ` set (worksheet_tables xy e cl ms mp). fs_get t (path_of_str d @ [b]) \<noteq> Some Dir"
  shows "write_all_worksheet d xy e cl ms mp t =
           (Inr (), put_files (map (\<lambda>(b, c). (path_of_str d @ [b], c)) (worksheet_tables xy e cl ms mp)) t)
         \<and> wf_fs (put_files (map (\<lambda>(b, c). (path_of_str d @ [b], c)) (worksheet_tables xy e cl ms mp)) t)"
proof -
  let ?T = "worksheet_tables xy e cl ms mp"
  let ?D = "path_of_str d"
  let ?L = "map (\<lambda>(b, c). (path_join d b, c)) ?T"
  let ?P = "map (\<lambda>(b, c). (?D @ [b], c)) ?T"
  have names: "map (\<lambda>(n, c). (path_of_str n, c)) ?L = ?P"
    by (simp add: worksheet_tables_def path_of_str_join component_ok_def)
  have sib: "\<forall>(n, c) \<in> set ?L. \<exists>b. path_of_str n = ?D @ [b] \<and> fs_get t (?D @ [b]) \<noteq> Some Dir"
    using free by (simp add: worksheet_tables_def path_of_str_join component_ok_def)
  have "write_files ?L t = (Inr (), put_files (map (\<lambda>(n, c). (path_of_str n, c)) ?L) t)
        \<and> wf_fs (put_files (map (\<lambda>(n, c). (path_of_str n, c)) ?L) t)"
    by (rule write_files_siblings [OF wf dir sib])
  then show ?thesis
    by (simp only: names write_all_worksheet_def)
qed

lemma fs_get_worksheet_files:
  "fs_get (put_files (map (\<lambda>(b, c). (D @ [b], c)) (worksheet_tables xy e cl ms mp)) t) k =
     (case map_of (map (\<lambda>(b, c). (D @ [b], c)) (worksheet_tables xy e cl ms mp)) k of
        Some c \<Rightarrow> Some (File c) | None \<Rightarrow> fs_get t k)"
  by (rule fs_get_put_files) (auto simp: worksheet_tables_def)

text \<open>
  In an existing staging directory whose
  five file names are not directories, the writer succeeds, keeps the file
  system well formed, leaves each product's table under its name, and changes
  no other path.
\<close>

lemma write_files_frame:
  "write_files L t = (r, t') \<Longrightarrow> q \<notin> path_of_str ` fst ` set L \<Longrightarrow> fs_get t' q = fs_get t q"
proof (induction L t rule: write_files.induct)
  case (1 t)
  then show ?case by simp
next
  case (2 name c rest t)
  then show ?case
    by (auto split: sum.splits dest: os_write_frame)
qed

lemma write_files_wf:
  "wf_fs t \<Longrightarrow> write_files L t = (r, t') \<Longrightarrow> wf_fs t'"
  by (induction L t rule: write_files.induct) (auto split: sum.splits dest: os_write_wf)

lemma make_dir_or_complain_Inr:
  "make_dir_or_complain n t = Inr t1 \<Longrightarrow>
   fs_get t (path_of_str n) = None \<and> fs_get t (butlast (path_of_str n)) = Some Dir"
  by (auto simp: make_dir_or_complain_def os_mkdir_Inr split: if_splits)

end
