(* ===== verification/Py_Repr.thy ===== *)
theory Py_Repr
  imports Ctw_Base
begin

text \<open>
  What \<open>print(ad.obs_keys())\<close> (line 69 of \<open>src/ctwpy/cli.py\<close>) writes: the
  \<open>str\<close> of a Python list of strings, \<open>'[' + ', '.join(map(repr, keys)) + ']'\<close>,
  with CPython's \<open>repr\<close> of a string (\<open>unicode_repr\<close>) over the code points
  0--255 that an Isabelle \<open>char\<close> holds: single quotes unless the string
  contains a single quote and no double quote; the quote and the backslash
  escaped with a backslash; tab, newline and carriage return as \<open>\\t\<close>,
  \<open>\\n\<close>, \<open>\\r\<close>; the other non-printable characters (below 32, 127 to
  160, and 173) as \<open>\\x\<close> with two lower-case hex digits.  A reader of this
  output (\<open>py_literal_list\<close>, the subset of \<open>ast.literal_eval\<close> the output
  uses) recovers the keys.
\<close>

section \<open>The printer\<close>

abbreviation py_tab :: char where "py_tab \<equiv> CHR 0x09"
abbreviation py_nl :: char where "py_nl \<equiv> CHR 0x0A"
abbreviation py_cr :: char where "py_cr \<equiv> CHR 0x0D"
abbreviation py_dq :: char where "py_dq \<equiv> CHR 0x22"
abbreviation py_sq :: char where "py_sq \<equiv> CHR 0x27"
abbreviation py_bs :: char where "py_bs \<equiv> CHR 0x5C"

definition py_hex_digit :: "nat \<Rightarrow> char" where
  "py_hex_digit n = (if n < 10 then char_of (48 + n) else char_of (87 + n))"

definition py_printable :: "char \<Rightarrow> bool" where
  "py_printable c \<longleftrightarrow> (let n = of_char c :: nat in (32 \<le> n \<and> n < 127) \<or> (161 \<le> n \<and> n \<noteq> 173))"

definition py_escape :: "char \<Rightarrow> char \<Rightarrow> string" where
  "py_escape q c =
     (if c = q \<or> c = py_bs then [py_bs, c]
      else if c = py_tab then [py_bs, CHR ''t'']
      else if c = py_nl then [py_bs, CHR ''n'']
      else if c = py_cr then [py_bs, CHR ''r'']
      else if py_printable c then [c]
      else [py_bs, CHR ''x'', py_hex_digit (of_char c div 16), py_hex_digit (of_char c mod 16)])"

definition py_str_repr :: "string \<Rightarrow> string" where
  "py_str_repr s =
     (let q = (if py_sq \<in> set s \<and> py_dq \<notin> set s then py_dq else py_sq)
      in q # concat (map (py_escape q) s) @ [q])"

fun py_join :: "string \<Rightarrow> string list \<Rightarrow> string" where
  "py_join sep (x # y # xs) = x @ sep @ py_join sep (y # xs)"
| "py_join sep [x] = x"
| "py_join sep [] = []"

definition py_list_repr :: "string list \<Rightarrow> string" where
  "py_list_repr ks = ''['' @ py_join '', '' (map py_str_repr ks) @ '']''"

section \<open>Reading the printed list back\<close>

definition py_hex_value :: "char \<Rightarrow> nat option" where
  "py_hex_value c =
     (let n = of_char c :: nat in
      if 48 \<le> n \<and> n \<le> 57 then Some (n - 48)
      else if 97 \<le> n \<and> n \<le> 102 then Some (n - 87)
      else if 65 \<le> n \<and> n \<le> 70 then Some (n - 55)
      else None)"

datatype lit_state = L_start | L_elem | L_in char | L_esc char | L_after

fun lit_dec :: "lit_state \<Rightarrow> string \<Rightarrow> string list \<Rightarrow> string \<Rightarrow> string list option" where
  "lit_dec st cur acc [] = None"
| "lit_dec L_start cur acc (c # cs) =
     (if c = CHR ''['' then (if cs = '']'' then Some [] else lit_dec L_elem [] [] cs) else None)"
| "lit_dec L_elem cur acc (c # cs) =
     (if c = py_sq \<or> c = py_dq then lit_dec (L_in c) [] acc cs else None)"
| "lit_dec (L_in q) cur acc (c # cs) =
     (if c = q then lit_dec L_after [] (acc @ [cur]) cs
      else if c = py_bs then lit_dec (L_esc q) cur acc cs
      else lit_dec (L_in q) (cur @ [c]) acc cs)"
| "lit_dec (L_esc q) cur acc (c # cs) =
     (if c = CHR ''t'' then lit_dec (L_in q) (cur @ [py_tab]) acc cs
      else if c = CHR ''n'' then lit_dec (L_in q) (cur @ [py_nl]) acc cs
      else if c = CHR ''r'' then lit_dec (L_in q) (cur @ [py_cr]) acc cs
      else if c = py_bs \<or> c = py_sq \<or> c = py_dq then lit_dec (L_in q) (cur @ [c]) acc cs
      else if c = CHR ''x'' then
        (case cs of
           h1 # h2 # cs' \<Rightarrow>
             (case (py_hex_value h1, py_hex_value h2) of
                (Some a, Some b) \<Rightarrow> lit_dec (L_in q) (cur @ [char_of (16 * a + b)]) acc cs'
              | _ \<Rightarrow> None)
         | _ \<Rightarrow> None)
      else None)"
| "lit_dec L_after cur acc (c # cs) =
     (if c = CHR '']'' then (if cs = [] then Some acc else None)
      else if c = CHR '','' then
        (case cs of d # cs' \<Rightarrow> if d = CHR '' '' then lit_dec L_elem [] acc cs' else None | [] \<Rightarrow> None)
      else None)"

definition py_literal_list :: "string \<Rightarrow> string list option" where
  "py_literal_list s = lit_dec L_start [] [] s"

section \<open>Round trip\<close>

lemma py_hex_roundtrip: "n < 16 \<Longrightarrow> py_hex_value (py_hex_digit n) = Some n"
  by (auto simp: py_hex_digit_def py_hex_value_def)

lemma lit_dec_body:
  assumes "q = py_sq \<or> q = py_dq"
  shows "lit_dec (L_in q) cur acc (concat (map (py_escape q) s) @ q # rest)
         = lit_dec L_after [] (acc @ [cur @ s]) rest"
proof (induction s arbitrary: cur)
  case (Cons c s)
  have "of_char c < (16 * 16::nat)" using nat_of_char_less_256 [of c] by simp
  then have h1: "of_char c div 16 < (16::nat)" by (rule less_mult_imp_div_less)
  have h2: "of_char c mod 16 < (16::nat)" by simp
  note IH = Cons.IH [of "cur @ [c]"]
  have qb: "q \<noteq> py_bs" "q \<noteq> CHR ''t''" "q \<noteq> CHR ''n''" "q \<noteq> CHR ''r''" "q \<noteq> CHR ''x''"
    using assms by auto
  consider (esc) "c = q \<or> c = py_bs" | (tab) "\<not> (c = q \<or> c = py_bs)" "c = py_tab"
    | (nl) "\<not> (c = q \<or> c = py_bs)" "c = py_nl" | (cr) "\<not> (c = q \<or> c = py_bs)" "c = py_cr"
    | (pr) "\<not> (c = q \<or> c = py_bs)" "c \<noteq> py_tab" "c \<noteq> py_nl" "c \<noteq> py_cr" "py_printable c"
    | (hex) "\<not> (c = q \<or> c = py_bs)" "c \<noteq> py_tab" "c \<noteq> py_nl" "c \<noteq> py_cr" "\<not> py_printable c"
    by blast
  then show ?case
  proof cases
    case esc
    then have "py_escape q c = [py_bs, c]" by (simp add: py_escape_def)
    then show ?thesis using IH esc assms by (elim disjE) simp_all
  next
    case tab
    then show ?thesis using IH qb by (simp add: py_escape_def)
  next
    case nl
    then show ?thesis using IH qb by (simp add: py_escape_def)
  next
    case cr
    then show ?thesis using IH qb by (simp add: py_escape_def)
  next
    case pr
    then show ?thesis using IH qb by (simp add: py_escape_def)
  next
    case hex
    then show ?thesis
      using IH qb py_hex_roundtrip [OF h1] py_hex_roundtrip [OF h2] by (simp add: py_escape_def py_hex_digit_def)
  qed
qed simp

lemma py_str_repr_shape:
  obtains q where "q = py_sq \<or> q = py_dq" and "py_str_repr k = q # concat (map (py_escape q) k) @ [q]"
  using that by (simp add: py_str_repr_def Let_def)

lemma lit_dec_str:
  "lit_dec L_elem [] acc (py_str_repr k @ rest) = lit_dec L_after [] (acc @ [k]) rest"
proof -
  obtain q where q: "q = py_sq \<or> q = py_dq" and r: "py_str_repr k = q # concat (map (py_escape q) k) @ [q]"
    by (rule py_str_repr_shape)
  have "lit_dec L_elem [] acc (py_str_repr k @ rest) = lit_dec (L_in q) [] acc (concat (map (py_escape q) k) @ q # rest)"
    using q r by auto
  also have "\<dots> = lit_dec L_after [] (acc @ [k]) rest"
    using lit_dec_body [OF q] by simp
  finally show ?thesis .
qed

lemma lit_dec_elems:
  "lit_dec L_elem [] acc (py_join '', '' (map py_str_repr (k # ks)) @ '']'') = Some (acc @ k # ks)"
proof (induction ks arbitrary: k acc)
  case Nil
  then show ?case using lit_dec_str [of acc k "'']''"] by simp
next
  case (Cons k' ks)
  show ?case
    using lit_dec_str [of acc k "'', '' @ py_join '', '' (map py_str_repr (k' # ks)) @ '']''"] Cons.IH [of "acc @ [k]" k']
    by simp
qed

text \<open>The printed list reads back to exactly the list, whatever characters the
  strings contain.\<close>

theorem py_list_repr_roundtrip: "py_literal_list (py_list_repr ks) = Some ks"
proof (cases ks)
  case (Cons k ks')
  obtain q where "q = py_sq \<or> q = py_dq" and r: "py_str_repr k = q # concat (map (py_escape q) k) @ [q]"
    by (rule py_str_repr_shape)
  then have "py_join '', '' (map py_str_repr ks) @ '']'' \<noteq> '']''"
    using Cons by (cases ks') auto
  then show ?thesis
    using Cons lit_dec_elems [of "[]" k ks'] by (simp add: py_literal_list_def py_list_repr_def)
qed (simp add: py_literal_list_def py_list_repr_def)

end
