(* ===== verification/Cli.thy ===== *)
theory Cli
  imports Worksheet Archive Py_Repr
begin

text \<open>
  The four click commands of \<open>src/ctwpy/cli.py\<close> over the world (file
  system, standard output, remote catalog).  \<open>from_scanpy\<close> (lines 19--48)
  is its two blocks composed as the body runs them: \<open>extract_fields\<close>
  (lines 27--40: read the dataset, build the cell-type mapping, read the
  embedding, compute markers, clustering and expression, printing as it goes;
  the file system is only read) and \<open>package_worksheet\<close> (lines 42--48:
  create the staging directory, write the bundle, archive it as
  \<open>worksheet_name + ".ctw.tgz"\<close>, delete the staging directory).  Every
  exception ends the command with its \<open>Inl\<close> value and the world as it was
  when it was raised.  \<open>upload_worksheet\<close> (lines 50--57) reads the
  credentials and calls \<open>webapi.upload\<close> with \<open>None\<close> in place of the
  archive path, as the source does; \<open>webapi\<close> is not part of the sources
  and \<open>upload\<close> follows the specification (section 4.5).
\<close>

section \<open>Output\<close>

definition say :: "out_line \<Rightarrow> world \<Rightarrow> world" where
  "say l w = w\<lparr>stdout := stdout w @ [l]\<rparr>"

section \<open>from_scanpy\<close>

text \<open>The values the extraction block hands to the staging block.\<close>

record products =
  p_mapping :: celltype_map
  p_xys :: xys
  p_markers :: "marker_row list"
  p_clustering :: clustering
  p_exp :: expression

definition extract_fields ::
  "string \<Rightarrow> string \<Rightarrow> string \<Rightarrow> world \<Rightarrow> (error + products) \<times> world" where
  "extract_fields scanpy_path cluster_name celltype_key w0 =
     (let w1 = say (Line ''reading in data...'') w0 in
      case readh5ad scanpy_path (fs w1) of
        Inl e \<Rightarrow> (Inl e, w1)
      | Inr ad \<Rightarrow>
      (let w2 = say (Line ''Attempt to gather cell type mapping'') w1 in
       case celltype_mapping ad cluster_name celltype_key of
         Inl e \<Rightarrow> (Inl e, w2)
       | Inr mapping \<Rightarrow>
       (let w3 = say (MappingPreview (take 5 mapping)) w2;
            use_raw = has_raw ad in
        case get_xys ad ''X_umap'' of
          Inl e \<Rightarrow> (Inl e, w3)
        | Inr xys \<Rightarrow>
        (let w4 = say (Line ''Running marker generation'') w3 in
         case run_pipe ad cluster_name of
           Inl e \<Rightarrow> (Inl e, w4)
         | Inr markers_df \<Rightarrow>
         (case get_obs ad cluster_name of
            Inl e \<Rightarrow> (Inl e, w4)
          | Inr clustering \<Rightarrow>
          (case get_expression ad use_raw of
             Inl e \<Rightarrow> (Inl e, w4)
           | Inr ex \<Rightarrow>
               (Inr \<lparr>p_mapping = mapping, p_xys = xys, p_markers = markers_df,
                     p_clustering = clustering, p_exp = ex\<rparr>, w4)))))))"

definition package_worksheet :: "string \<Rightarrow> products \<Rightarrow> fs \<Rightarrow> (error + unit) \<times> fs" where
  "package_worksheet worksheet_name pr t =
     (case make_dir_or_complain worksheet_name t of
        Inl e \<Rightarrow> (Inl e, t)
      | Inr t1 \<Rightarrow>
        (case write_all_worksheet worksheet_name (p_xys pr) (p_exp pr) (p_clustering pr)
                (p_markers pr) (p_mapping pr) t1 of
           (Inl e, t2) \<Rightarrow> (Inl e, t2)
         | (Inr _, t2) \<Rightarrow>
           (case make_tarfile (ctw_filename worksheet_name) worksheet_name t2 of
              (Inl e, t3) \<Rightarrow> (Inl e, t3)
            | (Inr _, t3) \<Rightarrow>
              (case delete_dir worksheet_name t3 of
                 Inl e \<Rightarrow> (Inl e, t3)
               | Inr t4 \<Rightarrow> (Inr (), t4)))))"

definition from_scanpy ::
  "string \<Rightarrow> string \<Rightarrow> string \<Rightarrow> string \<Rightarrow> world \<Rightarrow> (error + unit) \<times> world" where
  "from_scanpy worksheet_name scanpy_path cluster_name celltype_key w =
     (case extract_fields scanpy_path cluster_name celltype_key w of
        (Inl e, w') \<Rightarrow> (Inl e, w')
      | (Inr pr, w') \<Rightarrow>
          (case package_worksheet worksheet_name pr (fs w') of
             (r, t) \<Rightarrow> (r, w'\<lparr>fs := t\<rparr>)))"

section \<open>Upload\<close>

text \<open>
  \<open>webapi.upload(ctw_path, credentials)\<close>: one authenticated transmission of
  the archive file's content to the catalog, no retry; without a readable
  archive or with credentials the service rejects, an \<open>UploadError\<close> and no
  change.
\<close>

definition upload :: "string option \<Rightarrow> (string \<times> string) list \<Rightarrow> world \<Rightarrow> (error + unit) \<times> world" where
  "upload ctw_path credentials w =
     (case ctw_path of
        None \<Rightarrow> (Inl (UploadError ''no archive file''), w)
      | Some p \<Rightarrow>
          (case fs_get (fs w) (path_of_str p) of
             Some (File c) \<Rightarrow>
               (if credentials \<in> set (accepted_creds w)
                then (Inr (), w\<lparr>catalog := catalog w @ [c]\<rparr>)
                else (Inl (UploadError ''authentication failed''), w))
           | _ \<Rightarrow> (Inl (UploadError p), w)))"

definition upload_worksheet :: "string \<Rightarrow> string \<Rightarrow> world \<Rightarrow> (error + unit) \<times> world" where
  "upload_worksheet ctw_path credentials_path w =
     (case read_json credentials_path (fs w) of
        Inl e \<Rightarrow> (Inl e, w)
      | Inr credentials \<Rightarrow> upload None credentials w)"

section \<open>The other commands\<close>

definition scanpy_obs :: "string \<Rightarrow> world \<Rightarrow> (error + unit) \<times> world" where
  "scanpy_obs scanpy_path w =
     (case readh5ad scanpy_path (fs w) of
        Inl e \<Rightarrow> (Inl e, w)
      | Inr ad \<Rightarrow> (Inr (), say (Line (py_list_repr (obs_keys ad))) w))"

definition bye :: "world \<Rightarrow> (error + unit) \<times> world" where
  "bye w = (Inr (), say (Line ''Bye World!'') w)"

section \<open>The command surface\<close>

text \<open>
  The commands as click dispatches them; \<open>--cluster_name\<close> and
  \<open>--celltype_key\<close> default to \<open>louvain\<close> and \<open>scorect\<close>.  An
  uncaught exception makes click exit with status 1.
\<close>

datatype command =
    From_scanpy string string "string option" "string option"
  | Upload_worksheet string string
  | Scanpy_obs string
  | Bye

fun run_command :: "command \<Rightarrow> world \<Rightarrow> (error + unit) \<times> world" where
  "run_command (From_scanpy name path cluster celltype) w =
     from_scanpy name path (case cluster of None \<Rightarrow> ''louvain'' | Some c \<Rightarrow> c)
       (case celltype of None \<Rightarrow> ''scorect'' | Some c \<Rightarrow> c) w"
| "run_command (Upload_worksheet ctw creds) w = upload_worksheet ctw creds w"
| "run_command (Scanpy_obs path) w = scanpy_obs path w"
| "run_command Bye w = bye w"

section \<open>Auxiliary definitions for the proofs\<close>

text \<open>The file system after the staging directory is created and the five tables written.\<close>

definition staged :: "string \<Rightarrow> products \<Rightarrow> fs \<Rightarrow> fs" where
  "staged n pr t =
     put_files (map (\<lambda>(b, c). (path_of_str n @ [b], c))
       (worksheet_tables (p_xys pr) (p_exp pr) (p_clustering pr) (p_markers pr) (p_mapping pr)))
     (fs_put (path_of_str n) Dir t)"

text \<open>A world holding one dataset file, and products with empty tables.\<close>

definition example_world :: world where
  "example_world =
     \<lparr>fs = [([''data.h5ad''], File (H5ad example_anndata))], stdout = [], catalog = [],
      accepted_creds = [[(''user'', ''me'')]]\<rparr>"

definition empty_products :: products where
  "empty_products =
     \<lparr>p_mapping = [], p_xys = [], p_markers = [], p_clustering = [], p_exp = ([], [], [])\<rparr>"

definition rerun_products :: products where
  "rerun_products = empty_products\<lparr>p_mapping := [(''0'', ''T cell'')]\<rparr>"

section \<open>Effects of the extraction block\<close>

lemma fs_say [simp]: "fs (say l w) = fs w"
  by (simp add: say_def)

lemma extract_fields_fs: "fs (snd (extract_fields p c k w)) = fs w"
  by (auto simp: extract_fields_def Let_def split: sum.split)

lemma from_scanpy_extract_Inl:
  "fst (extract_fields p c k w) = Inl e \<Longrightarrow>
   from_scanpy n p c k w = (Inl e, snd (extract_fields p c k w))"
  by (cases "extract_fields p c k w") (simp add: from_scanpy_def)

lemma from_scanpy_extract_Inr:
  "extract_fields p c k w = (Inr pr, w1) \<Longrightarrow>
   from_scanpy n p c k w = (fst (package_worksheet n pr (fs w)), w1\<lparr>fs := snd (package_worksheet n pr (fs w))\<rparr>)"
  using extract_fields_fs [of p c k w]
  by (simp add: from_scanpy_def split: prod.split)

lemma example_extract:
  "extract_fields ''data.h5ad'' ''louvain'' ''scorect'' example_world =
     (Inr (projr (fst (extract_fields ''data.h5ad'' ''louvain'' ''scorect'' example_world))),
      snd (extract_fields ''data.h5ad'' ''louvain'' ''scorect'' example_world))"
  by (simp add: extract_fields_def example_world_def readh5ad_def fs_get_def path_of_str_def
       component_ok_def celltype_mapping_def example_anndata_def get_xys_def run_pipe_def
       obs_column_def get_obs_def get_expression_def has_raw_def Let_def)

lemma extract_fields_ok:
  assumes rd: "readh5ad p (fs w) = Inr ad" and lab: "map_of (obs ad) c = Some labels"
    and ct: "celltype_mapping ad c k = Inr mp" and emb: "map_of (obsm ad) ''X_umap'' = Some xy"
  shows "extract_fields p c k w =
           (Inr \<lparr>p_mapping = mp, p_xys = zip (obs_names ad) xy,
                 p_markers = marker_table (fst (snd (expression_of ad))) (snd (snd (expression_of ad))) labels,
                 p_clustering = zip (obs_names ad) labels, p_exp = expression_of ad\<rparr>,
            w\<lparr>stdout := stdout w @ [Line ''reading in data...'', Line ''Attempt to gather cell type mapping'',
                                    MappingPreview (take 5 mp), Line ''Running marker generation'']\<rparr>)"
proof -
  have ex: "get_expression ad (has_raw ad) = Inr (expression_of ad)"
    by (auto simp: get_expression_def has_raw_def expression_of_def split: option.split)
  have rp: "run_pipe ad c = Inr (marker_table (fst (snd (expression_of ad))) (snd (snd (expression_of ad))) labels)"
    using lab ex by (simp add: run_pipe_def obs_column_def case_prod_beta)
  show ?thesis
    using rd lab ct emb ex rp
    by (simp add: extract_fields_def say_def get_xys_def get_obs_def obs_column_def)
qed

lemma example_world_read: "readh5ad ''data.h5ad'' (fs example_world) = Inr example_anndata"
  by (simp add: example_world_def readh5ad_def fs_get_def path_of_str_def component_ok_def)

section \<open>The extraction block\<close>

text \<open>
  C8: on a well-formed dataset holding the
  cluster column, the cell-type column and the \<open>X_umap\<close> embedding, the
  extraction block (lines 27--40) succeeds without touching the file system,
  prints its four progress lines in order (the mapping preview showing the
  first five entries), and hands on: the cell-type mapping with one entry per
  cluster in sorted order, each the majority annotation of its cells; the
  embedding and the clustering keyed by cell; the expression table read from
  the raw slot exactly when there is one; and the marker table computed from
  that same table.
\<close>

theorem extract_fields_success:
  assumes rd: "readh5ad p (fs w) = Inr ad" and wf: "wf_anndata ad"
    and lab: "map_of (obs ad) c = Some labels" and tys: "map_of (obs ad) k = Some types"
    and emb: "map_of (obsm ad) ''X_umap'' = Some xy"
  shows "\<exists>pr w'. extract_fields p c k w = (Inr pr, w') \<and> fs w' = fs w
     \<and> stdout w' = stdout w @ [Line ''reading in data...'', Line ''Attempt to gather cell type mapping'',
                               MappingPreview (take 5 (p_mapping pr)), Line ''Running marker generation'']
     \<and> map fst (p_mapping pr) = clusters_of labels
     \<and> (\<forall>(cl, t) \<in> set (p_mapping pr). most_frequent (members labels types cl) = Some t)
     \<and> p_xys pr = zip (obs_names ad) xy
     \<and> p_clustering pr = zip (obs_names ad) labels
     \<and> p_exp pr = expression_of ad
     \<and> p_markers pr = marker_table (fst (snd (p_exp pr))) (snd (snd (p_exp pr))) labels"
proof -
  obtain mp where ct: "celltype_mapping ad c k = Inr mp" and mf: "map fst mp = clusters_of labels"
    and maj: "\<forall>(cl, t) \<in> set mp. most_frequent (members labels types cl) = Some t"
    using celltype_mapping_majority [OF wf lab tys] by blast
  show ?thesis
    using extract_fields_ok [OF rd lab ct emb] mf maj by simp
qed

theorem extract_fields_success_witness:
  "\<exists>pr w'. extract_fields ''data.h5ad'' ''louvain'' ''scorect'' example_world = (Inr pr, w')
     \<and> map fst (p_mapping pr) = [''0'', ''1'']
     \<and> p_clustering pr = [(''c1'', ''0''), (''c2'', ''1''), (''c3'', ''0''), (''c4'', ''1'')]"
  using extract_fields_success [OF example_world_read wf_example_anndata example_anndata_columns]
  by (auto simp: clusters_of_def example_anndata_def)

text \<open>
  C9: the cell-type mapping the
  extraction block hands on equals the reference definition of the
  specification: for each cluster in sorted order, the first annotation, in
  cell order, whose number of cells in the cluster is maximal.
\<close>

theorem extract_fields_mapping_reference:
  assumes rd: "readh5ad p (fs w) = Inr ad" and wf: "wf_anndata ad"
    and lab: "map_of (obs ad) c = Some labels" and tys: "map_of (obs ad) k = Some types"
    and emb: "map_of (obsm ad) ''X_umap'' = Some xy"
    and x: "extract_fields p c k w = (Inr pr, w')"
  shows "p_mapping pr =
           map (\<lambda>cl. (cl, the (find (\<lambda>a. \<forall>z \<in> set (members labels types cl).
                                     count_list (members labels types cl) z \<le> count_list (members labels types cl) a)
                               (members labels types cl))))
               (clusters_of labels)"
proof -
  note ct = celltype_mapping_explicit [OF wf lab tys]
  have "p_mapping pr = map (\<lambda>cl. (cl, the (most_frequent (members labels types cl)))) (clusters_of labels)"
    using extract_fields_ok [OF rd lab conjunct1 [OF ct] emb] x by simp
  then show ?thesis
    by (simp only: most_frequent_find)
qed

theorem extract_fields_mapping_reference_witness:
  "p_mapping (projr (fst (extract_fields ''data.h5ad'' ''louvain'' ''scorect'' example_world))) =
     [(''0'', ''T cell''), (''1'', ''B cell'')]"
proof -
  have "p_mapping (projr (fst (extract_fields ''data.h5ad'' ''louvain'' ''scorect'' example_world))) =
     map (\<lambda>cl. (cl, the (find (\<lambda>a. \<forall>z \<in> set (members [''0'', ''1'', ''0'', ''1''] [''T cell'', ''B cell'', ''NK cell'', ''B cell''] cl).
            count_list (members [''0'', ''1'', ''0'', ''1''] [''T cell'', ''B cell'', ''NK cell'', ''B cell''] cl) z
              \<le> count_list (members [''0'', ''1'', ''0'', ''1''] [''T cell'', ''B cell'', ''NK cell'', ''B cell''] cl) a)
          (members [''0'', ''1'', ''0'', ''1''] [''T cell'', ''B cell'', ''NK cell'', ''B cell''] cl))))
       (clusters_of [''0'', ''1'', ''0'', ''1''])"
    by (rule extract_fields_mapping_reference [OF example_world_read wf_example_anndata
          example_anndata_columns example_extract])
  then show ?thesis
    by (simp add: members_def clusters_of_def)
qed

text \<open>
  C15: when the dataset lacks the cluster
  column or the cell-type column, \<open>from_scanpy\<close> fails with a
  \<open>ConfigurationError\<close> listing exactly the missing columns, before
  anything is written: the file system is unchanged.
\<close>

theorem from_scanpy_missing_column:
  assumes rd: "readh5ad p (fs w) = Inr ad"
    and miss: "map_of (obs ad) c = None \<or> map_of (obs ad) k = None"
  shows "\<exists>w'. from_scanpy n p c k w =
                (Inl (ConfigurationError (filter (\<lambda>key. map_of (obs ad) key = None) [c, k])), w')
              \<and> fs w' = fs w"
proof -
  have "fst (extract_fields p c k w) = Inl (ConfigurationError (filter (\<lambda>key. map_of (obs ad) key = None) [c, k]))"
    using rd celltype_mapping_missing_column [OF miss] by (simp add: extract_fields_def Let_def)
  then show ?thesis
    using from_scanpy_extract_Inl extract_fields_fs by blast
qed

theorem from_scanpy_missing_column_witness:
  "\<exists>w'. from_scanpy ''ws'' ''data.h5ad'' ''louvain'' ''cell_type'' example_world
          = (Inl (ConfigurationError [''cell_type'']), w') \<and> fs w' = fs example_world"
proof -
  have h: "map_of (obs example_anndata) ''louvain'' = None \<or> map_of (obs example_anndata) ''cell_type'' = None"
    by (simp add: example_anndata_def)
  have "filter (\<lambda>key. map_of (obs example_anndata) key = None) [''louvain'', ''cell_type''] = [''cell_type'']"
    by (simp add: example_anndata_def)
  then show ?thesis
    using from_scanpy_missing_column [OF example_world_read h, of "''ws''"] by simp
qed

section \<open>The staging block\<close>

lemma package_worksheet_existing:
  "fs_get t (path_of_str n) \<noteq> None \<Longrightarrow>
   package_worksheet n pr t = (Inl (DirectoryExistsError n), t)"
  by (simp add: package_worksheet_def make_dir_or_complain_def)

lemma package_stage:
  assumes wf: "wf_fs t" and fresh: "fs_get t (path_of_str n) = None"
    and par: "fs_get t (butlast (path_of_str n)) = Some Dir"
  shows "make_dir_or_complain n t = Inr (fs_put (path_of_str n) Dir t)"
    and "write_all_worksheet n (p_xys pr) (p_exp pr) (p_clustering pr) (p_markers pr) (p_mapping pr)
           (fs_put (path_of_str n) Dir t) = (Inr (), staged n pr t)"
    and "wf_fs (staged n pr t)"
    and "fs_get (staged n pr t) k =
           (if \<exists>b. k = path_of_str n @ [b]
            then (case map_of (worksheet_tables (p_xys pr) (p_exp pr) (p_clustering pr) (p_markers pr) (p_mapping pr)) (last k) of
                    Some c \<Rightarrow> Some (File c) | None \<Rightarrow> fs_get t k)
            else if k = path_of_str n then Some Dir else fs_get t k)"
proof -
  let ?P = "path_of_str n"
  have P_ne: "?P \<noteq> []"
    using fresh by auto
  have g1: "fs_get (fs_put ?P Dir t) k = (if k = ?P then Some Dir else fs_get t k)" for k
    by (simp add: fs_get_put P_ne)
  show "make_dir_or_complain n t = Inr (fs_put ?P Dir t)"
    using fresh par P_ne by (simp add: make_dir_or_complain_def os_mkdir_Inr)
  have wf1: "wf_fs (fs_put ?P Dir t)"
    using wf P_ne par fresh by (auto intro: wf_fs_put)
  have below: "fs_get t (?P @ q) = None" for q
    using fresh_below [OF wf] fresh by simp
  have wr: "write_all_worksheet n (p_xys pr) (p_exp pr) (p_clustering pr) (p_markers pr) (p_mapping pr)
              (fs_put ?P Dir t) = (Inr (), staged n pr t) \<and> wf_fs (staged n pr t)"
    unfolding staged_def
    by (rule write_all_worksheet_put [OF wf1]) (auto simp: g1 below)
  then show "write_all_worksheet n (p_xys pr) (p_exp pr) (p_clustering pr) (p_markers pr) (p_mapping pr)
           (fs_put ?P Dir t) = (Inr (), staged n pr t)" and "wf_fs (staged n pr t)"
    by simp_all
  show "fs_get (staged n pr t) k =
           (if \<exists>b. k = ?P @ [b]
            then (case map_of (worksheet_tables (p_xys pr) (p_exp pr) (p_clustering pr) (p_markers pr) (p_mapping pr)) (last k) of
                    Some c \<Rightarrow> Some (File c) | None \<Rightarrow> fs_get t k)
            else if k = ?P then Some Dir else fs_get t k)"
    by (auto simp: staged_def fs_get_worksheet_files map_of_under g1 split: option.split)
qed

lemma staged_archive_slot:
  assumes wf: "wf_fs t" and fresh: "fs_get t (path_of_str n) = None"
    and par: "fs_get t (butlast (path_of_str n)) = Some Dir" and nm: "component_ok (basename n)"
  shows "fs_get (staged n pr t) (path_of_str (ctw_filename n)) = fs_get t (path_of_str (ctw_filename n))"
proof -
  have "length (path_of_str (ctw_filename n)) = length (path_of_str n)"
    using ctw_filename_sibling [OF nm] by (metis length_append_singleton)
  then have "\<not> (\<exists>b. path_of_str (ctw_filename n) = path_of_str n @ [b])"
    by auto
  then show ?thesis
    using package_stage(4) [OF wf fresh par, where pr = pr and k = "path_of_str (ctw_filename n)"]
      ctw_filename_ne [of n] by simp
qed

lemma package_worksheet_Inr_pre:
  assumes wf: "wf_fs t" and nm: "component_ok (basename n)"
    and run: "package_worksheet n pr t = (Inr (), t')"
  shows "fs_get t (path_of_str n) = None \<and> fs_get t (butlast (path_of_str n)) = Some Dir
         \<and> fs_get t (path_of_str (ctw_filename n)) \<noteq> Some Dir"
proof -
  obtain t1 where mk: "make_dir_or_complain n t = Inr t1"
    using run by (auto simp: package_worksheet_def split: sum.splits)
  then have fresh: "fs_get t (path_of_str n) = None" and par: "fs_get t (butlast (path_of_str n)) = Some Dir"
    using make_dir_or_complain_Inr by blast+
  note st = package_stage [OF wf fresh par]
  have "t1 = fs_put (path_of_str n) Dir t"
    using mk st(1) by simp
  then obtain t3 where "make_tarfile (ctw_filename n) n (staged n pr t) = (Inr (), t3)"
    using run mk st(2) [where pr = pr]
    by (auto simp: package_worksheet_def split: sum.splits prod.splits)
  then have "fs_get (staged n pr t) (path_of_str (ctw_filename n)) \<noteq> Some Dir"
    by (rule make_tarfile_Inr_slot)
  then show ?thesis
    using fresh par staged_archive_slot [OF wf fresh par nm, of pr] by simp
qed

lemma staged_tables:
  assumes wf: "wf_fs t" and fresh: "fs_get t (path_of_str n) = None"
    and par: "fs_get t (butlast (path_of_str n)) = Some Dir"
  shows "fs_get (staged n pr t) (path_of_str n @ [b]) = Some (File c) \<longleftrightarrow>
           (b, c) \<in> set (worksheet_tables (p_xys pr) (p_exp pr) (p_clustering pr) (p_markers pr) (p_mapping pr))"
proof -
  let ?T = "worksheet_tables (p_xys pr) (p_exp pr) (p_clustering pr) (p_markers pr) (p_mapping pr)"
  have "fs_get t (path_of_str n @ [b]) = None"
    using fresh_below [OF wf fresh] .
  then have g: "fs_get (staged n pr t) (path_of_str n @ [b]) =
                  (case map_of ?T b of Some c \<Rightarrow> Some (File c) | None \<Rightarrow> None)"
    using package_stage(4) [OF wf fresh par, where pr = pr and k = "path_of_str n @ [b]"]
    by (simp split: option.split)
  show ?thesis
  proof
    assume "fs_get (staged n pr t) (path_of_str n @ [b]) = Some (File c)"
    then have "map_of ?T b = Some c"
      by (simp add: g split: option.splits)
    then show "(b, c) \<in> set ?T"
      by (rule map_of_SomeD)
  next
    assume "(b, c) \<in> set ?T"
    then show "fs_get (staged n pr t) (path_of_str n @ [b]) = Some (File c)"
      by (simp add: g worksheet_tables_lookup)
  qed
qed

lemma package_worksheet_archive:
  assumes wf: "wf_fs t" and fresh: "fs_get t (path_of_str n) = None"
    and par: "fs_get t (butlast (path_of_str n)) = Some Dir"
    and nm: "component_ok (basename n)"
    and slot: "fs_get t (path_of_str (ctw_filename n)) \<noteq> Some Dir"
  shows "\<exists>t3 ms. make_tarfile (ctw_filename n) n (staged n pr t) = (Inr (), t3) \<and> wf_fs t3
     \<and> fs_get t3 (path_of_str (ctw_filename n)) = Some (File (Tgz ms))
     \<and> (\<forall>q. q \<noteq> path_of_str (ctw_filename n) \<longrightarrow> fs_get t3 q = fs_get (staged n pr t) q)
     \<and> (\<forall>(b, c) \<in> set (worksheet_tables (p_xys pr) (p_exp pr) (p_clustering pr) (p_markers pr) (p_mapping pr)).
           \<forall>dest u. dest \<noteq> [] \<longrightarrow> fs_get (extract_all ms dest u) (dest @ [basename n, b]) = Some (File c))
     \<and> \<not> prefix (path_of_str n) (path_of_str (ctw_filename n))
     \<and> package_worksheet n pr t = (Inr (), fs_remove_tree (path_of_str n) t3)"
proof -
  define P where "P = path_of_str n"
  define Ar where "Ar = path_of_str (ctw_filename n)"
  define T where "T = worksheet_tables (p_xys pr) (p_exp pr) (p_clustering pr) (p_markers pr) (p_mapping pr)"
  define t2 where "t2 = staged n pr t"
  have P_ne: "P \<noteq> []"
    using fresh by (auto simp: P_def)
  have PO: "P = butlast P @ [basename n]" "Ar = butlast P @ [basename n @ ''.ctw.tgz'']"
    using ctw_filename_sibling [OF nm] by (simp_all add: P_def Ar_def)
  have O_ne: "Ar \<noteq> []"
    using PO(2) by simp
  have bO: "butlast Ar = butlast P"
    using PO(2) by simp
  have O_P: "Ar \<noteq> P"
  proof
    assume "Ar = P"
    then have "basename n @ ''.ctw.tgz'' = basename n"
      using PO by (metis last_snoc)
    then show False by simp
  qed
  have lenO: "length Ar = length P"
    using PO by (metis length_append_singleton)
  have nprefO: "\<not> prefix P Ar"
  proof
    assume "prefix P Ar"
    then obtain zs where "Ar = P @ zs" by (auto simp: prefix_def)
    with lenO O_P show False by simp
  qed
  note st = package_stage [OF wf fresh par]
  have g2: "fs_get t2 k = (if \<exists>b. k = P @ [b] then (case map_of T (last k) of Some c \<Rightarrow> Some (File c)
              | None \<Rightarrow> fs_get t k) else if k = P then Some Dir else fs_get t k)" for k
    using st(4) [where pr = pr and k = k] by (simp add: t2_def T_def P_def)
  have wf2: "wf_fs t2" using st(3) [where pr = pr] by (simp add: t2_def)
  have t2_O: "fs_get t2 Ar = fs_get t Ar" and t2_bO: "fs_get t2 (butlast Ar) = Some Dir"
     and t2_P: "fs_get t2 P = Some Dir"
    using lenO O_P PO bO par by (auto simp: g2 P_def Ar_def)
  define t3' where "t3' = fs_put Ar (File (Text '''')) t2"
  define ms where "ms = tar_walk t3' Ar P (path_of_str (basename n))"
  define t3 where "t3 = fs_put Ar (File (Tgz ms)) t3'"
  have tar: "make_tarfile (ctw_filename n) n t2 = (Inr (), t3)"
    unfolding t3_def ms_def t3'_def P_def Ar_def
    by (rule make_tarfile_ok) (use O_ne t2_O t2_bO t2_P O_P slot in \<open>simp_all add: P_def Ar_def\<close>)
  have wf3: "wf_fs t3" using make_tarfile_wf [OF wf2 tar] .
  have g3: "fs_get t3 k = (if k = Ar then Some (File (Tgz ms)) else fs_get t2 k)" for k
    using O_ne by (simp add: t3_def t3'_def fs_get_put)
  define t4 where "t4 = fs_remove_tree P t3"
  have del: "delete_dir n t3 = Inr t4"
    using O_P t2_P by (simp add: delete_dir_def rmtree_Inr g3 t4_def P_def)
  have run: "package_worksheet n pr t = (Inr (), t4)"
    using st(1) st(2) [where pr = pr] tar del by (simp add: package_worksheet_def t2_def)
  have A: "path_of_str (basename n) = [basename n]"
    using nm basename_no_slash by (rule path_of_str_single)
  have ext: "fs_get (extract_all ms dest u) (dest @ [basename n, b]) = Some (File c)"
    if bc: "(b, c) \<in> set T" and dest: "dest \<noteq> []" for b c dest u
  proof -
    obtain ms' where ms': "fs_get t3 Ar = Some (File (Tgz ms'))"
      and ex: "\<forall>q. fs_get (extract_all ms' dest u) (dest @ [basename n] @ q) =
                  (if P @ q \<noteq> Ar \<and> fs_get t2 (P @ q) \<noteq> None then fs_get t2 (P @ q)
                   else fs_get u (dest @ [basename n] @ q))"
      using make_tarfile_extract [OF wf2 tar dest, of u] A by (auto simp: P_def Ar_def)
    have "ms' = ms" using ms' g3 by simp
    moreover have "fs_get t2 (P @ [b]) = Some (File c)"
      using worksheet_tables_lookup [OF bc [unfolded T_def]] by (simp add: g2 T_def)
    moreover have "P @ [b] \<noteq> Ar" using lenO by (metis length_append_singleton n_not_Suc_n)
    ultimately show ?thesis using ex [rule_format, of "[b]"] by simp
  qed
  have frame3: "\<forall>q. q \<noteq> Ar \<longrightarrow> fs_get t3 q = fs_get t2 q"
    by (simp add: g3)
  show ?thesis
    using tar wf3 g3 frame3 ext nprefO run
    unfolding T_def P_def Ar_def t4_def t2_def by (intro exI conjI) auto
qed

lemma package_worksheet_success:
  assumes wf: "wf_fs t" and fresh: "fs_get t (path_of_str n) = None"
    and par: "fs_get t (butlast (path_of_str n)) = Some Dir"
    and nm: "component_ok (basename n)"
    and slot: "fs_get t (path_of_str (ctw_filename n)) \<noteq> Some Dir"
  shows "\<exists>t' ms. package_worksheet n pr t = (Inr (), t') \<and> wf_fs t'
     \<and> (\<forall>q. fs_get t' (path_of_str n @ q) = None)
     \<and> fs_get t' (path_of_str (ctw_filename n)) = Some (File (Tgz ms))
     \<and> (\<forall>(b, c) \<in> set (worksheet_tables (p_xys pr) (p_exp pr) (p_clustering pr) (p_markers pr) (p_mapping pr)).
           \<forall>dest u. dest \<noteq> [] \<longrightarrow> fs_get (extract_all ms dest u) (dest @ [basename n, b]) = Some (File c))
     \<and> (\<forall>p. \<not> prefix (path_of_str n) p \<and> p \<noteq> path_of_str (ctw_filename n) \<longrightarrow> fs_get t' p = fs_get t p)"
proof -
  let ?P = "path_of_str n" and ?A = "path_of_str (ctw_filename n)"
  obtain t3 ms where tar: "make_tarfile (ctw_filename n) n (staged n pr t) = (Inr (), t3)"
    and wf3: "wf_fs t3" and arch: "fs_get t3 ?A = Some (File (Tgz ms))"
    and frame3: "\<forall>q. q \<noteq> ?A \<longrightarrow> fs_get t3 q = fs_get (staged n pr t) q"
    and ext: "\<forall>(b, c) \<in> set (worksheet_tables (p_xys pr) (p_exp pr) (p_clustering pr) (p_markers pr) (p_mapping pr)).
           \<forall>dest u. dest \<noteq> [] \<longrightarrow> fs_get (extract_all ms dest u) (dest @ [basename n, b]) = Some (File c)"
    and npref: "\<not> prefix ?P ?A" and run: "package_worksheet n pr t = (Inr (), fs_remove_tree ?P t3)"
    using package_worksheet_archive [OF wf fresh par nm slot, of pr] by blast
  have P_ne: "?P \<noteq> []"
    using fresh by auto
  have "fs_get (fs_remove_tree ?P t3) p = fs_get t p" if "\<not> prefix ?P p" "p \<noteq> ?A" for p
  proof -
    have "\<not> (\<exists>b. p = ?P @ [b])" and "p \<noteq> ?P"
      using that(1) by auto
    then show ?thesis
      using that frame3 package_stage(4) [OF wf fresh par, where pr = pr and k = p]
      by (simp add: fs_get_remove_tree)
  qed
  then show ?thesis
    using run wf_fs_remove_tree [OF wf3] arch npref ext P_ne
    by (intro exI [of _ "fs_remove_tree ?P t3"] exI [of _ ms]) (simp add: fs_get_remove_tree)
qed

lemma package_worksheet_inside:
  assumes wf: "wf_fs t" and fresh: "fs_get t (path_of_str n) = None"
    and par: "fs_get t (butlast (path_of_str n)) = Some Dir"
    and nm: "\<not> component_ok (basename n)"
  shows "\<exists>t'. package_worksheet n pr t = (Inr (), t')
              \<and> (\<forall>q. fs_get t' (path_of_str n @ q) = None)
              \<and> fs_get t' (path_of_str (ctw_filename n)) = None"
proof -
  define P where "P = path_of_str n"
  define x where "x = basename n @ ''.ctw.tgz''"
  define T where "T = worksheet_tables (p_xys pr) (p_exp pr) (p_clustering pr) (p_markers pr) (p_mapping pr)"
  define t2 where "t2 = staged n pr t"
  have P_ne: "P \<noteq> []"
    using fresh by (auto simp: P_def)
  have Ar: "path_of_str (ctw_filename n) = P @ [x]"
    using ctw_filename_inside [OF nm] by (simp add: P_def x_def)
  have xT: "map_of T x = None"
    using not_component_ok_cases [OF nm] by (auto simp: x_def T_def worksheet_tables_def)
  note st = package_stage [OF wf fresh par]
  have g2: "fs_get t2 k = (if \<exists>b. k = P @ [b] then (case map_of T (last k) of Some c \<Rightarrow> Some (File c)
              | None \<Rightarrow> fs_get t k) else if k = P then Some Dir else fs_get t k)" for k
    using st(4) [where pr = pr and k = k] by (simp add: t2_def T_def P_def)
  have below: "fs_get t (P @ q) = None" for q
    using fresh_below [OF wf] fresh by (simp add: P_def)
  have t2_P: "fs_get t2 P = Some Dir" and t2_O: "fs_get t2 (P @ [x]) = None"
    using xT below [of "[x]"] by (simp_all add: g2)
  obtain t3 where tar: "make_tarfile (ctw_filename n) n t2 = (Inr (), t3)"
    and t3_P: "fs_get t3 P = Some Dir"
  proof
    show "make_tarfile (ctw_filename n) n t2 = (Inr (), fs_put (P @ [x]) (File (Tgz
            (tar_walk (fs_put (P @ [x]) (File (Text '''')) t2) (P @ [x]) P (path_of_str (basename n)))))
            (fs_put (P @ [x]) (File (Text '''')) t2))"
      using make_tarfile_ok [of "ctw_filename n" t2 n] t2_P t2_O by (simp add: Ar P_def)
  qed (use t2_P in \<open>simp add: fs_get_put\<close>)
  have "delete_dir n t3 = Inr (fs_remove_tree P t3)"
    using t3_P by (simp add: delete_dir_def rmtree_Inr P_def)
  then have run: "package_worksheet n pr t = (Inr (), fs_remove_tree P t3)"
    using st(1) st(2) [where pr = pr] tar by (simp add: package_worksheet_def t2_def)
  show ?thesis
    using run P_ne by (simp add: Ar fs_get_remove_tree P_def)
qed

text \<open>
  C3: when the worksheet name is a proper name followed by a slash
  (\<open>ws/\<close>), the archive name \<open>worksheet_name + ".ctw.tgz"\<close> is
  \<open>ws/.ctw.tgz\<close>, inside the staging directory: the staging block reports
  success, and yet the staging directory and the archive with it are gone.
\<close>

theorem package_worksheet_archive_lost:
  assumes wf: "wf_fs t" and fresh: "fs_get t (path_of_str (m @ ''/'')) = None"
    and par: "fs_get t (butlast (path_of_str (m @ ''/''))) = Some Dir"
    and nm: "component_ok (basename m)" and nd: "basename m \<noteq> ''..''"
  shows "\<exists>t'. package_worksheet (m @ ''/'') pr t = (Inr (), t')
              \<and> (\<forall>q. fs_get t' (path_of_str (m @ ''/'') @ q) = None)
              \<and> fs_get t' (path_of_str (ctw_filename (m @ ''/''))) = None"
proof -
  have "\<not> component_ok (basename (m @ ''/''))"
    by (simp add: basename_def component_ok_def)
  then show ?thesis using package_worksheet_inside [OF wf fresh par] by blast
qed

theorem package_worksheet_archive_lost_witness:
  "\<exists>t'. package_worksheet ''ws/'' empty_products [] = (Inr (), t')
        \<and> (\<forall>q. fs_get t' ([''ws''] @ q) = None)
        \<and> fs_get t' [''ws'', ''.ctw.tgz''] = None"
proof -
  have p: "path_of_str ''ws/'' = [''ws'']" "path_of_str (ctw_filename ''ws/'') = [''ws'', ''.ctw.tgz'']"
    by (simp_all add: path_of_str_def component_ok_def ctw_filename_def)
  have h: "wf_fs []" "fs_get [] (path_of_str (''ws'' @ ''/'')) = None"
    "fs_get [] (butlast (path_of_str (''ws'' @ ''/''))) = Some Dir" "component_ok (basename ''ws'')"
    "basename ''ws'' \<noteq> ''..''"
    by (simp_all add: p wf_fs_def fs_get_def basename_def component_ok_def)
  show ?thesis
    using package_worksheet_archive_lost [OF h, of empty_products] p by simp
qed

section \<open>The command from_scanpy\<close>

text \<open>
  C1: when the data has been extracted and the
  worksheet name is a fresh directory name (its parent exists, its last
  component is a proper name, and no directory occupies the archive name),
  \<open>from_scanpy\<close> succeeds and leaves a well-formed file system in which the
  staging directory is gone, the archive exists, extracting it anywhere
  restores the five tables under the worksheet's base name, and no other
  path has changed.
\<close>

theorem from_scanpy_success:
  assumes wf: "wf_fs (fs w)" and fresh: "fs_get (fs w) (path_of_str n) = None"
    and par: "fs_get (fs w) (butlast (path_of_str n)) = Some Dir"
    and nm: "component_ok (basename n)"
    and slot: "fs_get (fs w) (path_of_str (ctw_filename n)) \<noteq> Some Dir"
    and x: "extract_fields p c k w = (Inr pr, w1)"
  shows "\<exists>t' ms. from_scanpy n p c k w = (Inr (), w1\<lparr>fs := t'\<rparr>) \<and> wf_fs t'
     \<and> (\<forall>q. fs_get t' (path_of_str n @ q) = None)
     \<and> fs_get t' (path_of_str (ctw_filename n)) = Some (File (Tgz ms))
     \<and> (\<forall>(b, c) \<in> set (worksheet_tables (p_xys pr) (p_exp pr) (p_clustering pr) (p_markers pr) (p_mapping pr)).
           \<forall>dest u. dest \<noteq> [] \<longrightarrow> fs_get (extract_all ms dest u) (dest @ [basename n, b]) = Some (File c))
     \<and> (\<forall>p. \<not> prefix (path_of_str n) p \<and> p \<noteq> path_of_str (ctw_filename n) \<longrightarrow> fs_get t' p = fs_get (fs w) p)"
proof -
  obtain t' ms where pk: "package_worksheet n pr (fs w) = (Inr (), t')" and props:
    "wf_fs t' \<and> (\<forall>q. fs_get t' (path_of_str n @ q) = None)
     \<and> fs_get t' (path_of_str (ctw_filename n)) = Some (File (Tgz ms))
     \<and> (\<forall>(b, c) \<in> set (worksheet_tables (p_xys pr) (p_exp pr) (p_clustering pr) (p_markers pr) (p_mapping pr)).
           \<forall>dest u. dest \<noteq> [] \<longrightarrow> fs_get (extract_all ms dest u) (dest @ [basename n, b]) = Some (File c))
     \<and> (\<forall>p. \<not> prefix (path_of_str n) p \<and> p \<noteq> path_of_str (ctw_filename n) \<longrightarrow> fs_get t' p = fs_get (fs w) p)"
    using package_worksheet_success [OF wf fresh par nm slot, of pr] by blast
  have "from_scanpy n p c k w = (Inr (), w1\<lparr>fs := t'\<rparr>)"
    using from_scanpy_extract_Inr [OF x] pk by simp
  with props show ?thesis by blast
qed

theorem from_scanpy_success_witness:
  "\<exists>t' ms. from_scanpy ''ws'' ''data.h5ad'' ''louvain'' ''scorect'' example_world
             = (Inr (), (snd (extract_fields ''data.h5ad'' ''louvain'' ''scorect'' example_world))\<lparr>fs := t'\<rparr>)
     \<and> fs_get t' [''ws''] = None
     \<and> fs_get t' [''ws.ctw.tgz''] = Some (File (Tgz ms))
     \<and> fs_get t' [''data.h5ad''] = Some (File (H5ad example_anndata))"
proof -
  have h: "wf_fs (fs example_world)" "fs_get (fs example_world) (path_of_str ''ws'') = None"
    "fs_get (fs example_world) (butlast (path_of_str ''ws'')) = Some Dir"
    "component_ok (basename ''ws'')"
    "fs_get (fs example_world) (path_of_str (ctw_filename ''ws'')) \<noteq> Some Dir"
    by (simp_all add: example_world_def wf_fs_def fs_get_def path_of_str_def component_ok_def
                      basename_def ctw_filename_def)
  have pw: "path_of_str ''ws'' = [''ws'']" "path_of_str (ctw_filename ''ws'') = [''ws.ctw.tgz'']"
    by (simp_all add: path_of_str_def component_ok_def ctw_filename_def)
  obtain t' ms where r: "from_scanpy ''ws'' ''data.h5ad'' ''louvain'' ''scorect'' example_world
             = (Inr (), (snd (extract_fields ''data.h5ad'' ''louvain'' ''scorect'' example_world))\<lparr>fs := t'\<rparr>)"
    and gone: "\<forall>q. fs_get t' (path_of_str ''ws'' @ q) = None"
    and arch: "fs_get t' (path_of_str (ctw_filename ''ws'')) = Some (File (Tgz ms))"
    and frame: "\<forall>p. \<not> prefix (path_of_str ''ws'') p \<and> p \<noteq> path_of_str (ctw_filename ''ws'')
                   \<longrightarrow> fs_get t' p = fs_get (fs example_world) p"
    using from_scanpy_success [OF h example_extract] by blast
  have "fs_get t' [''ws''] = None"
    using gone [rule_format, of "[]"] pw by simp
  moreover have "fs_get t' [''data.h5ad''] = Some (File (H5ad example_anndata))"
    using frame [rule_format, of "[''data.h5ad'']"] pw
    by (simp add: example_world_def fs_get_def)
  ultimately show ?thesis
    using r arch pw by auto
qed

text \<open>
  C13: when a file or directory already exists at
  the worksheet name, \<open>from_scanpy\<close> fails without changing the file system;
  when the extraction succeeded, the failure is \<open>DirectoryExistsError\<close>.
\<close>

theorem from_scanpy_existing_dir:
  assumes "fs_get (fs w) (path_of_str n) \<noteq> None"
  shows "\<exists>e w'. from_scanpy n p c k w = (Inl e, w') \<and> fs w' = fs w
           \<and> ((\<exists>pr. fst (extract_fields p c k w) = Inr pr) \<longrightarrow> e = DirectoryExistsError n)"
proof (cases "fst (extract_fields p c k w)")
  case (Inl e)
  then show ?thesis
    using from_scanpy_extract_Inl [OF Inl] extract_fields_fs [of p c k w] by auto
next
  case (Inr pr)
  then obtain w1 where x: "extract_fields p c k w = (Inr pr, w1)"
    by (metis prod.collapse)
  have "fs w1 = fs w"
    using extract_fields_fs [of p c k w] x by simp
  then show ?thesis
    using from_scanpy_extract_Inr [OF x] package_worksheet_existing [OF assms] Inr by simp
qed

theorem from_scanpy_existing_dir_witness:
  "\<exists>e w'. from_scanpy ''data.h5ad'' ''data.h5ad'' ''louvain'' ''scorect'' example_world = (Inl e, w')
      \<and> fs w' = fs example_world \<and> e = DirectoryExistsError ''data.h5ad''"
proof -
  have h: "fs_get (fs example_world) (path_of_str ''data.h5ad'') \<noteq> None"
    by (simp add: example_world_def fs_get_def path_of_str_def component_ok_def)
  show ?thesis
    using from_scanpy_existing_dir [OF h, of "''data.h5ad''" "''louvain''" "''scorect''"] example_extract
    by (metis fst_conv)
qed

text \<open>
  C14: when the dataset reads and the
  cell-type mapping succeeds but the dataset holds no \<open>X_umap\<close> embedding,
  \<open>from_scanpy\<close> fails with \<open>MissingEmbeddingError\<close> before anything is
  written: the file system is unchanged.
\<close>

theorem from_scanpy_missing_embedding:
  assumes "readh5ad p (fs w) = Inr ad" and "celltype_mapping ad c k = Inr mp"
    and "map_of (obsm ad) ''X_umap'' = None"
  shows "\<exists>w'. from_scanpy n p c k w = (Inl (MissingEmbeddingError ''X_umap''), w') \<and> fs w' = fs w"
proof -
  have "fst (extract_fields p c k w) = Inl (MissingEmbeddingError ''X_umap'')"
    using assms by (simp add: extract_fields_def Let_def get_xys_def)
  then show ?thesis
    using from_scanpy_extract_Inl extract_fields_fs by blast
qed

theorem from_scanpy_missing_embedding_witness:
  "\<exists>w'. from_scanpy ''ws'' ''d.h5ad'' ''louvain'' ''scorect''
          \<lparr>fs = [([''d.h5ad''], File (H5ad (example_anndata\<lparr>obsm := []\<rparr>)))], stdout = [],
           catalog = [], accepted_creds = []\<rparr>
        = (Inl (MissingEmbeddingError ''X_umap''), w')
      \<and> fs w' = [([''d.h5ad''], File (H5ad (example_anndata\<lparr>obsm := []\<rparr>)))]"
proof -
  let ?w = "\<lparr>fs = [([''d.h5ad''], File (H5ad (example_anndata\<lparr>obsm := []\<rparr>)))], stdout = [],
           catalog = [], accepted_creds = []\<rparr> :: world"
  have h1: "readh5ad ''d.h5ad'' (fs ?w) = Inr (example_anndata\<lparr>obsm := []\<rparr>)"
    by (simp add: readh5ad_def fs_get_def path_of_str_def component_ok_def)
  have h2: "celltype_mapping (example_anndata\<lparr>obsm := []\<rparr>) ''louvain'' ''scorect''
              = Inr (projr (celltype_mapping example_anndata ''louvain'' ''scorect''))"
    by (simp add: celltype_mapping_def example_anndata_def)
  have h3: "map_of (obsm (example_anndata\<lparr>obsm := []\<rparr>)) ''X_umap'' = None"
    by simp
  show ?thesis
    using from_scanpy_missing_embedding [OF h1 h2 h3, of "''ws''"] by simp
qed

text \<open>
  C2: once the staging directory has been
  created, it is deleted exactly when archiving reported success: the staging
  block returns success iff the directory is gone at its end.
\<close>

theorem package_worksheet_cleanup_iff:
  assumes wf: "wf_fs t" and fresh: "fs_get t (path_of_str n) = None"
    and par: "fs_get t (butlast (path_of_str n)) = Some Dir"
    and run: "package_worksheet n pr t = (r, t')"
  shows "fs_get t' (path_of_str n) = None \<longleftrightarrow> r = Inr ()"
proof -
  let ?P = "path_of_str n"
  note st = package_stage [OF wf fresh par]
  have P2: "fs_get (staged n pr t) ?P = Some Dir"
    using st(4) [where pr = pr and k = ?P] by simp
  obtain r3 t3 where tar: "make_tarfile (ctw_filename n) n (staged n pr t) = (r3, t3)"
    by (metis prod.collapse)
  have P3: "fs_get t3 ?P = Some Dir"
    using make_tarfile_frame [OF tar ctw_filename_ne [symmetric]] P2 by simp
  show ?thesis
  proof (cases r3)
    case (Inl e)
    then have "r = Inl e \<and> t' = t3"
      using run st(1) st(2) [where pr = pr] tar by (simp add: package_worksheet_def)
    then show ?thesis using P3 by simp
  next
    case (Inr u)
    have "delete_dir n t3 = Inr (fs_remove_tree ?P t3)"
      using P3 by (simp add: delete_dir_def rmtree_Inr)
    then have "r = Inr () \<and> t' = fs_remove_tree ?P t3"
      using run st(1) st(2) [where pr = pr] tar Inr by (simp add: package_worksheet_def)
    then show ?thesis
      using fresh by (auto simp: fs_get_remove_tree)
  qed
qed

theorem package_worksheet_cleanup_iff_witness:
  "fs_get (snd (package_worksheet ''ws'' empty_products [([''ws.ctw.tgz''], Dir)])) [''ws''] = None
     \<longleftrightarrow> fst (package_worksheet ''ws'' empty_products [([''ws.ctw.tgz''], Dir)]) = Inr ()"
proof -
  have p: "path_of_str ''ws'' = [''ws'']"
    by (simp add: path_of_str_def component_ok_def)
  have h: "wf_fs [([''ws.ctw.tgz''], Dir)]" "fs_get [([''ws.ctw.tgz''], Dir)] (path_of_str ''ws'') = None"
    "fs_get [([''ws.ctw.tgz''], Dir)] (butlast (path_of_str ''ws'')) = Some Dir"
    by (simp_all add: p wf_fs_def fs_get_def)
  show ?thesis
    using package_worksheet_cleanup_iff [where pr = empty_products, OF h surjective_pairing] p by simp
qed

section \<open>All commands\<close>

text \<open>C18: on a dataset file, \<open>scanpy_obs\<close> succeeds and prints exactly one
  line, which reads back as a Python list literal to the dataset's observation
  keys in their order, whatever characters they contain; nothing else
  changes.\<close>

theorem scanpy_obs_prints_keys:
  assumes "readh5ad p (fs w) = Inr ad"
  shows "\<exists>l. scanpy_obs p w = (Inr (), w\<lparr>stdout := stdout w @ [Line l]\<rparr>)
             \<and> py_literal_list l = Some (obs_keys ad)"
  using assms py_list_repr_roundtrip [of "obs_keys ad"]
  by (intro exI [of _ "py_list_repr (obs_keys ad)"]) (simp add: scanpy_obs_def say_def)

theorem scanpy_obs_prints_keys_witness:
  "readh5ad ''data.h5ad'' (fs example_world) = Inr example_anndata
   \<and> (\<exists>l. scanpy_obs ''data.h5ad'' example_world
             = (Inr (), example_world\<lparr>stdout := stdout example_world @ [Line l]\<rparr>)
           \<and> py_literal_list l = Some (obs_keys example_anndata))"
  using example_world_read scanpy_obs_prints_keys [OF example_world_read] by simp

section \<open>Running the staging block again\<close>

text \<open>C19: after a successful run the staging directory is gone, so a
  second run with the same worksheet name succeeds as well and replaces the
  archive: afterwards the archive extracts to the second run's tables only,
  and nothing outside the staging directory and the archive has changed.\<close>

theorem package_worksheet_rerun:
  assumes wf: "wf_fs t" and fresh: "fs_get t (path_of_str n) = None"
    and par: "fs_get t (butlast (path_of_str n)) = Some Dir"
    and nm: "component_ok (basename n)"
    and slot: "fs_get t (path_of_str (ctw_filename n)) \<noteq> Some Dir"
    and first: "package_worksheet n pr1 t = (Inr (), t1)"
  shows "\<exists>t2 ms. package_worksheet n pr2 t1 = (Inr (), t2)
     \<and> fs_get t2 (path_of_str (ctw_filename n)) = Some (File (Tgz ms))
     \<and> (\<forall>(b, c) \<in> set (worksheet_tables (p_xys pr2) (p_exp pr2) (p_clustering pr2) (p_markers pr2) (p_mapping pr2)).
           \<forall>dest u. dest \<noteq> [] \<longrightarrow> fs_get (extract_all ms dest u) (dest @ [basename n, b]) = Some (File c))
     \<and> (\<forall>q. fs_get t2 (path_of_str n @ q) = None)
     \<and> (\<forall>p. \<not> prefix (path_of_str n) p \<and> p \<noteq> path_of_str (ctw_filename n) \<longrightarrow> fs_get t2 p = fs_get t p)"
proof -
  let ?P = "path_of_str n" and ?A = "path_of_str (ctw_filename n)"
  obtain t1' ms1 where r1: "package_worksheet n pr1 t = (Inr (), t1')" and wf1: "wf_fs t1'"
    and gone1: "\<forall>q. fs_get t1' (?P @ q) = None" and arch1: "fs_get t1' ?A = Some (File (Tgz ms1))"
    and frame1: "\<forall>p. \<not> prefix ?P p \<and> p \<noteq> ?A \<longrightarrow> fs_get t1' p = fs_get t p"
    using package_worksheet_success [OF wf fresh par nm slot, of pr1] by blast
  have t1: "t1' = t1" using r1 first by simp
  have sib: "?P = butlast ?P @ [basename n]" "?A = butlast ?P @ [basename n @ ''.ctw.tgz'']"
    using ctw_filename_sibling [OF nm] by auto
  have "\<not> prefix ?P (butlast ?P)"
    using sib(1) by (metis prefix_length_le length_butlast length_append_singleton Suc_n_not_le_n)
  moreover have "butlast ?P \<noteq> ?A"
    using sib(2) by (metis length_append_singleton n_not_Suc_n)
  ultimately have par1: "fs_get t1 (butlast ?P) = Some Dir"
    using frame1 par t1 by auto
  have fresh1: "fs_get t1 ?P = None" using gone1 t1 by (metis append_Nil2)
  have slot1: "fs_get t1 ?A \<noteq> Some Dir" using arch1 t1 by simp
  obtain t2 ms where r2: "package_worksheet n pr2 t1 = (Inr (), t2)"
    and arch2: "fs_get t2 ?A = Some (File (Tgz ms))"
    and ext2: "\<forall>(b, c) \<in> set (worksheet_tables (p_xys pr2) (p_exp pr2) (p_clustering pr2) (p_markers pr2) (p_mapping pr2)).
           \<forall>dest u. dest \<noteq> [] \<longrightarrow> fs_get (extract_all ms dest u) (dest @ [basename n, b]) = Some (File c)"
    and gone2: "\<forall>q. fs_get t2 (?P @ q) = None"
    and frame2: "\<forall>p. \<not> prefix ?P p \<and> p \<noteq> ?A \<longrightarrow> fs_get t2 p = fs_get t1 p"
    using package_worksheet_success [OF wf1 [unfolded t1] fresh1 par1 nm slot1, of pr2] by blast
  have "\<forall>p. \<not> prefix ?P p \<and> p \<noteq> ?A \<longrightarrow> fs_get t2 p = fs_get t p"
    using frame1 frame2 t1 by simp
  then show ?thesis using r2 arch2 ext2 gone2 by blast
qed


theorem package_worksheet_rerun_witness:
  "wf_fs [] \<and> fs_get [] (path_of_str ''ws'') = None \<and> fs_get [] (butlast (path_of_str ''ws'')) = Some Dir
   \<and> component_ok (basename ''ws'') \<and> fs_get [] (path_of_str (ctw_filename ''ws'')) \<noteq> Some Dir
   \<and> package_worksheet ''ws'' empty_products [] = (Inr (), snd (package_worksheet ''ws'' empty_products []))
   \<and> (\<exists>t2 ms. package_worksheet ''ws'' rerun_products (snd (package_worksheet ''ws'' empty_products [])) = (Inr (), t2)
     \<and> fs_get t2 (path_of_str (ctw_filename ''ws'')) = Some (File (Tgz ms))
     \<and> (\<forall>(b, c) \<in> set (worksheet_tables (p_xys rerun_products) (p_exp rerun_products) (p_clustering rerun_products)
                          (p_markers rerun_products) (p_mapping rerun_products)).
           \<forall>dest u. dest \<noteq> [] \<longrightarrow> fs_get (extract_all ms dest u) (dest @ [basename ''ws'', b]) = Some (File c))
     \<and> (\<forall>q. fs_get t2 (path_of_str ''ws'' @ q) = None)
     \<and> (\<forall>p. \<not> prefix (path_of_str ''ws'') p \<and> p \<noteq> path_of_str (ctw_filename ''ws'') \<longrightarrow> fs_get t2 p = fs_get [] p))"
proof -
  have h: "wf_fs []" "fs_get [] (path_of_str ''ws'') = None" "fs_get [] (butlast (path_of_str ''ws'')) = Some Dir"
    "component_ok (basename ''ws'')" "fs_get [] (path_of_str (ctw_filename ''ws'')) \<noteq> Some Dir"
    by (simp_all add: wf_fs_def fs_get_def path_of_str_def component_ok_def basename_def ctw_filename_def)
  have first: "package_worksheet ''ws'' empty_products [] = (Inr (), snd (package_worksheet ''ws'' empty_products []))"
    by code_simp
  show ?thesis
    using h first package_worksheet_rerun [OF h first, of rerun_products] by blast
qed

section \<open>The command upload_worksheet\<close>

text \<open>
  C10: \<open>upload_worksheet\<close> never uploads:
  whatever the archive path and the credentials, it fails (reading the
  credentials, or in \<open>upload\<close>, which receives \<open>None\<close> for the archive path)
  and leaves the world, the remote catalog included, unchanged.
\<close>

theorem upload_worksheet_no_upload:
  "snd (upload_worksheet ctw creds w) = w \<and> (\<exists>e. fst (upload_worksheet ctw creds w) = Inl e)"
  by (auto simp: upload_worksheet_def upload_def split: sum.splits)

end
