(* ===== verification/Pipeline.thy ===== *)
theory Pipeline
  imports Cli
begin

text \<open>
  The pipeline of the specification (section 5) as a state machine over the
  world, and the refinement of \<open>from_scanpy\<close> into it.  A stage moves
  \<open>START \<rightarrow> EXTRACT \<rightarrow> COMPUTE_MARKERS \<rightarrow> STAGE_WRITE \<rightarrow> ARCHIVE \<rightarrow>
  CLEANUP \<rightarrow> DONE\<close>, and every stage that is not terminal may move to
  \<open>FAILED e\<close>, carrying the error.  Each step states what the specification's
  contracts allow it to do to the file system: the stages up to
  \<open>STAGE_WRITE\<close> (and a failure raised in them) write nothing; the write
  creates the staging directory with the five tables and changes nothing
  outside it; archiving creates the archive, which extracts to those tables,
  and changes nothing else; cleanup removes the staging directory and keeps
  the archive and every other path.
\<close>

datatype stage = START | EXTRACT | COMPUTE_MARKERS | STAGE_WRITE | ARCHIVE | CLEANUP | DONE
  | FAILED error

fun stage_rank :: "stage \<Rightarrow> nat" where
  "stage_rank START = 0"
| "stage_rank EXTRACT = 1"
| "stage_rank COMPUTE_MARKERS = 2"
| "stage_rank STAGE_WRITE = 3"
| "stage_rank ARCHIVE = 4"
| "stage_rank CLEANUP = 5"
| "stage_rank DONE = 6"
| "stage_rank (FAILED e) = 7"

fun terminal :: "stage \<Rightarrow> bool" where
  "terminal DONE = True"
| "terminal (FAILED e) = True"
| "terminal s = False"

definition worksheet_files :: "string list" where
  "worksheet_files = [''xys.tab'', ''exp.tab'', ''clustering.tab'', ''markers.tab'', ''celltype.tab'']"

inductive pipeline_step :: "string \<Rightarrow> stage \<times> world \<Rightarrow> stage \<times> world \<Rightarrow> bool"
  for n :: string where
  go_extract: "pipeline_step n (START, w) (EXTRACT, w)"
| go_markers: "fs w' = fs w \<Longrightarrow> pipeline_step n (EXTRACT, w) (COMPUTE_MARKERS, w')"
| go_write: "fs w' = fs w \<Longrightarrow> pipeline_step n (COMPUTE_MARKERS, w) (STAGE_WRITE, w')"
| go_archive:
    "fs_get (fs w) (path_of_str n) = None \<Longrightarrow> fs_get (fs w') (path_of_str n) = Some Dir
     \<Longrightarrow> (\<forall>b \<in> set worksheet_files. \<exists>c. fs_get (fs w') (path_of_str n @ [b]) = Some (File c))
     \<Longrightarrow> (\<forall>q. \<not> prefix (path_of_str n) q \<longrightarrow> fs_get (fs w') q = fs_get (fs w) q)
     \<Longrightarrow> pipeline_step n (STAGE_WRITE, w) (ARCHIVE, w')"
| go_cleanup:
    "fs_get (fs w') (path_of_str (ctw_filename n)) = Some (File (Tgz ms))
     \<Longrightarrow> (\<forall>b c dest u. fs_get (fs w) (path_of_str n @ [b]) = Some (File c) \<longrightarrow> dest \<noteq> []
            \<longrightarrow> fs_get (extract_all ms dest u) (dest @ [basename n, b]) = Some (File c))
     \<Longrightarrow> (\<forall>q. q \<noteq> path_of_str (ctw_filename n) \<longrightarrow> fs_get (fs w') q = fs_get (fs w) q)
     \<Longrightarrow> pipeline_step n (ARCHIVE, w) (CLEANUP, w')"
| go_done:
    "(\<forall>q. fs_get (fs w') (path_of_str n @ q) = None)
     \<Longrightarrow> fs_get (fs w') (path_of_str (ctw_filename n)) = fs_get (fs w) (path_of_str (ctw_filename n))
     \<Longrightarrow> (\<forall>q. \<not> prefix (path_of_str n) q \<longrightarrow> fs_get (fs w') q = fs_get (fs w) q)
     \<Longrightarrow> pipeline_step n (CLEANUP, w) (DONE, w')"
| go_failed:
    "\<not> terminal s \<Longrightarrow> (stage_rank s < 3 \<longrightarrow> fs w' = fs w)
     \<Longrightarrow> pipeline_step n (s, w) (FAILED e, w')"

inductive_cases pipeline_step_from_DONE: "pipeline_step n (DONE, w) c"
inductive_cases pipeline_step_from_FAILED: "pipeline_step n (FAILED e, w) c"

lemma nonterminal_rank: "\<not> terminal s \<Longrightarrow> stage_rank s < 6"
  by (cases s) auto

lemma pipeline_step_rank: "pipeline_step n c c' \<Longrightarrow> stage_rank (fst c) < stage_rank (fst c')"
  by (induction rule: pipeline_step.induct) (auto dest: nonterminal_rank)

lemma terminal_no_step: "terminal s \<Longrightarrow> \<not> pipeline_step n (s, w) c"
  by (cases s) (auto elim: pipeline_step_from_DONE pipeline_step_from_FAILED)

lemma worksheet_files_names:
  "set worksheet_files = fst ` set (worksheet_tables xy e cl ms mp)"
  by (metis worksheet_names set_map worksheet_files_def)

lemma worksheet_files_staged:
  assumes wf: "wf_fs t" and fresh: "fs_get t (path_of_str n) = None"
    and par: "fs_get t (butlast (path_of_str n)) = Some Dir"
  shows "\<forall>b \<in> set worksheet_files. \<exists>c. fs_get (staged n pr t) (path_of_str n @ [b]) = Some (File c)"
proof
  fix b
  assume "b \<in> set worksheet_files"
  then obtain c where "(b, c) \<in> set (worksheet_tables (p_xys pr) (p_exp pr) (p_clustering pr) (p_markers pr) (p_mapping pr))"
    by (auto simp: worksheet_files_names [of "p_xys pr" "p_exp pr" "p_clustering pr" "p_markers pr" "p_mapping pr"])
  then show "\<exists>c. fs_get (staged n pr t) (path_of_str n @ [b]) = Some (File c)"
    using staged_tables [OF wf fresh par, of pr] by blast
qed


inductive_cases pipeline_step_to_DONE: "pipeline_step n c (DONE, w')"
inductive_cases pipeline_step_to_CLEANUP: "pipeline_step n c (CLEANUP, w')"

lemma pipeline_reach_last_step:
  assumes "(pipeline_step n)\<^sup>*\<^sup>* (START, w) (s, w')" and "s \<noteq> START"
  shows "\<exists>c. (pipeline_step n)\<^sup>*\<^sup>* (START, w) c \<and> pipeline_step n c (s, w')"
  using assms by (cases rule: rtranclp.cases) auto

text \<open>
  Safety of the specified pipeline: a run that reaches \<open>DONE\<close> has left the
  archive in place and removed the staging directory.
\<close>

lemma pipeline_done_archive:
  assumes "(pipeline_step n)\<^sup>*\<^sup>* (START, w) (DONE, w')"
  shows "(\<exists>ms. fs_get (fs w') (path_of_str (ctw_filename n)) = Some (File (Tgz ms)))
         \<and> (\<forall>q. fs_get (fs w') (path_of_str n @ q) = None)"
proof -
  obtain c where "(pipeline_step n)\<^sup>*\<^sup>* (START, w) c" and last: "pipeline_step n c (DONE, w')"
    using pipeline_reach_last_step [OF assms] by auto
  then obtain w2 where r2: "(pipeline_step n)\<^sup>*\<^sup>* (START, w) (CLEANUP, w2)"
    and gone: "\<forall>q. fs_get (fs w') (path_of_str n @ q) = None"
    and keep: "fs_get (fs w') (path_of_str (ctw_filename n)) = fs_get (fs w2) (path_of_str (ctw_filename n))"
    by (auto elim: pipeline_step_to_DONE)
  obtain c' where "pipeline_step n c' (CLEANUP, w2)"
    using pipeline_reach_last_step [OF r2] by auto
  then obtain ms where "fs_get (fs w2) (path_of_str (ctw_filename n)) = Some (File (Tgz ms))"
    by (auto elim: pipeline_step_to_CLEANUP)
  with gone keep show ?thesis by auto
qed

lemma pipeline_staging_success:
  assumes wf: "wf_fs (fs w)" and nm: "component_ok (basename n)" and fs1: "fs w1 = fs w"
    and pk': "package_worksheet n pr (fs w) = (Inr (), t')"
  shows "(pipeline_step n)\<^sup>*\<^sup>* (STAGE_WRITE, w1) (DONE, w1\<lparr>fs := t'\<rparr>)"
proof -
  note pre = package_worksheet_Inr_pre [OF wf nm pk']
  then have fresh: "fs_get (fs w) (path_of_str n) = None"
    and par: "fs_get (fs w) (butlast (path_of_str n)) = Some Dir"
    and slot: "fs_get (fs w) (path_of_str (ctw_filename n)) \<noteq> Some Dir"
    by blast+
  obtain t3 ms where
    arch: "fs_get t3 (path_of_str (ctw_filename n)) = Some (File (Tgz ms))"
    and frame3: "\<forall>q. q \<noteq> path_of_str (ctw_filename n) \<longrightarrow> fs_get t3 q = fs_get (staged n pr (fs w)) q"
    and ext: "\<forall>(b, c) \<in> set (worksheet_tables (p_xys pr) (p_exp pr) (p_clustering pr) (p_markers pr) (p_mapping pr)).
       \<forall>dest u. dest \<noteq> [] \<longrightarrow> fs_get (extract_all ms dest u) (dest @ [basename n, b]) = Some (File c)"
    and npref: "\<not> prefix (path_of_str n) (path_of_str (ctw_filename n))"
    and res: "package_worksheet n pr (fs w) = (Inr (), fs_remove_tree (path_of_str n) t3)"
    using package_worksheet_archive [OF wf fresh par nm slot, of pr] by blast
  have t': "t' = fs_remove_tree (path_of_str n) t3"
    using res pk' by simp
  note st = package_stage [OF wf fresh par]
  have a1: "pipeline_step n (STAGE_WRITE, w1) (ARCHIVE, w1\<lparr>fs := staged n pr (fs w)\<rparr>)"
  proof (rule go_archive)
    show "\<forall>q. \<not> prefix (path_of_str n) q \<longrightarrow>
            fs_get (fs (w1\<lparr>fs := staged n pr (fs w)\<rparr>)) q = fs_get (fs w1) q"
      using st(4) [where pr = pr] by (auto simp: fs1)
  qed (use fresh fs1 st(4) [where pr = pr] worksheet_files_staged [OF wf fresh par, of pr] in auto)
  have a2: "pipeline_step n (ARCHIVE, w1\<lparr>fs := staged n pr (fs w)\<rparr>) (CLEANUP, w1\<lparr>fs := t3\<rparr>)"
  proof (rule go_cleanup)
    show "fs_get (fs (w1\<lparr>fs := t3\<rparr>)) (path_of_str (ctw_filename n)) = Some (File (Tgz ms))"
      using arch by simp
    show "\<forall>b c dest u. fs_get (fs (w1\<lparr>fs := staged n pr (fs w)\<rparr>)) (path_of_str n @ [b]) = Some (File c)
            \<longrightarrow> dest \<noteq> [] \<longrightarrow> fs_get (extract_all ms dest u) (dest @ [basename n, b]) = Some (File c)"
      using ext staged_tables [OF wf fresh par, of pr] by auto
  qed (use frame3 in simp)
  have a3: "pipeline_step n (CLEANUP, w1\<lparr>fs := t3\<rparr>) (DONE, w1\<lparr>fs := t'\<rparr>)"
    by (rule go_done) (use npref in \<open>auto simp: t' fs_get_remove_tree\<close>)
  show ?thesis
    using a1 a2 a3 by (meson converse_rtranclp_into_rtranclp r_into_rtranclp)
qed

section \<open>The refinement\<close>

text \<open>
  C5: every run of \<open>from_scanpy\<close> on a
  well-formed file system and a worksheet name whose last component is a
  proper name is a run of the specified pipeline: the machine goes from
  \<open>START\<close> in the initial world to \<open>DONE\<close> in the final world when the
  command succeeds, and to \<open>FAILED e\<close> when it raises \<open>e\<close>.
\<close>

theorem from_scanpy_refines_pipeline:
  assumes wf: "wf_fs (fs w)" and nm: "component_ok (basename n)"
  shows "(pipeline_step n)\<^sup>*\<^sup>* (START, w)
           (case fst (from_scanpy n p c k w) of Inl e \<Rightarrow> FAILED e | Inr _ \<Rightarrow> DONE,
            snd (from_scanpy n p c k w))"
proof (cases "extract_fields p c k w")
  case (Pair r w1)
  have fs1: "fs w1 = fs w"
    using extract_fields_fs [of p c k w] Pair by simp
  have s1: "pipeline_step n (START, w) (EXTRACT, w)"
    by (rule go_extract)
  show ?thesis
  proof (cases r)
    case (Inl e)
    then have run: "from_scanpy n p c k w = (Inl e, w1)"
      using Pair by (simp add: from_scanpy_def)
    have "pipeline_step n (EXTRACT, w) (FAILED e, w1)"
      by (rule go_failed) (simp_all add: fs1)
    with s1 have "(pipeline_step n)\<^sup>*\<^sup>* (START, w) (FAILED e, w1)"
      by (meson converse_rtranclp_into_rtranclp r_into_rtranclp)
    then show ?thesis
      by (simp add: run)
  next
    case (Inr pr)
    then have x: "extract_fields p c k w = (Inr pr, w1)"
      using Pair by simp
    have "pipeline_step n (EXTRACT, w) (COMPUTE_MARKERS, w1)"
      by (rule go_markers) (simp add: fs1)
    moreover have "pipeline_step n (COMPUTE_MARKERS, w1) (STAGE_WRITE, w1)"
      by (rule go_write) simp
    ultimately have to_write: "(pipeline_step n)\<^sup>*\<^sup>* (START, w) (STAGE_WRITE, w1)"
      using s1 by (meson converse_rtranclp_into_rtranclp r_into_rtranclp)
    obtain r' t' where pk: "package_worksheet n pr (fs w) = (r', t')"
      by (metis prod.collapse)
    have run: "from_scanpy n p c k w = (r', w1\<lparr>fs := t'\<rparr>)"
      using from_scanpy_extract_Inr [OF x] pk by simp
    show ?thesis
    proof (cases r')
      case (Inl e)
      have "pipeline_step n (STAGE_WRITE, w1) (FAILED e, w1\<lparr>fs := t'\<rparr>)"
        by (rule go_failed) simp_all
      with to_write have "(pipeline_step n)\<^sup>*\<^sup>* (START, w) (FAILED e, w1\<lparr>fs := t'\<rparr>)"
        by (rule rtranclp.rtrancl_into_rtrancl)
      then show ?thesis
        by (simp add: run Inl)
    next
      case (Inr u)
      have "(pipeline_step n)\<^sup>*\<^sup>* (STAGE_WRITE, w1) (DONE, w1\<lparr>fs := t'\<rparr>)"
        using pipeline_staging_success [OF wf nm fs1] pk Inr by simp
      with to_write have "(pipeline_step n)\<^sup>*\<^sup>* (START, w) (DONE, w1\<lparr>fs := t'\<rparr>)"
        by (rule rtranclp_trans)
      then show ?thesis
        by (simp add: run Inr)
    qed
  qed
qed

theorem from_scanpy_refines_pipeline_witness:
  "(pipeline_step ''ws'')\<^sup>*\<^sup>* (START, example_world)
     (case fst (from_scanpy ''ws'' ''data.h5ad'' ''louvain'' ''scorect'' example_world) of
        Inl e \<Rightarrow> FAILED e | Inr _ \<Rightarrow> DONE,
      snd (from_scanpy ''ws'' ''data.h5ad'' ''louvain'' ''scorect'' example_world))"
proof -
  have "wf_fs (fs example_world)" "component_ok (basename ''ws'')"
    by (simp_all add: example_world_def wf_fs_def fs_get_def basename_def component_ok_def)
  then show ?thesis
    by (rule from_scanpy_refines_pipeline)
qed

end
