(* ===== verification/Click.thy ===== *)
theory Click
  imports Cli
begin

text \<open>
  The command line as click (version 8) parses it for the decorators of
  \<open>src/ctwpy/cli.py\<close> (lines 19--23, 50--52, 65--66, 72): each command's
  positional arguments and value options (\<open>cmd_params\<close>), click's option
  parser over the argument vector (\<open>parse_loop\<close>: \<open>--\<close> ends the options,
  \<open>--name=value\<close> and \<open>--name value\<close> give a value, \<open>--help\<close> is a flag,
  an unknown token starting with \<open>-\<close> is an error, other tokens are
  positional wherever they occur, a repeated option keeps its last value),
  the order in which click reports what it finds (\<open>parse_command\<close>: parse
  errors, then \<open>--help\<close>, then a missing argument, then extra arguments),
  and the process's exit status (\<open>invoke\<close>: 2 with a usage message for a
  usage error, 0 after the help text, 1 with a traceback for an uncaught
  exception, 0 otherwise).  Two ways of writing a command line are proved to
  be parsed back to the command they render.
\<close>

section \<open>The decorators\<close>

datatype click_error =
    NoSuchOption string
  | OptionRequiresArgument string
  | OptionTakesNoValue string
  | MissingArgument string
  | UnexpectedExtraArguments "string list"

record cmd_params =
  c_args :: "string list"
  c_opts :: "(string \<times> string) list"

definition from_scanpy_params :: cmd_params where
  "from_scanpy_params =
     \<lparr>c_args = [''worksheet_name'', ''scanpy_path''],
      c_opts = [(''--cluster_name'', ''louvain''), (''--celltype_key'', ''scorect'')]\<rparr>"

definition upload_worksheet_params :: cmd_params where
  "upload_worksheet_params = \<lparr>c_args = [''ctw_path'', ''credentials_path''], c_opts = []\<rparr>"

definition scanpy_obs_params :: cmd_params where
  "scanpy_obs_params = \<lparr>c_args = [''scanpy_path''], c_opts = []\<rparr>"

definition bye_params :: cmd_params where
  "bye_params = \<lparr>c_args = [], c_opts = []\<rparr>"

section \<open>Click's option parser\<close>

definition option_like :: "string \<Rightarrow> bool" where
  "option_like a \<longleftrightarrow> 1 < length a \<and> hd a = CHR ''-''"

definition split_eq :: "string \<Rightarrow> string \<times> string option" where
  "split_eq a =
     (if CHR ''='' \<in> set a then (takeWhile (\<lambda>c. c \<noteq> CHR ''='') a, Some (tl (dropWhile (\<lambda>c. c \<noteq> CHR ''='') a)))
      else (a, None))"

text \<open>\<open>click.parser.OptionParser._process_args_for_options\<close> over the remaining tokens.\<close>

fun parse_loop :: "string list \<Rightarrow> string list \<Rightarrow> (string \<times> string) list \<times> string list \<times> bool
                    \<Rightarrow> click_error + (string \<times> string) list \<times> string list \<times> bool" where
  "parse_loop vo [] st = Inr st"
| "parse_loop vo (a # rest) (os, la, h) =
     (if a = ''--'' then Inr (os, la @ rest, h)
      else if option_like a then
        (case split_eq a of (name, ev) \<Rightarrow>
          if name = ''--help'' then
            (case ev of None \<Rightarrow> parse_loop vo rest (os, la, True) | Some _ \<Rightarrow> Inl (OptionTakesNoValue name))
          else if name \<in> set vo then
            (case ev of
               Some v \<Rightarrow> parse_loop vo rest (os @ [(name, v)], la, h)
             | None \<Rightarrow> (case rest of
                          [] \<Rightarrow> Inl (OptionRequiresArgument name)
                        | v # rest' \<Rightarrow> parse_loop vo rest' (os @ [(name, v)], la, h)))
          else Inl (NoSuchOption (if take 2 a = ''--'' then name else take 2 a)))
      else parse_loop vo rest (os, la @ [a], h))"

section \<open>Parsing a command line and running the command\<close>

datatype cli_command = CFrom_scanpy | CUpload_worksheet | CScanpy_obs | CBye

datatype invocation = Help | Usage_error click_error | Run command

definition params_of :: "cli_command \<Rightarrow> cmd_params" where
  "params_of c = (case c of
       CFrom_scanpy \<Rightarrow> from_scanpy_params
     | CUpload_worksheet \<Rightarrow> upload_worksheet_params
     | CScanpy_obs \<Rightarrow> scanpy_obs_params
     | CBye \<Rightarrow> bye_params)"

definition build_command :: "cli_command \<Rightarrow> string list \<Rightarrow> (string \<times> string) list \<Rightarrow> command" where
  "build_command c vs os = (case c of
       CFrom_scanpy \<Rightarrow> From_scanpy (vs ! 0) (vs ! 1)
                        (map_of (rev os) ''--cluster_name'') (map_of (rev os) ''--celltype_key'')
     | CUpload_worksheet \<Rightarrow> Upload_worksheet (vs ! 0) (vs ! 1)
     | CScanpy_obs \<Rightarrow> Scanpy_obs (vs ! 0)
     | CBye \<Rightarrow> Bye)"

definition parse_command :: "cli_command \<Rightarrow> string list \<Rightarrow> invocation" where
  "parse_command c argv =
     (let ps = params_of c in
      case parse_loop (map fst (c_opts ps)) argv ([], [], False) of
        Inl e \<Rightarrow> Usage_error e
      | Inr (os, la, h) \<Rightarrow>
          (if h then Help
           else if length la < length (c_args ps) then Usage_error (MissingArgument (c_args ps ! length la))
           else if length (c_args ps) < length la then Usage_error (UnexpectedExtraArguments (drop (length (c_args ps)) la))
           else Run (build_command c la os)))"

datatype err_line = Usage_message click_error | Traceback error

text \<open>The usage line and the \<open>help=\<close> text of the command's decorator, as click prints
  them for the command registered with flask: click names a command after its
  function with underscores turned into dashes.  The blank lines and the
  option list that follow in click's help page are not modelled.\<close>

definition help_text :: "cli_command \<Rightarrow> out_line list" where
  "help_text c = (case c of
       CFrom_scanpy \<Rightarrow> [Line ''Usage: flask from-scanpy [OPTIONS] WORKSHEET_NAME SCANPY_PATH'',
                       Line ''  Add a scanpy object to the user file system'']
     | CUpload_worksheet \<Rightarrow> [Line ''Usage: flask upload-worksheet [OPTIONS] CTW_PATH CREDENTIALS_PATH'',
                            Line ''  Upload a worksheet to the UCSC Cell Atlas'']
     | CScanpy_obs \<Rightarrow> [Line ''Usage: flask scanpy-obs [OPTIONS] SCANPY_PATH'',
                      Line ''  See the keys for observation matrix'']
     | CBye \<Rightarrow> [Line ''Usage: flask bye [OPTIONS]''])"

definition invoke :: "cli_command \<Rightarrow> string list \<Rightarrow> world \<Rightarrow> nat \<times> err_line list \<times> world" where
  "invoke c argv w =
     (case parse_command c argv of
        Help \<Rightarrow> (0, [], foldl (\<lambda>u l. say l u) w (help_text c))
      | Usage_error e \<Rightarrow> (2, [Usage_message e], w)
      | Run cmd \<Rightarrow> (case run_command cmd w of
                      (Inl e, w') \<Rightarrow> (1, [Traceback e], w')
                    | (Inr _, w') \<Rightarrow> (0, [], w')))"

section \<open>Rendering a command as a command line\<close>

text \<open>Two ways to write a command line: options first as \<open>--name=value\<close> and the
  positional arguments after \<open>--\<close>, or the plain way, arguments then options.\<close>

definition opt_tokens :: "string \<Rightarrow> string option \<Rightarrow> string list" where
  "opt_tokens name v = (case v of None \<Rightarrow> [] | Some x \<Rightarrow> [name @ ''='' @ x])"

definition plain_opt_tokens :: "string \<Rightarrow> string option \<Rightarrow> string list" where
  "plain_opt_tokens name v = (case v of None \<Rightarrow> [] | Some x \<Rightarrow> [name, x])"

fun render_safe :: "command \<Rightarrow> cli_command \<times> string list" where
  "render_safe (From_scanpy n p cl ct) =
     (CFrom_scanpy, opt_tokens ''--cluster_name'' cl @ opt_tokens ''--celltype_key'' ct @ [''--'', n, p])"
| "render_safe (Upload_worksheet a b) = (CUpload_worksheet, [''--'', a, b])"
| "render_safe (Scanpy_obs p) = (CScanpy_obs, [''--'', p])"
| "render_safe Bye = (CBye, [])"

fun render_plain :: "command \<Rightarrow> cli_command \<times> string list" where
  "render_plain (From_scanpy n p cl ct) =
     (CFrom_scanpy, [n, p] @ plain_opt_tokens ''--cluster_name'' cl @ plain_opt_tokens ''--celltype_key'' ct)"
| "render_plain (Upload_worksheet a b) = (CUpload_worksheet, [a, b])"
| "render_plain (Scanpy_obs p) = (CScanpy_obs, [p])"
| "render_plain Bye = (CBye, [])"

fun positional_args :: "command \<Rightarrow> string list" where
  "positional_args (From_scanpy n p cl ct) = [n, p]"
| "positional_args (Upload_worksheet a b) = [a, b]"
| "positional_args (Scanpy_obs p) = [p]"
| "positional_args Bye = []"

section \<open>Properties\<close>

lemma split_eq_opt:
  "CHR ''='' \<notin> set name \<Longrightarrow> split_eq (name @ CHR ''='' # x) = (name, Some x)"
  by (simp add: split_eq_def takeWhile_append dropWhile_append)

lemma split_eq_plain: "CHR ''='' \<notin> set a \<Longrightarrow> split_eq a = (a, None)"
  by (simp add: split_eq_def)

lemma parse_loop_opt_eq:
  assumes "name \<in> set vo" and "name \<noteq> ''--help''" and "CHR ''='' \<notin> set name" and "option_like name"
  shows "parse_loop vo ((name @ ''='' @ x) # rest) (os, la, h) = parse_loop vo rest (os @ [(name, x)], la, h)"
proof -
  have "option_like (name @ ''='' @ x)"
    using assms(4) by (auto simp: option_like_def hd_append)
  moreover have "name @ ''='' @ x \<noteq> ''--''"
  proof
    assume "name @ ''='' @ x = ''--''"
    then have "CHR ''='' \<in> set ''--''" by (metis Un_iff list.set_intros(1) set_append)
    then show False by simp
  qed
  ultimately show ?thesis
    using assms by (simp add: split_eq_opt)
qed

lemma parse_loop_opt_sep:
  assumes "name \<in> set vo" and "name \<noteq> ''--help''" and "CHR ''='' \<notin> set name" and "option_like name"
    and "name \<noteq> ''--''"
  shows "parse_loop vo (name # x # rest) (os, la, h) = parse_loop vo rest (os @ [(name, x)], la, h)"
  using assms by (simp add: split_eq_plain)

lemma parse_loop_opt_tokens:
  assumes "name \<in> set vo" and "name \<noteq> ''--help''" and "CHR ''='' \<notin> set name" and "option_like name"
  shows "parse_loop vo (opt_tokens name v @ rest) (os, la, h) =
           parse_loop vo rest (os @ (case v of None \<Rightarrow> [] | Some x \<Rightarrow> [(name, x)]), la, h)"
  using parse_loop_opt_eq [OF assms] by (cases v) (simp_all add: opt_tokens_def)

lemma parse_loop_plain_opt_tokens:
  assumes "name \<in> set vo" and "name \<noteq> ''--help''" and "CHR ''='' \<notin> set name" and "option_like name"
    and "name \<noteq> ''--''"
  shows "parse_loop vo (plain_opt_tokens name v @ rest) (os, la, h) =
           parse_loop vo rest (os @ (case v of None \<Rightarrow> [] | Some x \<Rightarrow> [(name, x)]), la, h)"
  using parse_loop_opt_sep [OF assms] by (cases v) (simp_all add: plain_opt_tokens_def)

text \<open>C7: every command, written with its options as \<open>--name=value\<close> and its
  positional arguments after \<open>--\<close>, is parsed back to itself, whatever the
  argument strings are.\<close>

theorem parse_render_safe:
  "parse_command (fst (render_safe cmd)) (snd (render_safe cmd)) = Run cmd"
proof (cases cmd)
  case (From_scanpy n p cl ct)
  let ?vo = "[''--cluster_name'', ''--celltype_key'']"
  have "parse_loop ?vo (opt_tokens ''--cluster_name'' cl @ opt_tokens ''--celltype_key'' ct @ [''--'', n, p]) ([], [], False)
        = Inr ((case cl of None \<Rightarrow> [] | Some x \<Rightarrow> [(''--cluster_name'', x)])
                 @ (case ct of None \<Rightarrow> [] | Some x \<Rightarrow> [(''--celltype_key'', x)]), [n, p], False)"
    by (simp add: parse_loop_opt_tokens option_like_def del: parse_loop.simps) (simp)
  then show ?thesis
    using From_scanpy
    by (cases cl; cases ct) (simp_all add: parse_command_def params_of_def from_scanpy_params_def build_command_def)
qed (simp_all add: parse_command_def params_of_def upload_worksheet_params_def scanpy_obs_params_def
                   bye_params_def build_command_def)


lemma parse_loop_positionals:
  "\<forall>a\<in>set args. \<not> option_like a \<and> a \<noteq> ''--'' \<Longrightarrow>
   parse_loop vo (args @ rest) (os, la, h) = parse_loop vo rest (os, la @ args, h)"
  by (induction args arbitrary: la) simp_all

lemma parse_loop_from_scanpy_opts:
  fixes rest :: "string list"
  defines "vo \<equiv> [''--cluster_name'', ''--celltype_key'']"
  shows "parse_loop vo (plain_opt_tokens ''--cluster_name'' cl @ plain_opt_tokens ''--celltype_key'' ct) (os, la, h)
         = Inr (os @ (case cl of None \<Rightarrow> [] | Some x \<Rightarrow> [(''--cluster_name'', x)])
                   @ (case ct of None \<Rightarrow> [] | Some x \<Rightarrow> [(''--celltype_key'', x)]), la, h)"
proof -
  have "parse_loop vo (plain_opt_tokens ''--cluster_name'' cl @ plain_opt_tokens ''--celltype_key'' ct) (os, la, h)
        = parse_loop vo (plain_opt_tokens ''--celltype_key'' ct)
            (os @ (case cl of None \<Rightarrow> [] | Some x \<Rightarrow> [(''--cluster_name'', x)]), la, h)"
    by (rule parse_loop_plain_opt_tokens) (simp_all add: vo_def option_like_def)
  also have "\<dots> = parse_loop vo []
            (os @ (case cl of None \<Rightarrow> [] | Some x \<Rightarrow> [(''--cluster_name'', x)])
                @ (case ct of None \<Rightarrow> [] | Some x \<Rightarrow> [(''--celltype_key'', x)]), la, h)"
    using parse_loop_plain_opt_tokens [of "''--celltype_key''" vo ct "[]"] by (simp add: vo_def option_like_def)
  finally show ?thesis by simp
qed

text \<open>C16: written the plain way (arguments first, then \<open>--name value\<close>), a
  command is parsed back to itself when none of its positional arguments
  starts with \<open>-\<close> (and is longer than one character) or is \<open>--\<close>.\<close>

theorem parse_render_plain:
  assumes "\<forall>a\<in>set (positional_args cmd). \<not> option_like a \<and> a \<noteq> ''--''"
  shows "parse_command (fst (render_plain cmd)) (snd (render_plain cmd)) = Run cmd"
proof (cases cmd)
  case (From_scanpy n p cl ct)
  let ?vo = "[''--cluster_name'', ''--celltype_key'']"
  have "parse_loop ?vo ([n, p] @ plain_opt_tokens ''--cluster_name'' cl @ plain_opt_tokens ''--celltype_key'' ct) ([], [], False)
        = Inr ((case cl of None \<Rightarrow> [] | Some x \<Rightarrow> [(''--cluster_name'', x)])
                 @ (case ct of None \<Rightarrow> [] | Some x \<Rightarrow> [(''--celltype_key'', x)]), [n, p], False)"
  proof -
    have "\<forall>a\<in>set [n, p]. \<not> option_like a \<and> a \<noteq> ''--''"
      using assms From_scanpy by simp
    then show ?thesis
      using parse_loop_positionals [of "[n, p]" _ "plain_opt_tokens ''--cluster_name'' cl @ plain_opt_tokens ''--celltype_key'' ct" "[]" "[]" False]
            parse_loop_from_scanpy_opts [of cl ct "[]" "[n, p]" False]
      by (simp del: parse_loop.simps)
  qed
  then show ?thesis
    using From_scanpy
    by (cases cl; cases ct)
       (simp_all add: parse_command_def params_of_def from_scanpy_params_def build_command_def del: parse_loop.simps)
qed (use assms in \<open>simp_all add: parse_command_def params_of_def upload_worksheet_params_def scanpy_obs_params_def
                   bye_params_def build_command_def\<close>)


lemma parse_loop_unknown:
  "option_like a \<Longrightarrow> fst (split_eq a) \<noteq> ''--help'' \<Longrightarrow> fst (split_eq a) \<notin> set vo \<Longrightarrow> a \<noteq> ''--'' \<Longrightarrow>
   parse_loop vo (a # rest) st = Inl (NoSuchOption (if take 2 a = ''--'' then fst (split_eq a) else take 2 a))"
  by (cases st) (auto split: prod.splits)

text \<open>C17: a dataset path that starts with \<open>-\<close> (other than \<open>--help\<close>) is
  taken for an unknown option: \<open>scanpy_obs\<close> exits with 2 without reading
  anything.\<close>

theorem scanpy_obs_dash_path:
  assumes "option_like p" and "fst (split_eq p) \<noteq> ''--help''" and "p \<noteq> ''--''"
  shows "invoke CScanpy_obs [p] w
           = (2, [Usage_message (NoSuchOption (if take 2 p = ''--'' then fst (split_eq p) else take 2 p))], w)"
  using assms parse_loop_unknown [of p "[]" "[]"]
  by (simp add: invoke_def parse_command_def params_of_def scanpy_obs_params_def del: parse_loop.simps)

theorem scanpy_obs_dash_path_witness:
  "option_like ''-data.h5ad'' \<and> fst (split_eq ''-data.h5ad'') \<noteq> ''--help'' \<and> ''-data.h5ad'' \<noteq> ''--''
   \<and> invoke CScanpy_obs [''-data.h5ad''] example_world
       = (2, [Usage_message (NoSuchOption ''-d'')], example_world)"
  using scanpy_obs_dash_path [of "''-data.h5ad''" example_world]
  by (simp add: option_like_def split_eq_def)

theorem parse_render_plain_witness:
  "positional_args (From_scanpy ''pbmc'' ''pbmc.h5ad'' (Some ''leiden'') None) = [''pbmc'', ''pbmc.h5ad'']
   \<and> \<not> option_like ''pbmc'' \<and> \<not> option_like ''pbmc.h5ad''
   \<and> parse_command CFrom_scanpy [''pbmc'', ''pbmc.h5ad'', ''--cluster_name'', ''leiden'']
       = Run (From_scanpy ''pbmc'' ''pbmc.h5ad'' (Some ''leiden'') None)"
  using parse_render_plain [of "From_scanpy ''pbmc'' ''pbmc.h5ad'' (Some ''leiden'') None"]
  by (simp add: option_like_def plain_opt_tokens_def)

end
