(* ===== verification/Concurrency.thy ===== *)
theory Concurrency
  imports Cli
begin

text \<open>
  Two invocations of \<open>from_scanpy\<close> with the same worksheet name, running at
  the same time (specification, section 5: no lock guards the staging
  directory).  The staging block (lines 42--48 of \<open>src/ctwpy/cli.py\<close>) is cut
  into its atomic file-system steps (\<open>ws_step\<close>): the existence check of
  \<open>make_dir_or_complain\<close>, its \<open>os.mkdir\<close>, the writing of the bundle, the
  archiving, the deletion.  A thread that fails in the first two steps is
  \<open>Refused\<close> (it has created nothing); one that fails later or completes is
  \<open>Finished\<close>.  A schedule (\<open>ws_sched\<close>) is the list of which thread moves
  next.  While one thread owns the staging directory, the directory exists
  and the other thread can only be refused, so every interleaving is one of
  the serial runs.  Writing the
  bundle and archiving are single steps: the other thread only tests whether
  the directory exists, which neither step changes.
\<close>

section \<open>The staging block as atomic steps\<close>

datatype ws_pc = Check | Mkdir | Write | Tar | Del | Refused error | Finished "error + unit"

fun ws_step :: "string \<Rightarrow> products \<Rightarrow> ws_pc \<Rightarrow> fs \<Rightarrow> ws_pc \<times> fs" where
  "ws_step n pr Check t =
     (if fs_get t (path_of_str n) \<noteq> None then (Refused (DirectoryExistsError n), t) else (Mkdir, t))"
| "ws_step n pr Mkdir t =
     (case os_mkdir n t of Inl e \<Rightarrow> (Refused e, t) | Inr t1 \<Rightarrow> (Write, t1))"
| "ws_step n pr Write t =
     (case write_all_worksheet n (p_xys pr) (p_exp pr) (p_clustering pr) (p_markers pr) (p_mapping pr) t of
        (Inl e, t2) \<Rightarrow> (Finished (Inl e), t2)
      | (Inr _, t2) \<Rightarrow> (Tar, t2))"
| "ws_step n pr Tar t =
     (case make_tarfile (ctw_filename n) n t of
        (Inl e, t3) \<Rightarrow> (Finished (Inl e), t3)
      | (Inr _, t3) \<Rightarrow> (Del, t3))"
| "ws_step n pr Del t =
     (case delete_dir n t of Inl e \<Rightarrow> (Finished (Inl e), t) | Inr t4 \<Rightarrow> (Finished (Inr ()), t4))"
| "ws_step n pr (Refused e) t = (Refused e, t)"
| "ws_step n pr (Finished r) t = (Finished r, t)"

fun ws_solo :: "string \<Rightarrow> products \<Rightarrow> nat \<Rightarrow> ws_pc \<Rightarrow> fs \<Rightarrow> ws_pc \<times> fs" where
  "ws_solo n pr 0 pc t = (pc, t)"
| "ws_solo n pr (Suc k) pc t = (case ws_step n pr pc t of (pc', t') \<Rightarrow> ws_solo n pr k pc' t')"

fun ws_result :: "ws_pc \<Rightarrow> (error + unit) option" where
  "ws_result (Refused e) = Some (Inl e)"
| "ws_result (Finished r) = Some r"
| "ws_result pc = None"

fun ws_idle :: "ws_pc \<Rightarrow> bool" where
  "ws_idle Check = True"
| "ws_idle Mkdir = True"
| "ws_idle (Refused e) = True"
| "ws_idle pc = False"

fun ws_owner :: "ws_pc \<Rightarrow> bool" where
  "ws_owner Write = True"
| "ws_owner Tar = True"
| "ws_owner Del = True"
| "ws_owner pc = False"

fun ws_sched :: "string \<Rightarrow> products \<Rightarrow> products \<Rightarrow> bool list \<Rightarrow> ws_pc \<times> ws_pc \<times> fs \<Rightarrow> ws_pc \<times> ws_pc \<times> fs" where
  "ws_sched n pa pb [] c = c"
| "ws_sched n pa pb (True # s) (a, b, t) = (case ws_step n pa a t of (a', t') \<Rightarrow> ws_sched n pa pb s (a', b, t'))"
| "ws_sched n pa pb (False # s) (a, b, t) = (case ws_step n pb b t of (b', t') \<Rightarrow> ws_sched n pa pb s (a, b', t'))"


text \<open>The invariant of an interleaving, with \<open>x\<close> the thread that created the
  directory first: nothing has happened yet; or \<open>x\<close> has run alone from the
  start while \<open>y\<close> has created nothing; or \<open>x\<close> has finished and \<open>y\<close> has
  run alone from where \<open>x\<close> ended.\<close>

definition ws_leads :: "string \<Rightarrow> products \<Rightarrow> products \<Rightarrow> fs \<Rightarrow> ws_pc \<Rightarrow> ws_pc \<Rightarrow> fs \<Rightarrow> bool" where
  "ws_leads n px py t0 x y t \<longleftrightarrow>
     (ws_idle x \<and> ws_idle y \<and> t = t0)
   \<or> (ws_idle y \<and> \<not> ws_idle x \<and> (\<exists>k. ws_solo n px k Check t0 = (x, t)))
   \<or> (\<not> ws_idle y \<and> (\<exists>k t1 r. x = Finished r \<and> ws_solo n px k Check t0 = (Finished r, t1)
                               \<and> (\<exists>j. ws_solo n py j Check t1 = (y, t))))"

text \<open>The schedule of the example: both threads pass the check before either
  creates the directory.\<close>

definition race_schedule :: "bool list" where
  "race_schedule = [True, False, True, False, True, True, True]"

section \<open>Running alone\<close>

lemma ws_solo_package:
  "ws_result (fst (ws_solo n pr 5 Check t)) = Some (fst (package_worksheet n pr t))
   \<and> snd (ws_solo n pr 5 Check t) = snd (package_worksheet n pr t)"
  by (auto simp: eval_nat_numeral package_worksheet_def make_dir_or_complain_def
           split: sum.splits prod.splits)

lemma ws_solo_done: "ws_result pc \<noteq> None \<Longrightarrow> ws_solo n pr k pc t = (pc, t)"
  by (induction k) (cases pc; simp)+

lemma ws_solo_add:
  "ws_solo n pr (k + m) pc t = (case ws_solo n pr k pc t of (pc', t') \<Rightarrow> ws_solo n pr m pc' t')"
  by (induction k arbitrary: pc t) (simp_all split: prod.splits)

lemma ws_solo_snoc:
  "ws_solo n pr (Suc k) pc t = (case ws_solo n pr k pc t of (pc', t') \<Rightarrow> ws_step n pr pc' t')"
  using ws_solo_add [of n pr k 1 pc t] by (simp split: prod.splits)

lemma ws_solo_five_done: "ws_result (fst (ws_solo n pr 5 Check t)) \<noteq> None"
  using ws_solo_package [of n pr t] by simp

lemma ws_solo_final:
  assumes "ws_solo n pr k Check t = (pc, t')" and "ws_result pc \<noteq> None"
  shows "ws_solo n pr 5 Check t = (pc, t')"
proof (cases "k \<le> 5")
  case True
  then have "ws_solo n pr 5 Check t = ws_solo n pr (5 - k) pc t'"
    using ws_solo_add [of n pr k "5 - k" Check t] assms(1) by simp
  then show ?thesis using ws_solo_done [OF assms(2)] by simp
next
  case False
  obtain pc5 t5 where f: "ws_solo n pr 5 Check t = (pc5, t5)" by fastforce
  have "ws_result pc5 \<noteq> None" using ws_solo_five_done [of n pr t] f by simp
  moreover have "ws_solo n pr k Check t = ws_solo n pr (k - 5) pc5 t5"
    using ws_solo_add [of n pr 5 "k - 5" Check t] f False by simp
  ultimately show ?thesis using assms(1) f ws_solo_done by simp
qed

lemma ws_solo_result:
  assumes "ws_solo n pr k Check t = (pc, t')" and "ws_result pc \<noteq> None"
  shows "ws_result pc = Some (fst (package_worksheet n pr t)) \<and> t' = snd (package_worksheet n pr t)"
  using ws_solo_package [of n pr t] ws_solo_final [OF assms] by simp

lemma ws_step_blocked:
  "fs_get t (path_of_str n) \<noteq> None \<Longrightarrow> ws_idle pc \<Longrightarrow> \<exists>e. ws_step n pr pc t = (Refused e, t)"
  by (cases pc) (auto simp: os_mkdir_def Let_def)

lemma ws_step_idle:
  assumes "ws_idle pc" and "ws_step n pr pc t = (pc', t')"
  shows "(ws_idle pc' \<and> t' = t) \<or> (pc' = Write \<and> ws_solo n pr 2 Check t = (Write, t'))"
proof (cases pc)
  case Mkdir
  then show ?thesis
    using assms by (auto simp: eval_nat_numeral os_mkdir_def Let_def split: sum.splits if_splits option.splits node.splits)
qed (use assms in \<open>auto split: if_splits\<close>)

lemma ws_step_busy: "\<not> ws_idle pc \<Longrightarrow> \<not> ws_idle (fst (ws_step n pr pc t))"
  by (cases pc) (auto split: sum.splits prod.splits)


lemma write_all_worksheet_keeps_dir:
  assumes "write_all_worksheet d xy e cl ms mp t = (r, t')"
  shows "fs_get t' (path_of_str d) = fs_get t (path_of_str d)"
proof -
  have "\<forall>b \<in> fst ` set (worksheet_tables xy e cl ms mp). path_of_str (path_join d b) \<noteq> path_of_str d"
    by (simp add: path_of_str_worksheet_file)
  then have "path_of_str d \<notin> path_of_str ` fst ` set (map (\<lambda>(b, c). (path_join d b, c)) (worksheet_tables xy e cl ms mp))"
    by force
  then show ?thesis
    using assms write_files_frame unfolding write_all_worksheet_def by blast
qed

lemma ws_step_owner:
  assumes "ws_step n pr pc t = (pc', t')" and "ws_owner pc'"
    and "ws_owner pc \<Longrightarrow> fs_get t (path_of_str n) = Some Dir"
  shows "fs_get t' (path_of_str n) = Some Dir"
proof (cases pc)
  case Mkdir
  then show ?thesis using assms(1,2) by (auto simp: os_mkdir_Inr fs_get_put split: sum.splits if_splits)
next
  case Write
  then show ?thesis
    using assms write_all_worksheet_keeps_dir by (auto split: sum.splits prod.splits)
next
  case Tar
  then show ?thesis
    using assms make_tarfile_frame [OF _ ctw_filename_ne [symmetric]]
    by (auto split: sum.splits prod.splits)
qed (use assms in \<open>auto split: if_splits sum.splits\<close>)

lemma ws_solo_owner_dir:
  "ws_solo n pr k Check t0 = (pc, t) \<Longrightarrow> ws_owner pc \<Longrightarrow> fs_get t (path_of_str n) = Some Dir"
proof (induction k arbitrary: pc t)
  case (Suc k)
  obtain pc1 t1 where k: "ws_solo n pr k Check t0 = (pc1, t1)" by fastforce
  then have "ws_step n pr pc1 t1 = (pc, t)" using Suc.prems(1) by (simp only: ws_solo_snoc) simp
  then show ?case using ws_step_owner Suc.IH [OF k] Suc.prems(2) by blast
qed simp

section \<open>Interleaving two invocations\<close>

lemma ws_busy_cases: "\<not> ws_idle x \<Longrightarrow> ws_owner x \<or> (\<exists>r. x = Finished r)"
  by (cases x) auto

lemma ws_solo_extend:
  "ws_solo n pr k Check t0 = (x, t) \<Longrightarrow> ws_step n pr x t = (x', t') \<Longrightarrow> ws_solo n pr (Suc k) Check t0 = (x', t')"
  by (simp only: ws_solo_snoc) simp

lemma ws_leads_first_step:
  assumes "ws_leads n px py t0 x y t" and st: "ws_step n px x t = (x', t')"
  shows "ws_leads n px py t0 x' y t'"
  using assms(1) [unfolded ws_leads_def]
proof (elim disjE conjE exE)
  assume "ws_idle x" "ws_idle y" "t = t0"
  then show "?thesis" using ws_step_idle [OF _ st] unfolding ws_leads_def by fastforce
next
  fix k assume y: "ws_idle y" and x: "\<not> ws_idle x" and k: "ws_solo n px k Check t0 = (x, t)"
  have "\<not> ws_idle x'" using ws_step_busy [OF x, of n px t] st by simp
  moreover have "ws_solo n px (Suc k) Check t0 = (x', t')" using ws_solo_extend [OF k st] .
  ultimately show ?thesis using y unfolding ws_leads_def by blast
next
  fix k t1 r j
  assume "\<not> ws_idle y" "x = Finished r" "ws_solo n px k Check t0 = (Finished r, t1)"
    "ws_solo n py j Check t1 = (y, t)"
  then show ?thesis using st unfolding ws_leads_def by auto
qed

lemma ws_leads_second_step:
  assumes "ws_leads n px py t0 x y t" and st: "ws_step n py y t = (y', t')"
  shows "ws_leads n px py t0 x y' t' \<or> ws_leads n py px t0 y' x t'"
  using assms(1) [unfolded ws_leads_def]
proof (elim disjE conjE exE)
  assume "ws_idle x" "ws_idle y" "t = t0"
  then show "?thesis" using ws_step_idle [OF _ st] unfolding ws_leads_def by fastforce
next
  fix k assume y: "ws_idle y" and x: "\<not> ws_idle x" and k: "ws_solo n px k Check t0 = (x, t)"
  show ?thesis
  proof (cases "ws_owner x")
    case True
    then obtain e where "ws_step n py y t = (Refused e, t)"
      using ws_step_blocked [OF _ y] ws_solo_owner_dir [OF k] by fastforce
    then show ?thesis using st x k unfolding ws_leads_def by auto
  next
    case False
    then obtain r where r: "x = Finished r" using ws_busy_cases [OF x] by blast
    show ?thesis
      using ws_step_idle [OF y st] x k r unfolding ws_leads_def by fastforce
  qed
next
  fix k t1 r j
  assume y: "\<not> ws_idle y" and x: "x = Finished r" and k: "ws_solo n px k Check t0 = (Finished r, t1)"
    and j: "ws_solo n py j Check t1 = (y, t)"
  have "\<not> ws_idle y'" using ws_step_busy [OF y, of n py t] st by simp
  moreover have "ws_solo n py (Suc j) Check t1 = (y', t')" using ws_solo_extend [OF j st] .
  ultimately show ?thesis using x k unfolding ws_leads_def by blast
qed

lemma ws_sched_inv:
  "ws_leads n pa pb t0 a b t \<or> ws_leads n pb pa t0 b a t \<Longrightarrow>
   ws_sched n pa pb s (a, b, t) = (a', b', t') \<Longrightarrow>
   ws_leads n pa pb t0 a' b' t' \<or> ws_leads n pb pa t0 b' a' t'"
proof (induction s arbitrary: a b t)
  case (Cons x s)
  show ?case
  proof (cases x)
    case True
    obtain a1 t1 where st: "ws_step n pa a t = (a1, t1)" by fastforce
    have "ws_leads n pa pb t0 a1 b t1 \<or> ws_leads n pb pa t0 b a1 t1"
      using Cons.prems(1) ws_leads_first_step [OF _ st] ws_leads_second_step [OF _ st] by blast
    then show ?thesis using Cons.IH Cons.prems(2) True st by simp
  next
    case False
    obtain b1 t1 where st: "ws_step n pb b t = (b1, t1)" by fastforce
    have "ws_leads n pa pb t0 a b1 t1 \<or> ws_leads n pb pa t0 b1 a t1"
      using Cons.prems(1) ws_leads_first_step [OF _ st] ws_leads_second_step [OF _ st] by blast
    then show ?thesis using Cons.IH Cons.prems(2) False st by simp
  qed
qed simp


lemma ws_done_cases: "ws_result x \<noteq> None \<Longrightarrow> (\<exists>e. x = Refused e) \<or> (\<exists>r. x = Finished r)"
  by (cases x) auto

lemma ws_leads_final:
  assumes "ws_leads n px py t0 x y t" and dx: "ws_result x \<noteq> None" and dy: "ws_result y \<noteq> None"
  shows "(\<exists>ex ey. x = Refused ex \<and> y = Refused ey \<and> t = t0)
       \<or> (\<exists>ey. y = Refused ey \<and> ws_result x = Some (fst (package_worksheet n px t0)) \<and> t = snd (package_worksheet n px t0))
       \<or> (ws_result x = Some (fst (package_worksheet n px t0))
          \<and> ws_result y = Some (fst (package_worksheet n py (snd (package_worksheet n px t0))))
          \<and> t = snd (package_worksheet n py (snd (package_worksheet n px t0))))"
  using assms(1) [unfolded ws_leads_def]
proof (elim disjE conjE exE)
  assume "ws_idle x" "ws_idle y" "t = t0"
  then show ?thesis using ws_done_cases [OF dx] ws_done_cases [OF dy] by auto
next
  fix k assume "ws_idle y" "ws_solo n px k Check t0 = (x, t)"
  then show ?thesis using ws_solo_result [OF _ dx] ws_done_cases [OF dy] by auto
next
  fix k t1 r j
  assume "x = Finished r" and k: "ws_solo n px k Check t0 = (Finished r, t1)"
    and j: "ws_solo n py j Check t1 = (y, t)"
  then show ?thesis using ws_solo_result [OF k] ws_solo_result [OF j dy] by auto
qed

text \<open>C6: two invocations of the staging block with the same worksheet name, their
  steps interleaved in any order, end as one of the serial runs: both refused
  with the file system untouched, one refused and the other as if alone, or
  both one after the other.\<close>

theorem same_name_serializable:
  assumes "ws_sched n pa pb s (Check, Check, t0) = (a, b, t)"
    and "ws_result a \<noteq> None" and "ws_result b \<noteq> None"
  shows "(\<exists>ea eb. a = Refused ea \<and> b = Refused eb \<and> t = t0)
       \<or> (\<exists>eb. b = Refused eb \<and> ws_result a = Some (fst (package_worksheet n pa t0)) \<and> t = snd (package_worksheet n pa t0))
       \<or> (\<exists>ea. a = Refused ea \<and> ws_result b = Some (fst (package_worksheet n pb t0)) \<and> t = snd (package_worksheet n pb t0))
       \<or> (ws_result a = Some (fst (package_worksheet n pa t0))
          \<and> ws_result b = Some (fst (package_worksheet n pb (snd (package_worksheet n pa t0))))
          \<and> t = snd (package_worksheet n pb (snd (package_worksheet n pa t0))))
       \<or> (ws_result b = Some (fst (package_worksheet n pb t0))
          \<and> ws_result a = Some (fst (package_worksheet n pa (snd (package_worksheet n pb t0))))
          \<and> t = snd (package_worksheet n pa (snd (package_worksheet n pb t0))))"
proof -
  have "ws_leads n pa pb t0 Check Check t0" by (simp add: ws_leads_def)
  then have "ws_leads n pa pb t0 a b t \<or> ws_leads n pb pa t0 b a t"
    using ws_sched_inv assms(1) by blast
  then show ?thesis
    using ws_leads_final [of n pa pb t0 a b t] ws_leads_final [of n pb pa t0 b a t] assms(2,3) by blast
qed

theorem same_name_serializable_witness:
  "ws_sched ''ws'' empty_products empty_products race_schedule (Check, Check, [])
     = (Finished (Inr ()), Refused (FileExistsError ''ws''), snd (package_worksheet ''ws'' empty_products []))
   \<and> ws_result (Finished (Inr ())) \<noteq> None \<and> ws_result (Refused (FileExistsError ''ws'')) \<noteq> None
   \<and> ((\<exists>ea eb. Finished (Inr ()) = Refused ea \<and> Refused (FileExistsError ''ws'') = Refused eb
                 \<and> snd (package_worksheet ''ws'' empty_products []) = [])
       \<or> (\<exists>eb. Refused (FileExistsError ''ws'') = Refused eb
              \<and> ws_result (Finished (Inr ())) = Some (fst (package_worksheet ''ws'' empty_products []))
              \<and> snd (package_worksheet ''ws'' empty_products []) = snd (package_worksheet ''ws'' empty_products []))
       \<or> (\<exists>ea. Finished (Inr ()) = Refused ea
              \<and> ws_result (Refused (FileExistsError ''ws'')) = Some (fst (package_worksheet ''ws'' empty_products [])))
       \<or> (ws_result (Finished (Inr ())) = Some (fst (package_worksheet ''ws'' empty_products []))
          \<and> ws_result (Refused (FileExistsError ''ws''))
                = Some (fst (package_worksheet ''ws'' empty_products (snd (package_worksheet ''ws'' empty_products []))))
          \<and> snd (package_worksheet ''ws'' empty_products [])
                = snd (package_worksheet ''ws'' empty_products (snd (package_worksheet ''ws'' empty_products []))))
       \<or> (ws_result (Refused (FileExistsError ''ws'')) = Some (fst (package_worksheet ''ws'' empty_products []))
          \<and> ws_result (Finished (Inr ()))
                = Some (fst (package_worksheet ''ws'' empty_products (snd (package_worksheet ''ws'' empty_products []))))
          \<and> snd (package_worksheet ''ws'' empty_products [])
                = snd (package_worksheet ''ws'' empty_products (snd (package_worksheet ''ws'' empty_products [])))))"
proof -
  have run: "ws_sched ''ws'' empty_products empty_products race_schedule (Check, Check, [])
     = (Finished (Inr ()), Refused (FileExistsError ''ws''), snd (package_worksheet ''ws'' empty_products []))"
    by code_simp
  show ?thesis using same_name_serializable [OF run] run by simp
qed

end
