(* ===== verification/Spec2Isabelle.thy ===== *)
theory Spec2Isabelle
  imports Paths Dataset Markers File_System Archive Worksheet Cli Pipeline Click Concurrency Py_Repr
begin

text \<open>
  \<^bold>\<open>A verification development of ctwpy's command line (\<open>src/ctwpy/cli.py\<close>).\<close>

  \<^bold>\<open>The program.\<close>  \<open>cli.py\<close> defines four click commands.
  \<open>from_scanpy\<close> (lines 19--48) reads an AnnData dataset, extracts five
  products (the cell-type mapping, the UMAP coordinates, the marker table,
  the clustering, the expression table), writes them as a worksheet into a
  fresh staging directory, archives that directory as
  \<open>worksheet_name + ".ctw.tgz"\<close> with \<open>make_tarfile\<close> (lines 60--62) and
  deletes the directory.  \<open>upload_worksheet\<close> (lines 50--57) reads a
  credentials file and calls the uploader.  \<open>scanpy_obs\<close> (lines 65--69)
  prints a dataset's observation keys, \<open>bye\<close> (lines 72--74) a greeting.  The
  modules it calls (\<open>ctwpy.scanpyapi\<close>, \<open>ctwpy.marker_table\<close>,
  \<open>ctwpy.io\<close>, \<open>ctwpy.webapi\<close>) are not part of the sources; they are
  modelled from the specification, and the library calls (\<open>os\<close>,
  \<open>shutil\<close>, \<open>tarfile\<close>) by their documented effect on the file system.

  \<^bold>\<open>The theories.\<close>
  \<^item> \<open>Ctw_Base\<close>: the \<open>error\<close> datatype (one constructor per exception the
    commands can raise), the printed lines, \<open>bind_err\<close>, and the list and map
    lemmas the components share.
  \<^item> \<open>Paths\<close>: path strings as the OS resolves them (\<open>split_slash\<close> is
    \<open>str.split('/')\<close>, \<open>path_of_str\<close> drops empty and \<open>.\<close> components),
    \<open>os.path.basename\<close> as \<open>basename\<close>, \<open>os.path.join\<close> as \<open>path_join\<close>,
    and \<open>ctw_filename\<close> (line 46).  Lemmas place the archive beside the
    staging directory when the name's last component is a proper name, and
    inside it otherwise.
  \<^item> \<open>Dataset\<close>: the AnnData record with its shape invariant \<open>wf_anndata\<close>
    and the accessors of \<open>scanpyapi\<close>; the one-pass majority vote
    \<open>most_frequent\<close> is proved equal to the reference ``first annotation with
    maximal count''.
  \<^item> \<open>Markers\<close>: \<open>run_pipe\<close> (line 36): per cluster, the genes ranked by the
    difference of in- and out-of-cluster means (a stable sort).
  \<^item> \<open>File_System\<close>: the file system as an association list from paths to
    nodes (\<open>Dir\<close> or \<open>File\<close> of a typed content), the root implicit; the
    invariant \<open>wf_fs\<close> (distinct paths, every entry's parent a directory);
    \<open>os.mkdir\<close>, \<open>open(..., 'w')\<close>, \<open>shutil.rmtree\<close>, and the dataset and
    JSON readers, each returning its Python exception as \<open>Inl\<close> and each
    preserving \<open>wf_fs\<close>.
  \<^item> \<open>Archive\<close>: \<open>tarfile.open(out, "w:gz")\<close> creates or truncates the
    output first, then \<open>tar.add\<close> walks the tree (\<open>tar_walk\<close>, a
    \<open>function\<close> terminating by the measure \<open>Suc (max_depth t) - length
    name\<close>, the room left below the deepest path) in sorted order, skipping
    the archive itself; \<open>extract_all\<close> is \<open>extractall\<close>.  The walk depends
    only on the tree, lists each path once in increasing path order, and
    extracting the archive gives back the source tree.
  \<^item> \<open>Worksheet\<close>: \<open>io.make_dir_or_complain\<close>, \<open>write_all_worksheet\<close>
    (five files \<open>xys.tab\<close>, \<open>exp.tab\<close>, \<open>clustering.tab\<close>,
    \<open>markers.tab\<close>, \<open>celltype.tab\<close>) and \<open>delete_dir\<close>.
  \<^item> \<open>Cli\<close>: the world (file system, standard output, the remote catalog,
    the credentials the service accepts); \<open>from_scanpy\<close> as its extraction
    block \<open>extract_fields\<close> (lines 27--40) followed by its staging block
    \<open>package_worksheet\<close> (lines 42--48); \<open>upload_worksheet\<close> with the
    uploader \<open>upload\<close>; \<open>scanpy_obs\<close> and \<open>bye\<close>; the command datatype and
    \<open>run_command\<close> with click's option defaults.
  \<^item> \<open>Pipeline\<close>: the pipeline of the specification (section 5) as an
    inductive step relation over (stage, world) pairs, one rule per
    transition with what the specification lets that stage do to the file
    system; stage ranks increase along every step (no stage is revisited),
    \<open>DONE\<close> and \<open>FAILED\<close> are terminal, and every run reaching \<open>DONE\<close>
    leaves the archive and no staging directory.  \<open>from_scanpy\<close> refines it.
  \<^item> \<open>Click\<close>: the command line as click parses it for the decorators
    (lines 19--23, 50--52, 65--66, 72): the arguments and options of each
    command (\<open>cmd_params\<close>), click's option parser \<open>parse_loop\<close>
    (interspersed options, \<open>--name=value\<close>, \<open>--\<close>, the \<open>--help\<close> flag,
    unknown options), the order of click's usage errors
    (\<open>parse_command\<close>), the help text, and the process's exit status
    (\<open>invoke\<close>: 0, 1 after an uncaught exception, 2 after a usage error).
  \<^item> \<open>Concurrency\<close>: two same-name invocations of the staging block
    (lines 42--48) cut into atomic file-system steps (\<open>ws_step\<close>: check,
    mkdir, write, archive, delete) and interleaved by an arbitrary schedule
    (\<open>ws_sched\<close>).
  \<^item> \<open>Py_Repr\<close>: the line \<open>print(ad.obs_keys())\<close> writes (line 69): CPython's
    \<open>str\<close> of a list of strings, with \<open>repr\<close>'s choice of quotes and its
    escapes, and a reader of that line.

  \<^bold>\<open>What is proved\<close> (claims C1--C19).
  \<^item> C1: \<open>from_scanpy\<close> succeeds end to end on a fresh worksheet name; its
    archive extracts to the five tables, and no other path changes.
  \<^item> C2: the staging directory is deleted iff archiving succeeded.
  \<^item> C3: a worksheet name such as \<open>ws/\<close> makes the command report success
    while deleting its own archive \<open>ws/.ctw.tgz\<close> (a defect of line 46).
  \<^item> C4: the archive round trip of \<open>make_tarfile\<close>.
  \<^item> C5: every run of \<open>from_scanpy\<close> on a worksheet name ending in a proper
    component is a run of the specified pipeline machine.
  \<^item> C6: two same-name invocations, interleaved in any order, end as a
    serial run: the directory check and \<open>os.mkdir\<close> refuse the later one
    while the earlier one owns the staging directory, and a refused
    invocation has created nothing.
  \<^item> C7, C16: round trips of the command line: every command written with
    \<open>--name=value\<close> options and its arguments after \<open>--\<close> is parsed back to
    itself; written plainly, it is when no argument looks like an option.
  \<^item> C8, C9: what the extraction block prints and hands on, and the
    equality of the cell-type mapping with the reference majority (first
    annotation of maximal count).
  \<^item> C10: \<open>upload_worksheet\<close> can never upload, since it passes \<open>None\<close>
    for the archive (a defect of line 57).
  \<^item> C11, C12: the archive members depend only on the directory tree, are in
    strictly increasing path order, and are at most one per entry.
  \<^item> C13--C15: the error paths for an existing staging directory, a missing
    embedding and a missing column; each leaves the file system unchanged.
  \<^item> C17: a dataset path starting with \<open>-\<close> is rejected by click as an
    unknown option with exit status 2.
  \<^item> C18: the line \<open>scanpy_obs\<close> prints reads back to the observation keys.
  \<^item> C19: a second run with the same worksheet name after a successful one
    succeeds and silently replaces the archive with its own.

  \<^bold>\<open>Bounds.\<close>  No fuel stands for an unbounded loop: every loop of the
  model is structural (\<open>write_files\<close>, \<open>parse_loop\<close>, the folds) or has a
  termination proof (\<open>tar_walk\<close>), so every function is total.  The step
  count of \<open>ws_solo\<close> counts the staging block's five statements.  The
  archive has at most one member per file-system entry plus the root (C12).

  \<^bold>\<open>Not modelled.\<close>  The flask registration described in the module
  docstring (lines 1--18), the blank lines and option list of the help page,
  the byte-level gzip and tar formats (an archive is its member list),
  timestamps, the on-disk text format of the tables (a table is its list of
  cells), the text of the mapping preview (line 31, a pandas \<open>DataFrame\<close>
  repr), HTTP (an upload is an append to the catalog), and the statistics of
  the real marker library.  Path resolution drops \<open>.\<close> components and does
  not resolve \<open>..\<close>: for a name whose last component is \<open>.\<close> the model's
  \<open>os.mkdir\<close> and \<open>shutil.rmtree\<close> act on the directory before it, where
  the kernel refuses both, and \<open>''\<close> is the existing root; the properties
  whose hypotheses admit such names describe the model there.  In
  \<open>Concurrency\<close> writing the bundle and archiving are single steps; the
  other invocation only tests the directory's existence, which neither step
  changes.
\<close>

end
